theory Spec2Isabelle
  imports Complex_Main "HOL-Library.Char_ord" "HOL-Library.List_Lexorder" "HOL-Library.AList"
begin

section \<open>The row store (db.py)\<close>

text \<open>
  The two tables of \<^verbatim>\<open>init_db\<close>. The key columns are TEXT and are compared
  bytewise, shorter prefix first (SQLite's default BINARY collation): this is the
  lexicographic order on \<^typ>\<open>string\<close> of List_Lexorder over the
  byte order of Char_ord. A REAL column is \<^typ>\<open>real option\<close>, with
  \<^term>\<open>None\<close> for NULL. The thirteen measurement columns of a forecast and the nine
  of an observation are kept in the order of the CREATE TABLE statement.
\<close>

type_synonym sql_real = "real option"

record forecast =
  fetched_at :: string
  valid_time :: string
  source :: string
  lead_hours :: "int option"
  fcst_values :: "sql_real list"

record observation =
  obs_time :: string
  obs_values :: "sql_real list"

text \<open>PRIMARY KEY (fetched_at, valid_time, source) and PRIMARY KEY (time).\<close>

definition forecast_key :: "forecast \<Rightarrow> string \<times> string \<times> string" where
  "forecast_key f = (fetched_at f, valid_time f, source f)"

definition forecasts_pk :: "forecast list \<Rightarrow> bool" where
  "forecasts_pk fs = distinct (map forecast_key fs)"

definition observations_pk :: "observation list \<Rightarrow> bool" where
  "observations_pk os = distinct (map obs_time os)"

text \<open>
  \<^verbatim>\<open>INSERT OR REPLACE\<close>: a row with the same primary key is deleted, then the new row
  is added. \<^verbatim>\<open>insert_forecasts\<close> does this for every row of its argument with one
  \<^verbatim>\<open>source\<close> and one \<^verbatim>\<open>fetched_at\<close>.
\<close>

definition insert_or_replace_forecast :: "forecast \<Rightarrow> forecast list \<Rightarrow> forecast list" where
  "insert_or_replace_forecast f fs =
     filter (\<lambda>g. forecast_key g \<noteq> forecast_key f) fs @ [f]"

definition insert_forecasts ::
  "(string \<times> int option \<times> sql_real list) list \<Rightarrow> string \<Rightarrow> string \<Rightarrow> forecast list \<Rightarrow> forecast list"
where
  "insert_forecasts rows src fetched fs =
     foldl (\<lambda>tbl (t, lead, vals).
              insert_or_replace_forecast
                \<lparr>fetched_at = fetched, valid_time = t, source = src,
                 lead_hours = lead, fcst_values = vals\<rparr> tbl)
           fs rows"

definition insert_or_replace_observation :: "observation \<Rightarrow> observation list \<Rightarrow> observation list" where
  "insert_or_replace_observation ob os =
     filter (\<lambda>p. obs_time p \<noteq> obs_time ob) os @ [ob]"

definition insert_observations :: "observation list \<Rightarrow> observation list \<Rightarrow> observation list" where
  "insert_observations rows os = foldl (\<lambda>tbl ob. insert_or_replace_observation ob tbl) os rows"

text \<open>
  collector.py: \<^verbatim>\<open>store_forecast\<close> stamps live rows with the ISO timestamp of the
  fetch and the lead hour \<open>i\<close>; \<^verbatim>\<open>store_historical_forecast_chunk\<close> stamps
  backfilled rows with the marker \<^verbatim>\<open>"backfill"\<close> and no lead hour. Both write source
  \<^verbatim>\<open>best_match\<close>.
\<close>

definition backfill_marker :: string where
  "backfill_marker = ''backfill''"

definition store_forecast :: "string \<Rightarrow> (string \<times> sql_real list) list \<Rightarrow> forecast list \<Rightarrow> forecast list" where
  "store_forecast now hourly fs =
     insert_forecasts
       (map (\<lambda>(i, (t, vals)). (t, Some (int i), vals)) (enumerate 0 hourly))
       ''best_match'' now fs"

definition store_historical_forecast_chunk :: "(string \<times> sql_real list) list \<Rightarrow> forecast list \<Rightarrow> forecast list" where
  "store_historical_forecast_chunk hourly fs =
     insert_forecasts (map (\<lambda>(t, vals). (t, None, vals)) hourly)
       ''best_match'' backfill_marker fs"

subsection \<open>load_paired_data\<close>

text \<open>
  The common table expression \<^verbatim>\<open>latest_fcst\<close>: the rows with source
  \<^verbatim>\<open>best_match\<close>, partitioned by (valid_time, source), each partition ordered by
  \<^verbatim>\<open>fetched_at DESC\<close> and numbered from 1.
\<close>

definition partition_keys :: "forecast list \<Rightarrow> (string \<times> string) list" where
  "partition_keys fs = remdups (map (\<lambda>f. (valid_time f, source f)) fs)"

definition partition_rows :: "forecast list \<Rightarrow> string \<times> string \<Rightarrow> forecast list" where
  "partition_rows fs k = filter (\<lambda>f. (valid_time f, source f) = k) fs"

definition order_by_fetched_at_desc :: "forecast list \<Rightarrow> forecast list" where
  "order_by_fetched_at_desc fs = rev (sort_key fetched_at fs)"

definition row_number :: "forecast list \<Rightarrow> (forecast \<times> nat) list" where
  "row_number fs = zip fs [1 ..< Suc (length fs)]"

definition latest_fcst :: "forecast list \<Rightarrow> (forecast \<times> nat) list" where
  "latest_fcst fs =
     (let cand = filter (\<lambda>f. source f = ''best_match'') fs
      in concat (map (\<lambda>k. row_number (order_by_fetched_at_desc (partition_rows cand k)))
                     (partition_keys cand)))"

text \<open>
  The main query: observations inner-joined with \<^verbatim>\<open>latest_fcst\<close> on
  \<^verbatim>\<open>f.valid_time = o.time AND f.rn = 1\<close>, ordered by \<^verbatim>\<open>o.time\<close>. The result keeps
  the joined pair; \<^verbatim>\<open>paired_columns\<close> is the SELECT list (the observation's
  \<^verbatim>\<open>surface_pressure\<close>, fifth of its nine values, is not selected).
\<close>

definition paired_join :: "forecast list \<Rightarrow> observation list \<Rightarrow> (observation \<times> forecast) list" where
  "paired_join fs os =
     sort_key (\<lambda>(ob, f). obs_time ob)
       (concat (map (\<lambda>ob. map (\<lambda>(f, rn). (ob, f))
                                (filter (\<lambda>(f, rn). valid_time f = obs_time ob \<and> rn = 1)
                                        (latest_fcst fs)))
                    os))"

record paired_row =
  time :: string
  obs_columns :: "sql_real list"
  fcst_columns :: "sql_real list"
  lead_hours_col :: "int option"

definition paired_columns :: "observation \<times> forecast \<Rightarrow> paired_row" where
  "paired_columns p =
     (case p of (ob, f) \<Rightarrow>
        \<lparr>time = obs_time ob,
         obs_columns = take 4 (obs_values ob) @ drop 5 (obs_values ob),
         fcst_columns = fcst_values f,
         lead_hours_col = lead_hours f\<rparr>)"

definition load_paired_data :: "forecast list \<Rightarrow> observation list \<Rightarrow> paired_row list" where
  "load_paired_data fs os = map paired_columns (paired_join fs os)"

subsection \<open>Live and backfilled issues\<close>

text \<open>
  A live \<^verbatim>\<open>fetched_at\<close> is \<^verbatim>\<open>datetime.now(timezone.utc).isoformat()\<close>, which begins
  with the four digits of the year; the backfill marker begins with a letter.
\<close>

definition is_digit :: "char \<Rightarrow> bool" where
  "is_digit c = (CHR ''0'' \<le> c \<and> c \<le> CHR ''9'')"

definition live_timestamp :: "string \<Rightarrow> bool" where
  "live_timestamp s = (case s of [] \<Rightarrow> False | c # _ \<Rightarrow> is_digit c)"

text \<open>
  A table state reached by one live collection followed by a backfill whose range
  overlaps it, and the two issues it holds for the valid time 2024-06-01T00:00.
\<close>

definition ex_observations :: "observation list" where
  "ex_observations =
     insert_observations
       [\<lparr>obs_time = ''2024-06-01T00:00'', obs_values = [Some 18]\<rparr>,
        \<lparr>obs_time = ''2024-06-01T01:00'', obs_values = [Some 17]\<rparr>] []"

definition ex_forecasts :: "forecast list" where
  "ex_forecasts =
     store_historical_forecast_chunk [(''2024-06-01T00:00'', [Some 19])]
       (store_forecast ''2024-06-01T06:00:00+00:00''
          [(''2024-06-01T00:00'', [Some 20]), (''2024-06-01T01:00'', [Some 21])] [])"

definition ex_live_issue :: forecast where
  "ex_live_issue =
     \<lparr>fetched_at = ''2024-06-01T06:00:00+00:00'', valid_time = ''2024-06-01T00:00'',
      source = ''best_match'', lead_hours = Some 0, fcst_values = [Some 20]\<rparr>"

definition ex_live_next :: forecast where
  "ex_live_next =
     \<lparr>fetched_at = ''2024-06-01T06:00:00+00:00'', valid_time = ''2024-06-01T01:00'',
      source = ''best_match'', lead_hours = Some 1, fcst_values = [Some 21]\<rparr>"

definition ex_backfilled :: forecast where
  "ex_backfilled =
     \<lparr>fetched_at = ''backfill'', valid_time = ''2024-06-01T00:00'',
      source = ''best_match'', lead_hours = None, fcst_values = [Some 19]\<rparr>"

section \<open>Tables of numbers and the numerical toolkit\<close>

text \<open>
  A float64 cell is a \<^typ>\<open>real option\<close>, \<^term>\<open>None\<close> standing for NaN. A pandas
  DataFrame is its index (the parsed timestamps, as integers) and its columns in order,
  each a name with one cell per index entry. A Python dict with string keys is an
  association list: \<^const>\<open>AList.update\<close> is assignment (in place for a key that
  exists, appended otherwise) and \<^const>\<open>map_of\<close> is lookup. Arithmetic is that of
  the reals: the rounding of floats is not modelled, and a prediction is a number.
\<close>

type_synonym cell = "real option"

record frame =
  index :: "int list"
  cols :: "(string \<times> cell list) list"

datatype error =
    KeyError string
  | NotFittedError
  | ValueError
  | FileNotFoundError string
  | SystemExit nat
  | ToolkitError

definition columns :: "frame \<Rightarrow> string list" where
  "columns df = map fst (cols df)"

definition nrows :: "frame \<Rightarrow> nat" where
  "nrows df = length (index df)"

text \<open>\<^verbatim>\<open>df[col]\<close>: the column, or KeyError.\<close>

definition get_col :: "frame \<Rightarrow> string \<Rightarrow> error + cell list" where
  "get_col df c = (case map_of (cols df) c of None \<Rightarrow> Inl (KeyError c) | Some vs \<Rightarrow> Inr vs)"

text \<open>\<^verbatim>\<open>df[col] = v\<close> for a scalar \<open>v\<close>: the column is broadcast over the index.\<close>

definition set_col_scalar :: "frame \<Rightarrow> string \<Rightarrow> real \<Rightarrow> frame" where
  "set_col_scalar df c v = df\<lparr>cols := AList.update c (replicate (nrows df) (Some v)) (cols df)\<rparr>"

text \<open>\<^verbatim>\<open>df[names]\<close> for a list of names: those columns in that order, or KeyError.\<close>

definition select_cols :: "frame \<Rightarrow> string list \<Rightarrow> error + frame" where
  "select_cols df names =
     (case filter (\<lambda>c. c \<notin> set (columns df)) names of
        c # _ \<Rightarrow> Inl (KeyError c)
      | [] \<Rightarrow> Inr \<lparr>index = index df,
                   cols = map (\<lambda>c. (c, the (map_of (cols df) c))) names\<rparr>)"

text \<open>\<^verbatim>\<open>df.iloc[:k]\<close> and \<^verbatim>\<open>df.iloc[k:]\<close>.\<close>

definition iloc_to :: "nat \<Rightarrow> frame \<Rightarrow> frame" where
  "iloc_to k df = \<lparr>index = take k (index df), cols = map (\<lambda>(c, vs). (c, take k vs)) (cols df)\<rparr>"

definition iloc_from :: "nat \<Rightarrow> frame \<Rightarrow> frame" where
  "iloc_from k df = \<lparr>index = drop k (index df), cols = map (\<lambda>(c, vs). (c, drop k vs)) (cols df)\<rparr>"

text \<open>Rows by position; \<^verbatim>\<open>df[mask]\<close> for a boolean mask; \<^verbatim>\<open>df.loc[labels]\<close>.\<close>

definition take_rows :: "nat list \<Rightarrow> frame \<Rightarrow> frame" where
  "take_rows ps df =
     \<lparr>index = map (\<lambda>i. index df ! i) ps,
      cols = map (\<lambda>(c, vs). (c, map (\<lambda>i. vs ! i) ps)) (cols df)\<rparr>"

definition mask_positions :: "bool list \<Rightarrow> nat list" where
  "mask_positions bs = filter (\<lambda>i. bs ! i) [0 ..< length bs]"

definition mask_rows :: "bool list \<Rightarrow> frame \<Rightarrow> frame" where
  "mask_rows bs df = take_rows (mask_positions bs) df"

definition label_positions :: "int list \<Rightarrow> int \<Rightarrow> nat list" where
  "label_positions idx t = filter (\<lambda>i. idx ! i = t) [0 ..< length idx]"

definition loc_rows :: "int list \<Rightarrow> frame \<Rightarrow> frame" where
  "loc_rows labels df = take_rows (concat (map (label_positions (index df)) labels)) df"

definition rows_of :: "frame \<Rightarrow> cell list list" where
  "rows_of df = map (\<lambda>i. map (\<lambda>(c, vs). vs ! i) (cols df)) [0 ..< nrows df]"

text \<open>
  A series is a column with its index. \<^verbatim>\<open>dropna\<close> removes the NaN entries;
  \<^verbatim>\<open>Index.intersection\<close> keeps the distinct labels of the left index found in the
  right one, in the order of the left.
\<close>

type_synonym series = "(int \<times> cell) list"

definition get_series :: "frame \<Rightarrow> string \<Rightarrow> error + series" where
  "get_series df c = (case get_col df c of Inl e \<Rightarrow> Inl e | Inr vs \<Rightarrow> Inr (zip (index df) vs))"

definition dropna :: "series \<Rightarrow> series" where
  "dropna s = filter (\<lambda>(t, v). v \<noteq> None) s"

definition unique :: "int list \<Rightarrow> int list" where
  "unique xs = rev (remdups (rev xs))"

definition intersection :: "int list \<Rightarrow> int list \<Rightarrow> int list" where
  "intersection a b = filter (\<lambda>t. t \<in> set b) (unique a)"

definition series_loc :: "int list \<Rightarrow> series \<Rightarrow> cell list" where
  "series_loc labels s = concat (map (\<lambda>t. map snd (filter (\<lambda>(u, v). u = t) s)) labels)"

subsection \<open>Fitted estimators\<close>

text \<open>
  The gradient-boosting toolkit is external. A fitted LightGBM estimator is the list of
  feature names it was fitted on (the attribute \<^verbatim>\<open>feature_name_\<close>: the columns of the
  training frame)
  and the function its trees compute on one row. \<^verbatim>\<open>predict\<close> raises when the frame has
  another number of columns than the estimator was fitted on, and when the frame has no
  row. An estimator that was
  constructed and never fitted is \<^term>\<open>None\<close>; its \<^verbatim>\<open>predict\<close> raises NotFittedError.
\<close>

record lgbm =
  feature_name :: "string list"
  raw_predict :: "cell list \<Rightarrow> real"

definition lgbm_predict :: "lgbm \<Rightarrow> frame \<Rightarrow> error + real list" where
  "lgbm_predict m X =
     (if nrows X = 0 \<or> length (columns X) \<noteq> length (feature_name m) then Inl ValueError
      else Inr (map (raw_predict m) (rows_of X)))"

definition estimator_predict :: "lgbm option \<Rightarrow> frame \<Rightarrow> error + real list" where
  "estimator_predict m X =
     (case m of None \<Rightarrow> Inl NotFittedError | Some g \<Rightarrow> lgbm_predict g X)"

text \<open>
  \<^verbatim>\<open>predict_proba(X)[:, 1]\<close> of a classifier with the \<^verbatim>\<open>binary\<close> objective: the
  logistic function of the raw score.
\<close>

definition sigmoid :: "real \<Rightarrow> real" where
  "sigmoid x = 1 / (1 + exp (- x))"

definition predict_proba1 :: "lgbm option \<Rightarrow> frame \<Rightarrow> error + real list" where
  "predict_proba1 m X =
     (case estimator_predict m X of Inl e \<Rightarrow> Inl e | Inr raw \<Rightarrow> Inr (map sigmoid raw))"

text \<open>
  The calibrator is always built as
  \<^verbatim>\<open>IsotonicRegression(y_min=0, y_max=1, out_of_bounds="clip")\<close>: whatever
  step function the fit finds, its values are bounded by \<^verbatim>\<open>y_min\<close> and \<^verbatim>\<open>y_max\<close>.
\<close>

record isotonic =
  iso_fn :: "real \<Rightarrow> real"

definition isotonic_predict :: "isotonic \<Rightarrow> real list \<Rightarrow> real list" where
  "isotonic_predict c ps = map (\<lambda>p. min 1 (max 0 (iso_fn c p))) ps"

text \<open>
  The fitting capabilities, as parameters: \<^verbatim>\<open>LGBMRegressor(**params).fit\<close> and
  \<^verbatim>\<open>LGBMClassifier(**params).fit\<close> (objective, whether the early-stopping callback is
  passed, training frame, labels, optional evaluation set),
  \<^verbatim>\<open>IsotonicRegression.fit\<close>, and the two score functions of scikit-learn. Each of them
  can raise: its result is then \<^term>\<open>None\<close>, and the caller fails with
  \<^term>\<open>ToolkitError\<close>, which stands for whatever exception the toolkit raised. The
  estimator that a fit returns carries the training frame's column names.

  Three failures of \<^verbatim>\<open>fit\<close> do not depend on the data's values and are part of the
  model: early stopping asked for without an evaluation set, an evaluation set without
  rows, and, for the classifier, a label in the evaluation set that the training labels
  do not contain.
\<close>

datatype objective = Regression | Binary | Tweedie | Quantile real

record toolkit =
  fit_trees :: "objective \<Rightarrow> bool \<Rightarrow> frame \<Rightarrow> cell list \<Rightarrow> (frame \<times> cell list) option \<Rightarrow>
                (cell list \<Rightarrow> real) option"
  fit_isotonic :: "real list \<Rightarrow> cell list \<Rightarrow> (real \<Rightarrow> real) option"
  brier_score_loss :: "cell list \<Rightarrow> real list \<Rightarrow> real option"
  roc_auc_score :: "cell list \<Rightarrow> real list \<Rightarrow> real option"

definition eval_set_refused ::
  "objective \<Rightarrow> bool \<Rightarrow> cell list \<Rightarrow> (frame \<times> cell list) option \<Rightarrow> bool" where
  "eval_set_refused obj early_stopping y eval_set =
     (case eval_set of
        None \<Rightarrow> early_stopping
      | Some (X_eval, y_eval) \<Rightarrow>
          nrows X_eval = 0 \<or> (obj = Binary \<and> \<not> set y_eval \<subseteq> set y))"

definition lgbm_fit ::
  "toolkit \<Rightarrow> objective \<Rightarrow> bool \<Rightarrow> frame \<Rightarrow> cell list \<Rightarrow> (frame \<times> cell list) option \<Rightarrow>
   error + lgbm" where
  "lgbm_fit tk obj early_stopping X y eval_set =
     (if eval_set_refused obj early_stopping y eval_set then Inl ToolkitError
      else
        (case fit_trees tk obj early_stopping X y eval_set of
           None \<Rightarrow> Inl ToolkitError
         | Some f \<Rightarrow> Inr \<lparr>feature_name = columns X, raw_predict = f\<rparr>))"

definition isotonic_fit :: "toolkit \<Rightarrow> real list \<Rightarrow> cell list \<Rightarrow> error + isotonic" where
  "isotonic_fit tk ps ys =
     (case fit_isotonic tk ps ys of None \<Rightarrow> Inl ToolkitError | Some f \<Rightarrow> Inr \<lparr>iso_fn = f\<rparr>)"

definition score :: "real option \<Rightarrow> error + real" where
  "score r = (case r of None \<Rightarrow> Inl ToolkitError | Some v \<Rightarrow> Inr v)"

text \<open>
  A loop of quantile fits on one training set, without evaluation set and without
  callbacks: each fitted model is stored under its alpha.
\<close>

fun fit_quantiles ::
  "toolkit \<Rightarrow> frame \<Rightarrow> cell list \<Rightarrow> (real \<times> lgbm) list \<Rightarrow> real list \<Rightarrow>
   error + (real \<times> lgbm) list"
where
  "fit_quantiles tk X y qm [] = Inr qm"
| "fit_quantiles tk X y qm (alpha # rest) =
     (case lgbm_fit tk (Quantile alpha) False X y None of
        Inl e \<Rightarrow> Inl e
      | Inr qmodel \<Rightarrow> fit_quantiles tk X y (AList.update alpha qmodel qm) rest)"
section \<open>WeatherPredictor (models.py)\<close>

text \<open>
  The two dicts of the class: \<^verbatim>\<open>models\<close>, from target name to fitted regressor, and
  \<^verbatim>\<open>quantile_models\<close>, from target name to a dict from \<open>alpha\<close> to fitted quantile
  regressor. What the program prints is a list of messages.
\<close>

record weather_predictor =
  models :: "(string \<times> lgbm) list"
  quantile_models :: "(string \<times> (real \<times> lgbm) list) list"

type_synonym results = "(string \<times> real list) list"

datatype message =
    OnlyPairedRows nat
  | LoadedPairedRows nat
  | FeatureCount nat
  | RowsAfterDrop nat
  | TrainRows nat
  | ValRows nat
  | Saved string
  | SkippingTarget string nat
  | ValMAE string cell
  | PrecipClassification real real
  | LeadTimeSummary nat nat cell cell
  | MissingFeatures nat "string list"
  | WroteHours nat

definition weather_init :: weather_predictor where
  "weather_init = \<lparr>models = [], quantile_models = []\<rparr>"

definition targets :: "string list" where
  "targets = [''temperature'', ''humidity'', ''wind_speed'', ''wind_direction'']"

definition target_to_obs_col :: "(string \<times> string) list" where
  "target_to_obs_col =
     [(''temperature'', ''obs_temp''), (''humidity'', ''obs_humidity''),
      (''wind_speed'', ''obs_wind_speed''), (''wind_direction'', ''obs_wind_dir'')]"

text \<open>\<^verbatim>\<open>np.mean(np.abs(preds - y))\<close>: NaN on empty input or on a NaN entry.\<close>

definition mean_abs_error :: "cell list \<Rightarrow> cell list \<Rightarrow> cell" where
  "mean_abs_error ps ys =
     (if ps = [] \<or> None \<in> set ps \<or> None \<in> set ys then None
      else Some (sum_list (map2 (\<lambda>p y. \<bar>the p - the y\<bar>) ps ys) / real (length ps)))"

text \<open>
  One pass of the loop of \<^verbatim>\<open>train\<close> over \<^verbatim>\<open>self.targets\<close>. The state is the
  predictor, the scores and the printed lines. A target is left out when its observation
  column is absent, and when fewer than 100 labelled rows are common to labels and
  features.
\<close>

definition train_target ::
  "toolkit \<Rightarrow> frame \<Rightarrow> frame \<Rightarrow> frame \<Rightarrow> frame \<Rightarrow>
   weather_predictor \<times> (string \<times> cell) list \<times> message list \<Rightarrow> string \<Rightarrow>
   error + weather_predictor \<times> (string \<times> cell) list \<times> message list"
where
  "train_target tk X_train y_train X_val y_val st target =
     (case st of (wp, scores, out) \<Rightarrow>
       (case map_of target_to_obs_col target of
          None \<Rightarrow> Inl (KeyError target)
        | Some obs_col \<Rightarrow>
            (if obs_col \<notin> set (columns y_train) then Inr (wp, scores, out)
             else
               (case get_series y_train obs_col of
                  Inl e \<Rightarrow> Inl e
                | Inr yt0 \<Rightarrow>
                    (let yt = dropna yt0;
                         common = intersection (map fst yt) (index X_train)
                     in if length common < 100
                        then Inr (wp, scores, out @ [SkippingTarget target (length common)])
                        else
                          (case get_series y_val obs_col of
                             Inl e \<Rightarrow> Inl e
                           | Inr yv0 \<Rightarrow>
                               (let yv = dropna yv0;
                                    val_common = intersection (map fst yv) (index X_val)
                                in (case lgbm_fit tk Regression True
                                           (loc_rows common X_train) (series_loc common yt)
                                           (Some (loc_rows val_common X_val,
                                                  series_loc val_common yv)) of
                                      Inl e \<Rightarrow> Inl e
                                    | Inr model \<Rightarrow>
                                        (case lgbm_predict model (loc_rows val_common X_val) of
                                           Inl e \<Rightarrow> Inl e
                                         | Inr preds \<Rightarrow>
                                             (let mae = mean_abs_error (map Some preds)
                                                          (series_loc val_common yv)
                                              in (case fit_quantiles tk
                                                         (loc_rows common X_train)
                                                         (series_loc common yt) []
                                                         [1 / 10, 9 / 10] of
                                                    Inl e \<Rightarrow> Inl e
                                                  | Inr qs \<Rightarrow>
                                                      Inr (wp\<lparr>models :=
                                                                AList.update target model (models wp),
                                                              quantile_models :=
                                                                AList.update target qs
                                                                  (quantile_models wp)\<rparr>,
                                                           AList.update target mae scores,
                                                           out @ [ValMAE target mae]))))))))))))"

fun train_targets ::
  "toolkit \<Rightarrow> frame \<Rightarrow> frame \<Rightarrow> frame \<Rightarrow> frame \<Rightarrow>
   weather_predictor \<times> (string \<times> cell) list \<times> message list \<Rightarrow> string list \<Rightarrow>
   error + weather_predictor \<times> (string \<times> cell) list \<times> message list"
where
  "train_targets tk X_train y_train X_val y_val st [] = Inr st"
| "train_targets tk X_train y_train X_val y_val st (target # rest) =
     (case train_target tk X_train y_train X_val y_val st target of
        Inl e \<Rightarrow> Inl e
      | Inr st' \<Rightarrow> train_targets tk X_train y_train X_val y_val st' rest)"

definition weather_train ::
  "toolkit \<Rightarrow> weather_predictor \<Rightarrow> frame \<Rightarrow> frame \<Rightarrow> frame \<Rightarrow> frame \<Rightarrow>
   error + weather_predictor \<times> (string \<times> cell) list \<times> message list"
where
  "weather_train tk wp X_train y_train X_val y_val =
     train_targets tk X_train y_train X_val y_val (wp, [], []) targets"

text \<open>
  \<^verbatim>\<open>predict\<close>: the loop over \<^verbatim>\<open>self.models.items()\<close>, then the physical
  constraints, \<^verbatim>\<open>np.clip(results["humidity"], 0, 100)\<close> and
  \<^verbatim>\<open>np.maximum(results["wind_speed"], 0)\<close>.
\<close>

fun predict_loop ::
  "(string \<times> (real \<times> lgbm) list) list \<Rightarrow> frame \<Rightarrow> (string \<times> lgbm) list \<Rightarrow> results \<Rightarrow>
   error + results"
where
  "predict_loop qms X [] res = Inr res"
| "predict_loop qms X ((target, model) # rest) res =
     (case lgbm_predict model X of
        Inl e \<Rightarrow> Inl e
      | Inr p \<Rightarrow>
          (case map_of qms target of
             None \<Rightarrow> predict_loop qms X rest (AList.update target p res)
           | Some qs \<Rightarrow>
               (case map_of qs (1 / 10) of
                  None \<Rightarrow> Inl (KeyError ''0.1'')
                | Some q10 \<Rightarrow>
                    (case lgbm_predict q10 X of
                       Inl e \<Rightarrow> Inl e
                     | Inr p10 \<Rightarrow>
                         (case map_of qs (9 / 10) of
                            None \<Rightarrow> Inl (KeyError ''0.9'')
                          | Some q90 \<Rightarrow>
                              (case lgbm_predict q90 X of
                                 Inl e \<Rightarrow> Inl e
                               | Inr p90 \<Rightarrow>
                                   predict_loop qms X rest
                                     (AList.update (target @ ''_q90'') p90
                                        (AList.update (target @ ''_q10'') p10
                                           (AList.update target p res)))))))))"

definition clip :: "real \<Rightarrow> real \<Rightarrow> real \<Rightarrow> real" where
  "clip lo hi v = min (max v lo) hi"

definition physical_constraints :: "results \<Rightarrow> results" where
  "physical_constraints res =
     (let r1 = (case map_of res ''humidity'' of
                  Some h \<Rightarrow> AList.update ''humidity'' (map (clip 0 100) h) res
                | None \<Rightarrow> res)
      in (case map_of r1 ''wind_speed'' of
            Some w \<Rightarrow> AList.update ''wind_speed'' (map (\<lambda>v. max v 0) w) r1
          | None \<Rightarrow> r1))"

definition weather_predict :: "weather_predictor \<Rightarrow> frame \<Rightarrow> error + results" where
  "weather_predict wp X =
     (case predict_loop (quantile_models wp) X (models wp) [] of
        Inl e \<Rightarrow> Inl e
      | Inr res \<Rightarrow> Inr (physical_constraints res))"

text \<open>
  A one-row feature frame, estimators that return one value whatever the row, and a
  predictor whose humidity and wind-speed models (point and 10/90 quantile) return values
  outside the physical ranges.
\<close>

definition ex_X :: frame where
  "ex_X = \<lparr>index = [0], cols = [(''fcst_temp'', [Some 20])]\<rparr>"

definition const_model :: "real \<Rightarrow> lgbm" where
  "const_model v = \<lparr>feature_name = [''fcst_temp''], raw_predict = (\<lambda>row. v)\<rparr>"

definition ex_weather :: weather_predictor where
  "ex_weather =
     \<lparr>models = [(''humidity'', const_model 150), (''wind_speed'', const_model (- 3))],
      quantile_models =
        [(''humidity'', [(1 / 10, const_model (- 5)), (9 / 10, const_model 120)]),
         (''wind_speed'', [(1 / 10, const_model (- 2)), (9 / 10, const_model 4)])]\<rparr>"

definition ex_weather_results :: results where
  "ex_weather_results =
     [(''humidity'', [100]), (''humidity_q10'', [- 5]), (''humidity_q90'', [120]),
      (''wind_speed'', [0]), (''wind_speed_q10'', [- 2]), (''wind_speed_q90'', [4])]"

section \<open>PrecipitationPredictor (models.py)\<close>

text \<open>
  The constructor builds an unfitted classifier and an unfitted regressor, no quantile
  model and no calibrator.
\<close>

record precipitation_predictor =
  classifier :: "lgbm option"
  regressor :: "lgbm option"
  pp_quantile_models :: "(real \<times> lgbm) list"
  calibrator :: "isotonic option"

definition precip_init :: precipitation_predictor where
  "precip_init = \<lparr>classifier = None, regressor = None, pp_quantile_models = [], calibrator = None\<rparr>"

definition PRECIP_THRESHOLD_MM :: real where
  "PRECIP_THRESHOLD_MM = 1 / 10"

text \<open>\<^verbatim>\<open>y >= PRECIP_THRESHOLD_MM\<close> on one label (false on NaN), and its cast to int.\<close>

definition is_rain :: "cell \<Rightarrow> bool" where
  "is_rain y = (case y of None \<Rightarrow> False | Some v \<Rightarrow> PRECIP_THRESHOLD_MM \<le> v)"

definition rain_label :: "cell \<Rightarrow> cell" where
  "rain_label y = Some (if is_rain y then 1 else 0)"

definition mask_list :: "bool list \<Rightarrow> 'a list \<Rightarrow> 'a list" where
  "mask_list bs xs = map (\<lambda>i. xs ! i) (mask_positions bs)"

definition mask_sum :: "bool list \<Rightarrow> nat" where
  "mask_sum bs = length (filter (\<lambda>b. b) bs)"

definition precip_alphas :: "real list" where
  "precip_alphas = [1 / 10, 1 / 4, 1 / 2, 3 / 4, 9 / 10]"

text \<open>
  \<^verbatim>\<open>train\<close>. Stage 1 fits the classifier and the calibrator. Stage 2, the regressor and
  the five quantile models, is fitted on the rows of the rain mask, under the guard
  \<^verbatim>\<open>rain_mask_train.sum() > 100\<close>; the regressor is given an evaluation set only when
  the validation rows hold more than 10 rain rows.
\<close>

definition precip_stage2 ::
  "toolkit \<Rightarrow> precipitation_predictor \<Rightarrow> frame \<Rightarrow> cell list \<Rightarrow> frame \<Rightarrow> cell list \<Rightarrow>
   error + precipitation_predictor"
where
  "precip_stage2 tk pp X_train y_train_precip X_val y_val_precip =
     (let rain_mask_train = map is_rain y_train_precip;
          rain_mask_val = map is_rain y_val_precip
      in if mask_sum rain_mask_train > 100
         then
           (case lgbm_fit tk Tweedie True
                   (mask_rows rain_mask_train X_train)
                   (mask_list rain_mask_train y_train_precip)
                   (if mask_sum rain_mask_val > 10
                    then Some (mask_rows rain_mask_val X_val,
                               mask_list rain_mask_val y_val_precip)
                    else None) of
              Inl e \<Rightarrow> Inl e
            | Inr reg \<Rightarrow>
                (case fit_quantiles tk
                        (mask_rows rain_mask_train X_train)
                        (mask_list rain_mask_train y_train_precip)
                        (pp_quantile_models pp) precip_alphas of
                   Inl e \<Rightarrow> Inl e
                 | Inr qm \<Rightarrow> Inr (pp\<lparr>regressor := Some reg, pp_quantile_models := qm\<rparr>)))
         else Inr pp)"

definition precip_train ::
  "toolkit \<Rightarrow> precipitation_predictor \<Rightarrow> frame \<Rightarrow> cell list \<Rightarrow> frame \<Rightarrow> cell list \<Rightarrow>
   error + precipitation_predictor \<times> (string \<times> real) list \<times> message list"
where
  "precip_train tk pp X_train y_train_precip X_val y_val_precip =
     (let y_binary_train = map rain_label y_train_precip;
          y_binary_val = map rain_label y_val_precip
      in (case lgbm_fit tk Binary True X_train y_binary_train (Some (X_val, y_binary_val)) of
            Inl e \<Rightarrow> Inl e
          | Inr clf \<Rightarrow>
              (case predict_proba1 (Some clf) X_val of
                 Inl e \<Rightarrow> Inl e
               | Inr raw_probs \<Rightarrow>
                   (case isotonic_fit tk raw_probs y_binary_val of
                      Inl e \<Rightarrow> Inl e
                    | Inr cal \<Rightarrow>
                        (case precip_stage2 tk (pp\<lparr>classifier := Some clf, calibrator := Some cal\<rparr>)
                                X_train y_train_precip X_val y_val_precip of
                           Inl e \<Rightarrow> Inl e
                         | Inr pp2 \<Rightarrow>
                             (let cal_probs = isotonic_predict cal raw_probs
                              in (case score (brier_score_loss tk y_binary_val cal_probs) of
                                    Inl e \<Rightarrow> Inl e
                                  | Inr brier \<Rightarrow>
                                      (case score (roc_auc_score tk y_binary_val cal_probs) of
                                         Inl e \<Rightarrow> Inl e
                                       | Inr auc \<Rightarrow>
                                           Inr (pp2, [(''brier'', brier), (''auc'', auc)],
                                                [PrecipClassification brier auc])))))))))"

text \<open>
  The key \<^verbatim>\<open>f"precip_q{int(alpha*100):02d}_mm"\<close>: \<^verbatim>\<open>int\<close> truncates towards zero
  and \<^verbatim>\<open>02d\<close> pads with zeros to two characters, the sign included. The product
  \<^verbatim>\<open>alpha*100\<close> is taken over the reals here. Python takes it in binary floating point:
  for the five alphas of \<^verbatim>\<open>train\<close> the digits are the same, for other alphas the float
  product can fall just below the integer (0.29 gives 28), so the digits of a key are
  used below only for the alphas of \<^verbatim>\<open>train\<close>.
\<close>

definition digit_char :: "nat \<Rightarrow> char" where
  "digit_char n = ''0123456789'' ! n"

fun dec :: "nat \<Rightarrow> string" where
  "dec n = (if n < 10 then [digit_char n] else dec (n div 10) @ [digit_char (n mod 10)])"

definition py_int :: "real \<Rightarrow> int" where
  "py_int x = (if 0 \<le> x then \<lfloor>x\<rfloor> else \<lceil>x\<rceil>)"

definition format_02d :: "int \<Rightarrow> string" where
  "format_02d n =
     (if n < 0 then ''-'' @ dec (nat (- n))
      else if n < 10 then ''0'' @ dec (nat n) else dec (nat n))"

definition quantile_key :: "real \<Rightarrow> string" where
  "quantile_key alpha = ''precip_q'' @ format_02d (py_int (alpha * 100)) @ ''_mm''"

text \<open>
  \<^verbatim>\<open>predict\<close>. The probability is the calibrator's when there is one; the amount is
  the regressor's prediction floored at zero; every quantile model's prediction is
  floored at zero and multiplied by the probability.
\<close>

fun quantile_loop :: "frame \<Rightarrow> real list \<Rightarrow> (real \<times> lgbm) list \<Rightarrow> results \<Rightarrow> error + results" where
  "quantile_loop X prob [] res = Inr res"
| "quantile_loop X prob ((alpha, qmodel) # rest) res =
     (case lgbm_predict qmodel X of
        Inl e \<Rightarrow> Inl e
      | Inr qp \<Rightarrow>
          quantile_loop X prob rest
            (AList.update (quantile_key alpha)
               (map2 (\<lambda>q p. q * p) (map (\<lambda>v. max v 0) qp) prob) res))"

definition precip_predict :: "precipitation_predictor \<Rightarrow> frame \<Rightarrow> error + results" where
  "precip_predict pp X =
     (case predict_proba1 (classifier pp) X of
        Inl e \<Rightarrow> Inl e
      | Inr raw_probs \<Rightarrow>
          (let prob = (case calibrator pp of
                         Some c \<Rightarrow> isotonic_predict c raw_probs
                       | None \<Rightarrow> raw_probs)
           in (case estimator_predict (regressor pp) X of
                 Inl e \<Rightarrow> Inl e
               | Inr raw_amount0 \<Rightarrow>
                   (let raw_amount = map (\<lambda>v. max v 0) raw_amount0;
                        res = [(''precip_probability'', prob),
                               (''precip_expected_mm'', map2 (\<lambda>p a. p * a) prob raw_amount),
                               (''precip_if_rain_mm'', raw_amount)]
                    in quantile_loop X prob (pp_quantile_models pp) res))))"

text \<open>
  A toolkit whose fits return constant estimators and the identity calibration, and a
  fitted precipitation predictor: raw score 0 (probability one half), amount 4, and two
  quantile models, of which the lower predicts a negative amount.
\<close>

definition ex_toolkit :: toolkit where
  "ex_toolkit =
     \<lparr>fit_trees = (\<lambda>obj early_stopping X y eval_set. Some (\<lambda>row. 0)),
      fit_isotonic = (\<lambda>ps ys. Some (\<lambda>p. p)),
      brier_score_loss = (\<lambda>ys ps. Some 0),
      roc_auc_score = (\<lambda>ys ps. Some 0)\<rparr>"

definition ex_precip :: precipitation_predictor where
  "ex_precip =
     \<lparr>classifier = Some (const_model 0),
      regressor = Some (const_model 4),
      pp_quantile_models = [(1 / 10, const_model (- 1)), (9 / 10, const_model 6)],
      calibrator = Some \<lparr>iso_fn = (\<lambda>p. p)\<rparr>\<rparr>"

definition ex_precip_results :: results where
  "ex_precip_results =
     [(''precip_probability'', [1 / 2]), (''precip_expected_mm'', [2]),
      (''precip_if_rain_mm'', [4]), (''precip_q10_mm'', [0]), (''precip_q90_mm'', [3])]"

text \<open>A training frame of 100 rows, and 100 labels of 1 mm.\<close>

definition ex_X100 :: frame where
  "ex_X100 = \<lparr>index = map int [0 ..< 100], cols = [(''fcst_temp'', replicate 100 (Some 20))]\<rparr>"

definition ex_y100 :: "cell list" where
  "ex_y100 = replicate 100 (Some 1)"

text \<open>The predictor that training leaves when stage 2 is skipped.\<close>

definition ex_skipped :: precipitation_predictor where
  "ex_skipped =
     \<lparr>classifier = Some (const_model 0), regressor = None, pp_quantile_models = [],
      calibrator = Some \<lparr>iso_fn = (\<lambda>p. p)\<rparr>\<rparr>"


text \<open>
  A training frame of 101 rows whose labels hold exactly 100 rain rows (1 mm) and one
  dry row, and a validation frame of two rows, one of each class.
\<close>

definition ex_X101 :: frame where
  "ex_X101 =
     \<lparr>index = map int [0 ..< 101],
      cols = [(''fcst_temp'', map (\<lambda>i. Some (real i)) [0 ..< 101])]\<rparr>"

definition ex_y101 :: "cell list" where
  "ex_y101 = replicate 100 (Some 1) @ [Some 0]"

definition ex_X_val :: frame where
  "ex_X_val = \<lparr>index = [101, 102], cols = [(''fcst_temp'', [Some 18, Some 25])]\<rparr>"

definition ex_y_val :: "cell list" where
  "ex_y_val = [Some 1, Some 0]"
section \<open>Persistence of the two bundles\<close>

text \<open>
  \<^verbatim>\<open>save\<close> dumps a dict with joblib: \<^verbatim>\<open>models\<close> and \<^verbatim>\<open>quantile_models\<close> for the
  weather predictor; \<^verbatim>\<open>classifier\<close>, \<^verbatim>\<open>regressor\<close>, \<^verbatim>\<open>calibrator\<close> and
  \<^verbatim>\<open>quantile_models\<close> for the precipitation predictor. The file system is a map from
  paths to dumped dicts. \<^verbatim>\<open>load\<close> raises when the file does not exist, and KeyError
  when the dict lacks the first key it reads.
\<close>

datatype artifact =
    WeatherArtifact "(string \<times> lgbm) list" "(string \<times> (real \<times> lgbm) list) list"
  | PrecipArtifact "lgbm option" "lgbm option" "isotonic option" "(real \<times> lgbm) list"

type_synonym files = "string \<Rightarrow> artifact option"

definition MODEL_PATH :: string where
  "MODEL_PATH = ''models/weather_model.pkl''"

definition PRECIP_MODEL_PATH :: string where
  "PRECIP_MODEL_PATH = ''models/precip_model.pkl''"

definition weather_save :: "weather_predictor \<Rightarrow> string \<Rightarrow> files \<Rightarrow> files" where
  "weather_save wp path fs = fs(path \<mapsto> WeatherArtifact (models wp) (quantile_models wp))"

definition weather_load :: "string \<Rightarrow> files \<Rightarrow> error + weather_predictor" where
  "weather_load path fs =
     (case fs path of
        None \<Rightarrow> Inl (FileNotFoundError path)
      | Some (WeatherArtifact m q) \<Rightarrow> Inr \<lparr>models = m, quantile_models = q\<rparr>
      | Some (PrecipArtifact c r cal q) \<Rightarrow> Inl (KeyError ''models''))"

definition precip_save :: "precipitation_predictor \<Rightarrow> string \<Rightarrow> files \<Rightarrow> files" where
  "precip_save pp path fs =
     fs(path \<mapsto> PrecipArtifact (classifier pp) (regressor pp) (calibrator pp) (pp_quantile_models pp))"

definition precip_load :: "string \<Rightarrow> files \<Rightarrow> error + precipitation_predictor" where
  "precip_load path fs =
     (case fs path of
        None \<Rightarrow> Inl (FileNotFoundError path)
      | Some (PrecipArtifact c r cal q) \<Rightarrow>
          Inr \<lparr>classifier = c, regressor = r, pp_quantile_models = q, calibrator = cal\<rparr>
      | Some (WeatherArtifact m q) \<Rightarrow> Inl (KeyError ''classifier''))"

text \<open>
  Every list of feature names that a dumped dict holds: the dict has no entry for such a
  list, so these are the lists inside its fitted estimators.
\<close>

definition stored_feature_lists :: "artifact \<Rightarrow> string list list" where
  "stored_feature_lists a =
     (case a of
        WeatherArtifact m q \<Rightarrow>
          map (\<lambda>(t, g). feature_name g) m @
          concat (map (\<lambda>(t, qs). map (\<lambda>(alpha, g). feature_name g) qs) q)
      | PrecipArtifact c r cal q \<Rightarrow>
          map feature_name (case c of None \<Rightarrow> [] | Some g \<Rightarrow> [g]) @
          map feature_name (case r of None \<Rightarrow> [] | Some g \<Rightarrow> [g]) @
          map (\<lambda>(alpha, g). feature_name g) q)"

section \<open>The training run (train.py)\<close>

text \<open>
  Feature engineering (features.py) is a parameter of the run: the table that
  \<^verbatim>\<open>build_feature_set\<close> returns and the list that \<^verbatim>\<open>get_feature_columns\<close> returns
  for it. What is proved of the run holds whatever these two compute.
\<close>

record pipeline =
  build_feature_set :: "frame \<Rightarrow> frame"
  get_feature_columns :: "frame \<Rightarrow> string list"

text \<open>
  \<^verbatim>\<open>df.dropna(subset=cols, thresh=k)\<close> keeps the rows with at least \<open>k\<close> values
  that are not NaN in the columns of the subset.
\<close>

definition dropna_thresh :: "string list \<Rightarrow> nat \<Rightarrow> frame \<Rightarrow> error + frame" where
  "dropna_thresh names thresh df =
     (case filter (\<lambda>c. c \<notin> set (columns df)) names of
        c # _ \<Rightarrow> Inl (KeyError c)
      | [] \<Rightarrow>
          Inr (take_rows
                 (filter (\<lambda>i. thresh \<le> length (filter (\<lambda>c. the (map_of (cols df) c) ! i \<noteq> None) names))
                         [0 ..< nrows df])
                 df))"

text \<open>
  \<^verbatim>\<open>split_idx = int(len(df) * 0.8)\<close>, then the two positional slices. The float
  nearest to 0.8 exceeds it by less than one part in \<open>2\<^sup>5\<^sup>3\<close>, so for every table
  that fits in memory the float product truncates to the same integer as the exact one.
\<close>

definition split_idx :: "nat \<Rightarrow> nat" where
  "split_idx n = nat (py_int (real n * (8 / 10)))"

definition chronological_split :: "frame \<Rightarrow> frame \<times> frame" where
  "chronological_split df = (iloc_to (split_idx (nrows df)) df, iloc_from (split_idx (nrows df)) df)"

definition starts_with :: "string \<Rightarrow> string \<Rightarrow> bool" where
  "starts_with p s = (take (length p) s = p)"

text \<open>The weather predictor is trained on the feature columns against the \<^verbatim>\<open>obs_\<close> columns.\<close>

definition train_weather_stage ::
  "toolkit \<Rightarrow> string list \<Rightarrow> frame \<Rightarrow> frame \<Rightarrow>
   error + frame \<times> frame \<times> weather_predictor \<times> message list"
where
  "train_weather_stage tk feature_cols train_df val_df =
     (case select_cols train_df feature_cols of
        Inl e \<Rightarrow> Inl e
      | Inr X_train \<Rightarrow>
          (case select_cols val_df feature_cols of
             Inl e \<Rightarrow> Inl e
           | Inr X_val \<Rightarrow>
               (let obs_cols = filter (starts_with ''obs_'') (columns train_df)
                in (case select_cols train_df obs_cols of
                      Inl e \<Rightarrow> Inl e
                    | Inr y_train \<Rightarrow>
                        (case select_cols val_df obs_cols of
                           Inl e \<Rightarrow> Inl e
                         | Inr y_val \<Rightarrow>
                             (case weather_train tk weather_init X_train y_train X_val y_val of
                                Inl e \<Rightarrow> Inl e
                              | Inr (wp, scores, out) \<Rightarrow> Inr (X_train, X_val, wp, out)))))))"

text \<open>The precipitation predictor is trained on the rows whose \<^verbatim>\<open>obs_precip\<close> is not NaN.\<close>

definition train_precip_stage ::
  "toolkit \<Rightarrow> frame \<Rightarrow> frame \<Rightarrow> frame \<Rightarrow> frame \<Rightarrow> error + precipitation_predictor \<times> message list"
where
  "train_precip_stage tk X_train X_val train_df val_df =
     (case get_series train_df ''obs_precip'' of
        Inl e \<Rightarrow> Inl e
      | Inr s_train \<Rightarrow>
          (case get_series val_df ''obs_precip'' of
             Inl e \<Rightarrow> Inl e
           | Inr s_val \<Rightarrow>
               (let precip_train_s = dropna s_train;
                    precip_val_s = dropna s_val;
                    common_train = intersection (map fst precip_train_s) (index X_train);
                    common_val = intersection (map fst precip_val_s) (index X_val)
                in (case precip_train tk precip_init
                          (loc_rows common_train X_train) (series_loc common_train precip_train_s)
                          (loc_rows common_val X_val) (series_loc common_val precip_val_s) of
                      Inl e \<Rightarrow> Inl e
                    | Inr (pp, scores, out) \<Rightarrow> Inr (pp, out)))))"

text \<open>The summary by lead time, on the weather bundle loaded back from its file.\<close>

fun lead_loop :: "results \<Rightarrow> frame \<Rightarrow> nat list \<Rightarrow> message list \<Rightarrow> error + message list" where
  "lead_loop preds val_df [] out = Inr out"
| "lead_loop preds val_df (lead # rest) out =
     (case get_col val_df ''lead_hours'' of
        Inl e \<Rightarrow> Inl e
      | Inr lh \<Rightarrow>
          (let msk = map (\<lambda>v. v = Some (real lead)) lh;
               n = mask_sum msk
           in if n < 10 then lead_loop preds val_df rest out
              else
                (case map_of preds ''temperature'' of
                   None \<Rightarrow> Inl (KeyError ''temperature'')
                 | Some temp \<Rightarrow>
                     (case get_col val_df ''obs_temp'' of
                        Inl e \<Rightarrow> Inl e
                      | Inr obs \<Rightarrow>
                          (case get_col val_df ''fcst_temp'' of
                             Inl e \<Rightarrow> Inl e
                           | Inr fc \<Rightarrow>
                               lead_loop preds val_df rest
                                 (out @ [LeadTimeSummary lead n
                                           (mean_abs_error (map Some (mask_list msk temp))
                                              (mask_list msk obs))
                                           (mean_abs_error (mask_list msk fc)
                                              (mask_list msk obs))]))))))"

definition lead_summary :: "files \<Rightarrow> frame \<Rightarrow> frame \<Rightarrow> error + message list" where
  "lead_summary fs X_val val_df =
     (if ''lead_hours'' \<notin> set (columns val_df) then Inr []
      else
        (case weather_load MODEL_PATH fs of
           Inl e \<Rightarrow> Inl e
         | Inr wp_loaded \<Rightarrow>
             (case weather_predict wp_loaded X_val of
                Inl e \<Rightarrow> Inl e
              | Inr preds \<Rightarrow> lead_loop preds val_df [1, 3, 6, 12, 24, 48] [])))"

text \<open>
  \<^verbatim>\<open>main\<close>, from the paired table that \<^verbatim>\<open>db.load_paired_data()\<close> returned. The
  outcome is how the process ended (\<^term>\<open>None\<close> for a normal return, \<^verbatim>\<open>sys.exit(1)\<close>
  is \<^term>\<open>SystemExit 1\<close>, an exception that escapes is itself), the file system it
  leaves, and what it printed.
\<close>

record outcome =
  status :: "error option"
  files_out :: files
  printed :: "message list"

definition fit_and_persist ::
  "toolkit \<Rightarrow> string list \<Rightarrow> frame \<Rightarrow> frame \<Rightarrow> files \<Rightarrow> message list \<Rightarrow> outcome"
where
  "fit_and_persist tk feature_cols train_df val_df fs out =
     (case train_weather_stage tk feature_cols train_df val_df of
        Inl e \<Rightarrow> \<lparr>status = Some e, files_out = fs, printed = out\<rparr>
      | Inr (X_train, X_val, wp, out_w) \<Rightarrow>
          (let fs1 = weather_save wp MODEL_PATH fs;
               out1 = out @ out_w @ [Saved MODEL_PATH]
           in (case train_precip_stage tk X_train X_val train_df val_df of
                 Inl e \<Rightarrow> \<lparr>status = Some e, files_out = fs1, printed = out1\<rparr>
               | Inr (pp, out_p) \<Rightarrow>
                   (let fs2 = precip_save pp PRECIP_MODEL_PATH fs1;
                        out2 = out1 @ out_p @ [Saved PRECIP_MODEL_PATH]
                    in (case lead_summary fs2 X_val val_df of
                          Inl e \<Rightarrow> \<lparr>status = Some e, files_out = fs2, printed = out2\<rparr>
                        | Inr out_s \<Rightarrow>
                            \<lparr>status = None, files_out = fs2, printed = out2 @ out_s\<rparr>)))))"

definition train_main :: "toolkit \<Rightarrow> pipeline \<Rightarrow> frame \<Rightarrow> files \<Rightarrow> outcome" where
  "train_main tk pl paired fs =
     (if nrows paired < 500
      then \<lparr>status = Some (SystemExit 1), files_out = fs, printed = [OnlyPairedRows (nrows paired)]\<rparr>
      else
        (let out1 = [LoadedPairedRows (nrows paired)];
             df = build_feature_set pl paired;
             feature_cols = get_feature_columns pl df;
             out2 = out1 @ [FeatureCount (length feature_cols)]
         in (case dropna_thresh feature_cols (length feature_cols div 2) df of
               Inl e \<Rightarrow> \<lparr>status = Some e, files_out = fs, printed = out2\<rparr>
             | Inr df' \<Rightarrow>
                 (case chronological_split df' of
                    (train_df, val_df) \<Rightarrow>
                      fit_and_persist tk feature_cols train_df val_df fs
                        (out2 @ [RowsAfterDrop (nrows df'),
                                 TrainRows (nrows train_df), ValRows (nrows val_df)])))))"

text \<open>
  A feature pipeline that adds nothing, a file system that already holds a weather
  bundle, and a time-ordered table of five rows.
\<close>

definition ex_pipeline :: pipeline where
  "ex_pipeline = \<lparr>build_feature_set = (\<lambda>df. df), get_feature_columns = (\<lambda>df. [''fcst_temp''])\<rparr>"

definition ex_files :: files where
  "ex_files = (\<lambda>path. None)(MODEL_PATH \<mapsto> WeatherArtifact [(''temperature'', const_model 21)] [])"

definition ex_five :: frame where
  "ex_five =
     \<lparr>index = [10, 20, 30, 40, 50],
      cols = [(''fcst_temp'', [Some 20, Some 21, Some 22, Some 23, Some 24])]\<rparr>"

section \<open>The prediction run (predict.py)\<close>

text \<open>
  One record per forecast hour. Python's \<^verbatim>\<open>round(x, ndigits)\<close> on floats is a
  parameter \<open>rnd\<close> of the run.
\<close>

record forecast_hour =
  fh_time :: int
  fh_lead_hours :: int
  temperature_c :: real
  humidity_pct :: real
  wind_speed_kmh :: real
  precip_probability_pct :: real
  precip_expected_mm :: real
  temperature_range_c :: "(real \<times> real) option"
  precip_range_mm :: "(real \<times> real) option"

definition lookup :: "results \<Rightarrow> string \<Rightarrow> error + real list" where
  "lookup res k = (case map_of res k of None \<Rightarrow> Inl (KeyError k) | Some v \<Rightarrow> Inr v)"

text \<open>\<^verbatim>\<open>if "<lo>" in res: row[...] = [round(res["<lo>"][i], d), round(res["<hi>"][i], d)]\<close>\<close>

definition optional_range ::
  "(nat \<Rightarrow> real \<Rightarrow> real) \<Rightarrow> nat \<Rightarrow> results \<Rightarrow> string \<Rightarrow> string \<Rightarrow> nat \<Rightarrow> error + (real \<times> real) option"
where
  "optional_range rnd d res klo khi i =
     (case map_of res klo of
        None \<Rightarrow> Inr None
      | Some lo \<Rightarrow>
          (case map_of res khi of
             None \<Rightarrow> Inl (KeyError khi)
           | Some hi \<Rightarrow> Inr (Some (rnd d (lo ! i), rnd d (hi ! i)))))"

definition forecast_row ::
  "(nat \<Rightarrow> real \<Rightarrow> real) \<Rightarrow> frame \<Rightarrow> results \<Rightarrow> results \<Rightarrow> nat \<Rightarrow> error + forecast_hour"
where
  "forecast_row rnd df weather precip i =
     (case get_col df ''lead_hours'' of
        Inl e \<Rightarrow> Inl e
      | Inr lh \<Rightarrow>
     (case lh ! i of
        None \<Rightarrow> Inl ValueError
      | Some l \<Rightarrow>
     (case lookup weather ''temperature'' of
        Inl e \<Rightarrow> Inl e
      | Inr temp \<Rightarrow>
     (case lookup weather ''humidity'' of
        Inl e \<Rightarrow> Inl e
      | Inr hum \<Rightarrow>
     (case lookup weather ''wind_speed'' of
        Inl e \<Rightarrow> Inl e
      | Inr wind \<Rightarrow>
     (case lookup precip ''precip_probability'' of
        Inl e \<Rightarrow> Inl e
      | Inr prob \<Rightarrow>
     (case lookup precip ''precip_expected_mm'' of
        Inl e \<Rightarrow> Inl e
      | Inr expected \<Rightarrow>
     (case optional_range rnd 1 weather ''temperature_q10'' ''temperature_q90'' i of
        Inl e \<Rightarrow> Inl e
      | Inr trange \<Rightarrow>
     (case optional_range rnd 2 precip ''precip_q10_mm'' ''precip_q90_mm'' i of
        Inl e \<Rightarrow> Inl e
      | Inr prange \<Rightarrow>
          Inr \<lparr>fh_time = index df ! i,
               fh_lead_hours = py_int l,
               temperature_c = rnd 1 (temp ! i),
               humidity_pct = rnd 0 (hum ! i),
               wind_speed_kmh = rnd 1 (wind ! i),
               precip_probability_pct = rnd 0 (prob ! i * 100),
               precip_expected_mm = rnd 2 (expected ! i),
               temperature_range_c = trange,
               precip_range_mm = prange\<rparr>)))))))))"

fun collect :: "(error + 'a) list \<Rightarrow> error + 'a list" where
  "collect [] = Inr []"
| "collect (x # xs) =
     (case x of
        Inl e \<Rightarrow> Inl e
      | Inr v \<Rightarrow> (case collect xs of Inl e \<Rightarrow> Inl e | Inr vs \<Rightarrow> Inr (v # vs)))"

definition forecast_rows ::
  "(nat \<Rightarrow> real \<Rightarrow> real) \<Rightarrow> frame \<Rightarrow> results \<Rightarrow> results \<Rightarrow> error + forecast_hour list"
where
  "forecast_rows rnd df weather precip =
     collect (map (forecast_row rnd df weather precip) [0 ..< nrows df])"

text \<open>
  The alignment of \<^verbatim>\<open>main\<close>: the trained feature names absent from the table are
  reported and set to the scalar 0, then the table is restricted to the trained names in
  their order. It returns the selection, the table as modified, and what was printed.
\<close>

definition align_features :: "string list \<Rightarrow> frame \<Rightarrow> (error + frame) \<times> frame \<times> message list" where
  "align_features trained_features df =
     (let missing = filter (\<lambda>c. c \<notin> set (columns df)) trained_features;
          out = (if missing \<noteq> [] then [MissingFeatures (length missing) (take 5 missing)] else []);
          df' = (if missing \<noteq> [] then foldl (\<lambda>d c. set_col_scalar d c 0) df missing else df)
      in (select_cols df' trained_features, df', out))"

definition serve_predictions ::
  "(nat \<Rightarrow> real \<Rightarrow> real) \<Rightarrow> weather_predictor \<Rightarrow> precipitation_predictor \<Rightarrow> frame \<Rightarrow> frame \<Rightarrow>
   message list \<Rightarrow> (error + forecast_hour list) \<times> message list"
where
  "serve_predictions rnd wp pp df X out =
     (case weather_predict wp X of
        Inl e \<Rightarrow> (Inl e, out)
      | Inr weather \<Rightarrow>
          (case precip_predict pp X of
             Inl e \<Rightarrow> (Inl e, out)
           | Inr precip \<Rightarrow>
               (case forecast_rows rnd df weather precip of
                  Inl e \<Rightarrow> (Inl e, out)
                | Inr rows \<Rightarrow> (Inr rows, out @ [WroteHours (length rows)]))))"

text \<open>
  \<^verbatim>\<open>main\<close>, from the table that \<^verbatim>\<open>fetch_current_forecast()\<close> returned: both bundles
  are loaded, the trained feature names are read from the weather bundle's temperature
  model, and the same aligned frame goes to both predictors.
\<close>

definition predict_main ::
  "(nat \<Rightarrow> real \<Rightarrow> real) \<Rightarrow> pipeline \<Rightarrow> files \<Rightarrow> frame \<Rightarrow> (error + forecast_hour list) \<times> message list"
where
  "predict_main rnd pl fs fetched =
     (case weather_load MODEL_PATH fs of
        Inl e \<Rightarrow> (Inl e, [])
      | Inr wp \<Rightarrow>
          (case precip_load PRECIP_MODEL_PATH fs of
             Inl e \<Rightarrow> (Inl e, [])
           | Inr pp \<Rightarrow>
               (let df = build_feature_set pl fetched
                in (case map_of (models wp) ''temperature'' of
                      None \<Rightarrow> (Inl (KeyError ''temperature''), [])
                    | Some tm \<Rightarrow>
                        (case align_features (feature_name tm) df of
                           (Xr, df', out) \<Rightarrow>
                             (case Xr of
                                Inl e \<Rightarrow> (Inl e, out)
                              | Inr X \<Rightarrow> serve_predictions rnd wp pp df' X out))))))"

text \<open>
  What \<^verbatim>\<open>main\<close> relies on beyond the alignment. The bundles are complete for a
  number \<open>n\<close> of features when the weather bundle's models have distinct names among
  the four targets, with humidity and wind speed among them; every estimator of either
  bundle was fitted on \<open>n\<close> features; a target with quantile models has both the 0.1
  and the 0.9 model; the classifier and the regressor are fitted; and the precipitation
  quantile models are for alphas among the five of \<^verbatim>\<open>train\<close>, with the 0.9 model
  present when the 0.1 model is (the keys \<^verbatim>\<open>precip_q10_mm\<close> and
  \<^verbatim>\<open>precip_q90_mm\<close>). The table is ready when it has a row and a lead-hour column
  without NaN.
\<close>

definition complete_bundles :: "nat \<Rightarrow> weather_predictor \<Rightarrow> precipitation_predictor \<Rightarrow> bool" where
  "complete_bundles n wp pp \<longleftrightarrow>
     distinct (map fst (models wp)) \<and>
     set (map fst (models wp)) \<subseteq> set targets \<and>
     ''humidity'' \<in> set (map fst (models wp)) \<and>
     ''wind_speed'' \<in> set (map fst (models wp)) \<and>
     list_all
       (\<lambda>(t, g). length (feature_name g) = n \<and>
          (case map_of (quantile_models wp) t of
             None \<Rightarrow> True
           | Some qs \<Rightarrow>
               (case map_of qs (1 / 10) of
                  None \<Rightarrow> False
                | Some lo \<Rightarrow>
                    (case map_of qs (9 / 10) of
                       None \<Rightarrow> False
                     | Some hi \<Rightarrow>
                         length (feature_name lo) = n \<and> length (feature_name hi) = n))))
       (models wp) \<and>
     (case classifier pp of None \<Rightarrow> False | Some c \<Rightarrow> length (feature_name c) = n) \<and>
     (case regressor pp of None \<Rightarrow> False | Some r \<Rightarrow> length (feature_name r) = n) \<and>
     list_all (\<lambda>(alpha, g). length (feature_name g) = n) (pp_quantile_models pp) \<and>
     set (map fst (pp_quantile_models pp)) \<subseteq> set precip_alphas \<and>
     (if ''precip_q10_mm'' \<in> set (map (\<lambda>(alpha, g). quantile_key alpha) (pp_quantile_models pp))
      then ''precip_q90_mm'' \<in> set (map (\<lambda>(alpha, g). quantile_key alpha) (pp_quantile_models pp))
      else True)"

definition table_ready :: "frame \<Rightarrow> bool" where
  "table_ready df \<longleftrightarrow>
     0 < nrows df \<and>
     (case map_of (cols df) ''lead_hours'' of
        None \<Rightarrow> False
      | Some lh \<Rightarrow> list_all (\<lambda>i. lh ! i \<noteq> None) [0 ..< nrows df])"

text \<open>
  Two persisted bundles whose estimators were fitted on the features A, B and C (each
  estimator returns the sum of the row's numbers; the calibrator returns one half), and a
  serve-time table that holds A, B and the lead hour but not C. The aligned frame has A,
  B and a column C of zeros.
\<close>

definition ex_abc_model :: lgbm where
  "ex_abc_model =
     \<lparr>feature_name = [''A'', ''B'', ''C''],
      raw_predict = (\<lambda>row. sum_list (map (\<lambda>v. case v of None \<Rightarrow> 0 | Some x \<Rightarrow> x) row))\<rparr>"

definition ex_serve_weather :: weather_predictor where
  "ex_serve_weather =
     \<lparr>models = [(''temperature'', ex_abc_model), (''humidity'', ex_abc_model),
                (''wind_speed'', ex_abc_model)],
      quantile_models = []\<rparr>"

definition ex_serve_precip :: precipitation_predictor where
  "ex_serve_precip =
     \<lparr>classifier = Some ex_abc_model, regressor = Some ex_abc_model, pp_quantile_models = [],
      calibrator = Some \<lparr>iso_fn = (\<lambda>p. 1 / 2)\<rparr>\<rparr>"

definition ex_serve_files :: files where
  "ex_serve_files =
     precip_save ex_serve_precip PRECIP_MODEL_PATH
       (weather_save ex_serve_weather MODEL_PATH (\<lambda>path. None))"

definition ex_serve_table :: frame where
  "ex_serve_table =
     \<lparr>index = [0, 1],
      cols = [(''A'', [Some 1, Some 2]), (''lead_hours'', [Some 0, Some 1]),
              (''B'', [Some 3, Some 4])]\<rparr>"

definition ex_aligned :: frame where
  "ex_aligned =
     \<lparr>index = [0, 1],
      cols = [(''A'', [Some 1, Some 2]), (''B'', [Some 3, Some 4]), (''C'', [Some 0, Some 0])]\<rparr>"

definition ex_serve_rows :: "forecast_hour list" where
  "ex_serve_rows =
     [\<lparr>fh_time = 0, fh_lead_hours = 0, temperature_c = 4, humidity_pct = 4, wind_speed_kmh = 4,
       precip_probability_pct = 50, precip_expected_mm = 2,
       temperature_range_c = None, precip_range_mm = None\<rparr>,
      \<lparr>fh_time = 1, fh_lead_hours = 1, temperature_c = 6, humidity_pct = 6, wind_speed_kmh = 6,
       precip_probability_pct = 50, precip_expected_mm = 3,
       temperature_range_c = None, precip_range_mm = None\<rparr>]"


text \<open>
  A weather bundle fitted on the features A and B only, stored beside the precipitation
  bundle fitted on A, B and C; and a weather bundle that holds a temperature model only,
  as training leaves it when the other targets are skipped.
\<close>

definition ex_ab_model :: lgbm where
  "ex_ab_model =
     \<lparr>feature_name = [''A'', ''B''],
      raw_predict = (\<lambda>row. sum_list (map (\<lambda>v. case v of None \<Rightarrow> 0 | Some x \<Rightarrow> x) row))\<rparr>"

definition ex_ab_weather :: weather_predictor where
  "ex_ab_weather =
     \<lparr>models = [(''temperature'', ex_ab_model), (''humidity'', ex_ab_model),
                (''wind_speed'', ex_ab_model)],
      quantile_models = []\<rparr>"

definition ex_mixed_files :: files where
  "ex_mixed_files =
     precip_save ex_serve_precip PRECIP_MODEL_PATH
       (weather_save ex_ab_weather MODEL_PATH (\<lambda>path. None))"

definition ex_temperature_only :: weather_predictor where
  "ex_temperature_only = \<lparr>models = [(''temperature'', ex_abc_model)], quantile_models = []\<rparr>"

definition ex_temperature_only_files :: files where
  "ex_temperature_only_files =
     precip_save ex_serve_precip PRECIP_MODEL_PATH
       (weather_save ex_temperature_only MODEL_PATH (\<lambda>path. None))"

text \<open>A serve-time table with the columns A, B and the lead hour, and no row.\<close>

definition ex_empty_table :: frame where
  "ex_empty_table = \<lparr>index = [], cols = [(''A'', []), (''lead_hours'', []), (''B'', [])]\<rparr>"
text \<open>
  Labels for one row (too few to fit any target), and a training run of 100 labelled
  rows.
\<close>

definition ex_obs :: frame where
  "ex_obs =
     \<lparr>index = [0],
      cols = [(''obs_temp'', [Some 19]), (''obs_humidity'', [Some 50]),
              (''obs_wind_speed'', [Some 3]), (''obs_wind_dir'', [Some 180])]\<rparr>"

definition ex_obs100 :: frame where
  "ex_obs100 = \<lparr>index = map int [0 ..< 100], cols = [(''obs_temp'', replicate 100 (Some 19))]\<rparr>"

definition ex_empty_files :: files where
  "ex_empty_files = (\<lambda>path. None)"

text \<open>Every estimator of a weather predictor carries the feature-name list \<open>cs\<close>.\<close>

definition fitted_on :: "string list \<Rightarrow> weather_predictor \<Rightarrow> bool" where
  "fitted_on cs wp \<longleftrightarrow>
     (\<forall>(t, g) \<in> set (models wp). feature_name g = cs) \<and>
     (\<forall>(t, qs) \<in> set (quantile_models wp). \<forall>(a, g) \<in> set qs. feature_name g = cs)"

text \<open>
  The model names of a weather predictor are distinct and among the four targets, and
  every dict of quantile models has the 0.1 and the 0.9 model.
\<close>

definition quantile_pairs :: "weather_predictor \<Rightarrow> bool" where
  "quantile_pairs wp \<longleftrightarrow>
     distinct (map fst (models wp)) \<and>
     set (map fst (models wp)) \<subseteq> set targets \<and>
     (\<forall>(t, qs) \<in> set (quantile_models wp).
        map_of qs (1 / 10) \<noteq> None \<and> map_of qs (9 / 10) \<noteq> None)"
section \<open>Properties of the paired-data join\<close>

lemma row_number_first:
  "filter (\<lambda>(f, rn). rn = 1) (row_number xs) = (case xs of [] \<Rightarrow> [] | x # _ \<Rightarrow> [(x, 1)])"
proof (cases xs)
  case Nil
  then show ?thesis by (simp add: row_number_def)
next
  case (Cons x ys)
  have "row_number (x # ys) = (x, 1) # zip ys [2 ..< Suc (Suc (length ys))]"
    by (simp add: row_number_def upt_conv_Cons numeral_2_eq_2 del: upt_Suc)
  moreover have "filter (\<lambda>(f, rn). rn = 1) (zip ys [2 ..< Suc (Suc (length ys))]) = []"
    by (auto simp: filter_empty_conv dest!: set_zip_rightD)
  ultimately show ?thesis using Cons by simp
qed

lemma last_sort_key_max:
  assumes "g \<in> set xs"
  shows "f g \<le> f (last (sort_key f xs))"
proof -
  have s: "sorted (map f (sort_key f xs))" by (rule sorted_sort_key)
  have ne: "sort_key f xs \<noteq> []" using assms by (metis empty_iff list.set(1) set_sort)
  obtain i where i: "i < length (sort_key f xs)" "sort_key f xs ! i = g"
    using assms by (metis in_set_conv_nth set_sort)
  have "map f (sort_key f xs) ! i \<le> map f (sort_key f xs) ! (length (sort_key f xs) - 1)"
    using s i ne by (intro sorted_nth_mono) auto
  then show ?thesis using i ne by (simp add: last_conv_nth)
qed

lemma partition_rows_nonempty:
  "k \<in> set (partition_keys fs) \<Longrightarrow> partition_rows fs k \<noteq> []"
  by (auto simp: partition_keys_def partition_rows_def filter_empty_conv)

lemma first_of_partition:
  assumes "k \<in> set (partition_keys fs)"
  shows "filter (\<lambda>(f, rn). rn = 1) (row_number (order_by_fetched_at_desc (partition_rows fs k)))
         = [(last (sort_key fetched_at (partition_rows fs k)), 1)]"
proof -
  have ne: "sort_key fetched_at (partition_rows fs k) \<noteq> []"
    using partition_rows_nonempty [OF assms] by (metis length_0_conv length_sort)
  then have "order_by_fetched_at_desc (partition_rows fs k) \<noteq> []"
    by (simp add: order_by_fetched_at_desc_def)
  then obtain x ys where xy: "order_by_fetched_at_desc (partition_rows fs k) = x # ys"
    by (cases "order_by_fetched_at_desc (partition_rows fs k)") auto
  then have "x = last (sort_key fetched_at (partition_rows fs k))"
    using hd_rev [of "sort_key fetched_at (partition_rows fs k)"]
    by (simp add: order_by_fetched_at_desc_def)
  with xy show ?thesis using row_number_first [of "x # ys"] by simp
qed

lemma rn1_rows:
  "filter (\<lambda>(f, rn). rn = 1) (latest_fcst fs) =
     map (\<lambda>k. (last (sort_key fetched_at
                   (partition_rows (filter (\<lambda>f. source f = ''best_match'') fs) k)), 1))
         (partition_keys (filter (\<lambda>f. source f = ''best_match'') fs))"
proof -
  let ?cand = "filter (\<lambda>f. source f = ''best_match'') fs"
  have "filter (\<lambda>(f, rn). rn = 1) (latest_fcst fs) =
      concat (map (\<lambda>k. filter (\<lambda>(f, rn). rn = 1)
                 (row_number (order_by_fetched_at_desc (partition_rows ?cand k))))
             (partition_keys ?cand))"
    by (simp add: latest_fcst_def Let_def filter_concat comp_def)
  also have "\<dots> = concat (map (\<lambda>k. [(last (sort_key fetched_at (partition_rows ?cand k)), 1)])
                            (partition_keys ?cand))"
    by (rule arg_cong [where f = concat], rule map_cong [OF refl], erule first_of_partition)
  finally show ?thesis by simp
qed

lemma latest_rn1_iff:
  "(f, 1) \<in> set (latest_fcst fs) \<longleftrightarrow>
     (\<exists>k \<in> set (partition_keys (filter (\<lambda>f. source f = ''best_match'') fs)).
        f = last (sort_key fetched_at (partition_rows (filter (\<lambda>f. source f = ''best_match'') fs) k)))"
proof -
  have "(f, 1) \<in> set (latest_fcst fs) \<longleftrightarrow> (f, 1) \<in> set (filter (\<lambda>(f, rn). rn = 1) (latest_fcst fs))"
    by simp
  also have "\<dots> \<longleftrightarrow> (\<exists>k \<in> set (partition_keys (filter (\<lambda>f. source f = ''best_match'') fs)).
        f = last (sort_key fetched_at (partition_rows (filter (\<lambda>f. source f = ''best_match'') fs) k)))"
    unfolding rn1_rows by auto
  finally show ?thesis .
qed

lemma selected_in_partition:
  assumes "k \<in> set (partition_keys fs)"
  shows "last (sort_key fetched_at (partition_rows fs k)) \<in> set (partition_rows fs k)"
proof -
  have "sort_key fetched_at (partition_rows fs k) \<noteq> []"
    using partition_rows_nonempty [OF assms] by (metis length_0_conv length_sort)
  then have "last (sort_key fetched_at (partition_rows fs k)) \<in> set (sort_key fetched_at (partition_rows fs k))"
    by (rule last_in_set)
  then show ?thesis by simp
qed

lemma paired_join_iff:
  "(ob, f) \<in> set (paired_join fs os) \<longleftrightarrow>
     ob \<in> set os \<and> (f, 1) \<in> set (latest_fcst fs) \<and> valid_time f = obs_time ob"
  by (auto simp: paired_join_def)

lemma latest_rn1_max:
  assumes sel: "(f, 1) \<in> set (latest_fcst fs)"
  shows "f \<in> set fs \<and> source f = ''best_match'' \<and>
         (\<forall>g \<in> set fs. source g = source f \<and> valid_time g = valid_time f
              \<longrightarrow> fetched_at g \<le> fetched_at f)"
proof -
  let ?cand = "filter (\<lambda>f. source f = ''best_match'') fs"
  obtain k where k: "k \<in> set (partition_keys ?cand)"
      and f: "f = last (sort_key fetched_at (partition_rows ?cand k))"
    using sel unfolding latest_rn1_iff by blast
  have mem: "f \<in> set (partition_rows ?cand k)"
    unfolding f by (rule selected_in_partition [OF k])
  then have fk: "f \<in> set fs" "source f = ''best_match''" "(valid_time f, source f) = k"
    by (auto simp: partition_rows_def)
  have "fetched_at g \<le> fetched_at f"
    if "g \<in> set fs" "source g = source f" "valid_time g = valid_time f" for g
  proof -
    have "g \<in> set (partition_rows ?cand k)"
      using that fk by (auto simp: partition_rows_def)
    then show ?thesis unfolding f by (rule last_sort_key_max)
  qed
  with fk show ?thesis by blast
qed

lemma filter_distinct_at_most_one:
  assumes "distinct xs" and "\<And>x. x \<in> set xs \<Longrightarrow> P x \<Longrightarrow> x = a"
  shows "length (filter P xs) \<le> 1"
  using assms
proof (induction xs)
  case Nil
  then show ?case by simp
next
  case (Cons x xs)
  show ?case
  proof (cases "P x")
    case True
    then have "x = a" using Cons.prems(2) by simp
    have "filter P xs = []"
    proof (rule ccontr)
      assume "filter P xs \<noteq> []"
      then obtain y where "y \<in> set xs" "P y" by (auto simp: filter_empty_conv)
      then have "y = a" using Cons.prems(2) by simp
      with \<open>x = a\<close> \<open>y \<in> set xs\<close> Cons.prems(1) show False by simp
    qed
    with True show ?thesis by simp
  next
    case False
    then show ?thesis using Cons by simp
  qed
qed

lemma at_most_one_first:
  "length (filter (\<lambda>(f, rn). valid_time f = t \<and> rn = 1) (latest_fcst fs)) \<le> 1"
proof -
  let ?cand = "filter (\<lambda>f. source f = ''best_match'') fs"
  let ?sel = "\<lambda>k. last (sort_key fetched_at (partition_rows ?cand k))"
  have "filter (\<lambda>(f, rn). valid_time f = t \<and> rn = 1) (latest_fcst fs) =
        filter (\<lambda>(f, rn). valid_time f = t) (filter (\<lambda>(f, rn). rn = 1) (latest_fcst fs))"
    by (simp add: case_prod_unfold conj_commute)
  also have "\<dots> = map (\<lambda>k. (?sel k, 1)) (filter (\<lambda>k. valid_time (?sel k) = t) (partition_keys ?cand))"
    unfolding rn1_rows by (simp add: filter_map comp_def)
  finally have "length (filter (\<lambda>(f, rn). valid_time f = t \<and> rn = 1) (latest_fcst fs)) =
        length (filter (\<lambda>k. valid_time (?sel k) = t) (partition_keys ?cand))"
    by simp
  moreover have "length (filter (\<lambda>k. valid_time (?sel k) = t) (partition_keys ?cand)) \<le> 1"
  proof (rule filter_distinct_at_most_one [where a = "(t, ''best_match'')"])
    show "distinct (partition_keys ?cand)" by (simp add: partition_keys_def)
  next
    fix k assume k: "k \<in> set (partition_keys ?cand)" and t: "valid_time (?sel k) = t"
    have "?sel k \<in> set (partition_rows ?cand k)" by (rule selected_in_partition [OF k])
    then have "(valid_time (?sel k), source (?sel k)) = k" "source (?sel k) = ''best_match''"
      by (auto simp: partition_rows_def)
    with t show "k = (t, ''best_match'')" by auto
  qed
  ultimately show ?thesis by simp
qed

lemma distinct_join_keys:
  assumes "distinct (map key os)" and "\<And>ob. ob \<in> set os \<Longrightarrow> length (F ob) \<le> 1"
  shows "distinct (map (\<lambda>(ob, f). key ob) (concat (map (\<lambda>ob. map (\<lambda>(f, rn). (ob, f)) (F ob)) os)))"
  using assms
proof (induction os)
  case Nil
  then show ?case by simp
next
  case (Cons a os)
  let ?g = "\<lambda>(ob, f). key ob"
  let ?h = "\<lambda>ob. map (\<lambda>(f, rn). (ob, f)) (F ob)"
  have split: "map ?g (concat (map ?h (a # os))) = map ?g (?h a) @ map ?g (concat (map ?h os))"
    by simp
  have head: "map ?g (?h a) = replicate (length (F a)) (key a)"
    by (simp add: case_prod_unfold comp_def map_replicate_const)
  have "length (F a) \<le> 1" using Cons.prems(2) by simp
  then have d1: "distinct (replicate (length (F a)) (key a))"
    by (cases "F a") auto
  have rest: "set (map ?g (concat (map ?h os))) \<subseteq> key ` set os"
    by auto
  have "key a \<notin> key ` set os" using Cons.prems(1) by simp
  with rest have d2: "set (replicate (length (F a)) (key a)) \<inter> set (map ?g (concat (map ?h os))) = {}"
    by (auto simp: set_replicate_conv_if)
  have d3: "distinct (map ?g (concat (map ?h os)))"
    using Cons by simp
  show ?case by (simp only: split head distinct_append d1 d2 d3 simp_thms)
qed

lemma distinct_map_sort_key:
  "distinct (map g (sort_key h xs)) = distinct (map g xs)"
  by (simp add: distinct_map)

lemma paired_join_distinct_times:
  assumes "observations_pk os"
  shows "distinct (map (\<lambda>(ob, f). obs_time ob) (paired_join fs os))"
  unfolding paired_join_def distinct_map_sort_key
proof (rule distinct_join_keys)
  show "distinct (map obs_time os)" using assms by (simp add: observations_pk_def)
next
  fix ob :: observation
  show "length (filter (\<lambda>(f, rn). valid_time f = obs_time ob \<and> rn = 1) (latest_fcst fs)) \<le> 1"
    by (rule at_most_one_first)
qed

lemma live_before_backfill:
  assumes "live_timestamp s"
  shows "s < backfill_marker"
proof (cases s)
  case Nil
  with assms show ?thesis by (simp add: live_timestamp_def)
next
  case (Cons c cs)
  with assms have "c \<le> CHR ''9''" by (simp add: live_timestamp_def is_digit_def)
  moreover have "CHR ''9'' < CHR ''b''" by simp
  ultimately have "c < CHR ''b''" by (rule le_less_trans)
  with Cons show ?thesis by (simp add: backfill_marker_def)
qed

lemma ex_forecasts_eval:
  "ex_forecasts =
     [ex_live_issue,
      \<lparr>fetched_at = ''2024-06-01T06:00:00+00:00'', valid_time = ''2024-06-01T01:00'',
       source = ''best_match'', lead_hours = Some 1, fcst_values = [Some 21]\<rparr>,
      ex_backfilled]"
  by (simp add: ex_forecasts_def store_historical_forecast_chunk_def store_forecast_def
      insert_forecasts_def insert_or_replace_forecast_def forecast_key_def enumerate_eq_zip
      backfill_marker_def ex_live_issue_def ex_backfilled_def)

lemma ex_observations_eval:
  "ex_observations =
       [\<lparr>obs_time = ''2024-06-01T00:00'', obs_values = [Some 18]\<rparr>,
        \<lparr>obs_time = ''2024-06-01T01:00'', obs_values = [Some 17]\<rparr>]"
  by (simp add: ex_observations_def insert_observations_def insert_or_replace_observation_def)

lemma ex_pk:
  "observations_pk ex_observations" "forecasts_pk ex_forecasts"
  unfolding ex_forecasts_eval ex_observations_eval
  by (simp_all add: observations_pk_def forecasts_pk_def forecast_key_def
      ex_live_issue_def ex_live_next_def ex_backfilled_def)

lemma ex_paired_join:
  "paired_join ex_forecasts ex_observations =
     [(\<lparr>obs_time = ''2024-06-01T00:00'', obs_values = [Some 18]\<rparr>, ex_backfilled),
      (\<lparr>obs_time = ''2024-06-01T01:00'', obs_values = [Some 17]\<rparr>, ex_live_next)]"
  unfolding ex_forecasts_eval ex_observations_eval
  by (simp add: paired_join_def latest_fcst_def partition_keys_def partition_rows_def
      order_by_fetched_at_desc_def row_number_def ex_live_issue_def ex_live_next_def
      ex_backfilled_def Let_def upt_conv_Cons del: upt_Suc)

lemma load_paired_data_times:
  "map time (load_paired_data fs os) = map (\<lambda>(ob, f). obs_time ob) (paired_join fs os)"
  by (simp add: load_paired_data_def paired_columns_def case_prod_unfold comp_def)

text \<open>
  C1, as the code has it. For all table states that satisfy the two primary keys:
  \<^verbatim>\<open>load_paired_data\<close> emits each valid time at most once; the forecast joined to an
  observation is a \<^verbatim>\<open>best_match\<close> issue for that valid time whose \<^verbatim>\<open>fetched_at\<close> is
  strictly greater, in the bytewise order of TEXT, than that of every other issue for the
  same (valid_time, source); and, the marker \<^verbatim>\<open>backfill\<close> sorting after every
  timestamp, a live timestamped issue is the one joined only when the table holds no
  backfilled row for that valid time.
\<close>

theorem load_paired_data_latest_issue:
  assumes "observations_pk os" and "forecasts_pk fs"
  shows "distinct (map time (load_paired_data fs os)) \<and>
         (\<forall>(ob, f) \<in> set (paired_join fs os).
            ob \<in> set os \<and> f \<in> set fs \<and> source f = ''best_match'' \<and> valid_time f = obs_time ob \<and>
            (\<forall>g \<in> set fs. source g = source f \<and> valid_time g = valid_time f \<and> g \<noteq> f
                 \<longrightarrow> fetched_at g < fetched_at f) \<and>
            (live_timestamp (fetched_at f) \<longrightarrow>
               (\<forall>g \<in> set fs. source g = source f \<and> valid_time g = valid_time f
                  \<longrightarrow> fetched_at g \<noteq> backfill_marker)))"
proof -
  have once: "distinct (map time (load_paired_data fs os))"
    unfolding load_paired_data_times by (rule paired_join_distinct_times [OF assms(1)])
  have side: "ob \<in> set os \<and> f \<in> set fs \<and> source f = ''best_match'' \<and> valid_time f = obs_time ob \<and>
            (\<forall>g \<in> set fs. source g = source f \<and> valid_time g = valid_time f \<and> g \<noteq> f
                 \<longrightarrow> fetched_at g < fetched_at f) \<and>
            (live_timestamp (fetched_at f) \<longrightarrow>
               (\<forall>g \<in> set fs. source g = source f \<and> valid_time g = valid_time f
                  \<longrightarrow> fetched_at g \<noteq> backfill_marker))"
    if mem: "(ob, f) \<in> set (paired_join fs os)" for ob f
  proof -
    from mem have ob: "ob \<in> set os" and sel: "(f, 1) \<in> set (latest_fcst fs)"
      and vt: "valid_time f = obs_time ob"
      by (simp_all add: paired_join_iff)
    note mx = latest_rn1_max [OF sel]
    have strict: "fetched_at g < fetched_at f"
      if g: "g \<in> set fs" "source g = source f" "valid_time g = valid_time f" "g \<noteq> f" for g
    proof -
      have le: "fetched_at g \<le> fetched_at f" using mx g by blast
      have "inj_on forecast_key (set fs)"
        using assms(2) by (simp add: forecasts_pk_def distinct_map)
      with g mx have "forecast_key g \<noteq> forecast_key f" by (auto dest: inj_onD)
      with g have "fetched_at g \<noteq> fetched_at f" by (simp add: forecast_key_def)
      with le show ?thesis by simp
    qed
    have nobf: "fetched_at g \<noteq> backfill_marker"
      if live: "live_timestamp (fetched_at f)"
        and g: "g \<in> set fs" "source g = source f" "valid_time g = valid_time f" for g
    proof
      assume bf: "fetched_at g = backfill_marker"
      have "fetched_at g \<le> fetched_at f" using mx g by blast
      moreover have "fetched_at f < backfill_marker" by (rule live_before_backfill [OF live])
      ultimately show False using bf by simp
    qed
    from ob vt mx strict nobf show ?thesis by blast
  qed
  from once side show ?thesis by blast
qed

theorem load_paired_data_latest_issue_witness:
  "observations_pk ex_observations \<and> forecasts_pk ex_forecasts \<and>
   distinct (map time (load_paired_data ex_forecasts ex_observations)) \<and>
   (\<lparr>obs_time = ''2024-06-01T01:00'', obs_values = [Some 17]\<rparr>, ex_live_next)
      \<in> set (paired_join ex_forecasts ex_observations) \<and>
   live_timestamp (fetched_at ex_live_next) \<and>
   ex_backfilled \<in> set ex_forecasts \<and> source ex_backfilled = source ex_live_next \<and>
   valid_time ex_backfilled \<noteq> valid_time ex_live_next"
proof -
  note sel = load_paired_data_latest_issue [OF ex_pk]
  have mem: "(\<lparr>obs_time = ''2024-06-01T01:00'', obs_values = [Some 17]\<rparr>, ex_live_next)
      \<in> set (paired_join ex_forecasts ex_observations)"
    by (simp add: ex_paired_join)
  have live: "live_timestamp (fetched_at ex_live_next)"
    by (simp add: ex_live_next_def live_timestamp_def is_digit_def)
  have bf: "ex_backfilled \<in> set ex_forecasts" "source ex_backfilled = source ex_live_next"
    "fetched_at ex_backfilled = backfill_marker"
    by (simp_all add: ex_forecasts_eval ex_backfilled_def ex_live_next_def backfill_marker_def)
  from sel mem live bf have "valid_time ex_backfilled \<noteq> valid_time ex_live_next" by blast
  with sel mem live bf ex_pk show ?thesis by blast
qed

text \<open>
  C1 as stated fails on its last clause: in the table state \<^term>\<open>ex_forecasts\<close> the
  valid time 2024-06-01T00:00 has a live timestamped issue and a backfilled row, and the
  join takes the backfilled row.
\<close>

theorem backfilled_row_selected_despite_live_issue:
  "paired_join ex_forecasts ex_observations =
     [(\<lparr>obs_time = ''2024-06-01T00:00'', obs_values = [Some 18]\<rparr>, ex_backfilled),
      (\<lparr>obs_time = ''2024-06-01T01:00'', obs_values = [Some 17]\<rparr>, ex_live_next)] \<and>
   fetched_at ex_backfilled = backfill_marker \<and>
   ex_live_issue \<in> set ex_forecasts \<and>
   source ex_live_issue = source ex_backfilled \<and>
   valid_time ex_live_issue = valid_time ex_backfilled \<and>
   live_timestamp (fetched_at ex_live_issue)"
proof -
  have "ex_live_issue \<in> set ex_forecasts"
    by (simp add: ex_forecasts_eval)
  moreover have "fetched_at ex_backfilled = backfill_marker"
    "source ex_live_issue = source ex_backfilled"
    "valid_time ex_live_issue = valid_time ex_backfilled"
    "live_timestamp (fetched_at ex_live_issue)"
    by (simp_all add: ex_backfilled_def ex_live_issue_def backfill_marker_def
        live_timestamp_def is_digit_def)
  ultimately show ?thesis using ex_paired_join by simp
qed

section \<open>Properties of WeatherPredictor.predict\<close>

lemma physical_constraints_humidity:
  "map_of (physical_constraints r) ''humidity'' = map_option (map (clip 0 100)) (map_of r ''humidity'')"
  by (auto simp: physical_constraints_def Let_def update_conv' split: option.splits)

lemma physical_constraints_wind_speed:
  "map_of (physical_constraints r) ''wind_speed'' = map_option (map (\<lambda>v. max v 0)) (map_of r ''wind_speed'')"
  by (auto simp: physical_constraints_def Let_def update_conv' split: option.splits)

lemma physical_constraints_other:
  "k \<noteq> ''humidity'' \<Longrightarrow> k \<noteq> ''wind_speed'' \<Longrightarrow> map_of (physical_constraints r) k = map_of r k"
  by (auto simp: physical_constraints_def Let_def update_conv' split: option.splits)

lemma clip_range: "0 \<le> clip 0 100 v \<and> clip 0 100 v \<le> 100"
  by (simp add: clip_def)

lemma weather_predict_ranges_aux:
  assumes "weather_predict wp X = Inr res"
  shows "(\<forall>h. map_of res ''humidity'' = Some h \<longrightarrow> (\<forall>v \<in> set h. 0 \<le> v \<and> v \<le> 100)) \<and>
         (\<forall>w. map_of res ''wind_speed'' = Some w \<longrightarrow> (\<forall>v \<in> set w. 0 \<le> v))"
proof -
  from assms obtain raw where raw: "predict_loop (quantile_models wp) X (models wp) [] = Inr raw"
    and res: "res = physical_constraints raw"
    by (auto simp: weather_predict_def split: sum.splits)
  show ?thesis
    unfolding res physical_constraints_humidity physical_constraints_wind_speed
    by (auto simp: clip_range)
qed

lemma length_lgbm_predict: "lgbm_predict m X = Inr p \<Longrightarrow> length p = nrows X"
  by (auto simp: lgbm_predict_def rows_of_def split: if_splits)

lemma predict_loop_untouched:
  assumes "predict_loop qms X ms res = Inr res'"
    and "\<And>t m. (t, m) \<in> set ms \<Longrightarrow> k \<noteq> t \<and> k \<noteq> t @ ''_q10'' \<and> k \<noteq> t @ ''_q90''"
  shows "map_of res' k = map_of res k"
  using assms
proof (induction qms X ms res rule: predict_loop.induct)
  case (1 qms X res)
  then show ?case by simp
next
  case (2 qms X target model rest res)
  from "2.prems"(2) [of target model]
  have k: "k \<noteq> target" "k \<noteq> target @ ''_q10''" "k \<noteq> target @ ''_q90''" by simp_all
  have rest: "k \<noteq> t \<and> k \<noteq> t @ ''_q10'' \<and> k \<noteq> t @ ''_q90''" if "(t, m) \<in> set rest" for t m
    using "2.prems"(2) [of t m] that by simp
  from "2.prems"(1) obtain p where p: "lgbm_predict model X = Inr p"
    by (auto split: sum.splits)
  show ?case
  proof (cases "map_of qms target")
    case None
    with "2.prems"(1) p have "predict_loop qms X rest (AList.update target p res) = Inr res'"
      by simp
    from "2.IH"(1) [OF p None this rest] k show ?thesis by (simp add: update_conv')
  next
    case (Some qs)
    with "2.prems"(1) p obtain q10 p10 q90 p90 where
      q: "map_of qs (1 / 10) = Some q10" "lgbm_predict q10 X = Inr p10"
         "map_of qs (9 / 10) = Some q90" "lgbm_predict q90 X = Inr p90"
      and loop: "predict_loop qms X rest
                   (AList.update (target @ ''_q90'') p90
                      (AList.update (target @ ''_q10'') p10 (AList.update target p res))) = Inr res'"
      by (auto split: sum.splits option.splits)
    from "2.IH"(2) [OF p Some q loop rest] k show ?thesis by (simp add: update_conv')
  qed
qed


lemma target_not_suffixed:
  assumes "t' \<in> set targets"
  shows "t' \<noteq> t @ ''_q10'' \<and> t' \<noteq> t @ ''_q90''"
proof -
  have l: "last (t @ ''_q10'') = CHR ''0''" "last (t @ ''_q90'') = CHR ''0''" by simp_all
  have "last t' \<noteq> CHR ''0''" using assms by (auto simp: targets_def)
  with l show ?thesis by metis
qed

lemma suffix_q_neq: "t' @ ''_q90'' \<noteq> t @ ''_q10''" "t' @ ''_q10'' \<noteq> t @ ''_q90''"
  by simp_all

lemma predict_loop_quantiles:
  assumes "predict_loop qms X ms res = Inr res'"
    and "distinct (map fst ms)" and "set (map fst ms) \<subseteq> set targets"
    and "(t, m) \<in> set ms" and "map_of qms t = Some qs"
  shows "\<exists>q10 q90 p10 p90.
           map_of qs (1 / 10) = Some q10 \<and> map_of qs (9 / 10) = Some q90 \<and>
           lgbm_predict q10 X = Inr p10 \<and> lgbm_predict q90 X = Inr p90 \<and>
           map_of res' (t @ ''_q10'') = Some p10 \<and> map_of res' (t @ ''_q90'') = Some p90"
  using assms
proof (induction qms X ms res rule: predict_loop.induct)
  case (1 qms X res)
  then show ?case by simp
next
  case (2 qms X target model rest res)
  from "2.prems"(1) obtain p where p: "lgbm_predict model X = Inr p"
    by (auto split: sum.splits)
  have drest: "distinct (map fst rest)" and trest: "set (map fst rest) \<subseteq> set targets"
    and fresh: "target \<notin> fst ` set rest"
    using "2.prems"(2,3) by auto
  show ?case
  proof (cases "(t, m) \<in> set rest")
    case True
    show ?thesis
    proof (cases "map_of qms target")
      case None
      with "2.prems"(1) p have "predict_loop qms X rest (AList.update target p res) = Inr res'"
        by simp
      from "2.IH"(1) [OF p None this drest trest True "2.prems"(5)] show ?thesis .
    next
      case (Some qs')
      with "2.prems"(1) p obtain q10 p10 q90 p90 where
        q: "map_of qs' (1 / 10) = Some q10" "lgbm_predict q10 X = Inr p10"
           "map_of qs' (9 / 10) = Some q90" "lgbm_predict q90 X = Inr p90"
        and loop: "predict_loop qms X rest
                     (AList.update (target @ ''_q90'') p90
                        (AList.update (target @ ''_q10'') p10 (AList.update target p res))) = Inr res'"
        by (auto split: sum.splits option.splits)
      from "2.IH"(2) [OF p Some q loop drest trest True "2.prems"(5)] show ?thesis .
    qed
  next
    case False
    with "2.prems"(4) have eq: "t = target" "m = model" by auto
    with "2.prems"(5) have qs: "map_of qms target = Some qs" by simp
    with "2.prems"(1) p obtain q10 p10 q90 p90 where
      q: "map_of qs (1 / 10) = Some q10" "lgbm_predict q10 X = Inr p10"
         "map_of qs (9 / 10) = Some q90" "lgbm_predict q90 X = Inr p90"
      and loop: "predict_loop qms X rest
                   (AList.update (target @ ''_q90'') p90
                      (AList.update (target @ ''_q10'') p10 (AList.update target p res))) = Inr res'"
      by (auto split: sum.splits option.splits)
    have untouched: "k \<noteq> t' \<and> k \<noteq> t' @ ''_q10'' \<and> k \<noteq> t' @ ''_q90''"
      if "(t', m') \<in> set rest" "k = target @ ''_q10'' \<or> k = target @ ''_q90''" for t' m' k
    proof -
      from that(1) trest have "t' \<in> set targets" by force
      from target_not_suffixed [OF this, of target]
      have a: "t' \<noteq> target @ ''_q10''" "t' \<noteq> target @ ''_q90''" by simp_all
      from that(1) fresh have "t' \<noteq> target" by force
      with a that(2) show ?thesis by auto
    qed
    have "map_of res' (target @ ''_q10'') =
          map_of (AList.update (target @ ''_q90'') p90
                    (AList.update (target @ ''_q10'') p10 (AList.update target p res)))
                 (target @ ''_q10'')"
      by (rule predict_loop_untouched [OF loop]) (use untouched in blast)
    then have r10: "map_of res' (target @ ''_q10'') = Some p10"
      by (simp add: update_conv')
    have "map_of res' (target @ ''_q90'') =
          map_of (AList.update (target @ ''_q90'') p90
                    (AList.update (target @ ''_q10'') p10 (AList.update target p res)))
                 (target @ ''_q90'')"
      by (rule predict_loop_untouched [OF loop]) (use untouched in blast)
    then have r90: "map_of res' (target @ ''_q90'') = Some p90"
      by (simp add: update_conv')
    from q r10 r90 eq show ?thesis by blast
  qed
qed

lemma predict_loop_keys:
  assumes "predict_loop qms X ms res = Inr res'"
  shows "fst ` set res \<union> fst ` set ms \<subseteq> fst ` set res'"
  using assms
proof (induction qms X ms res rule: predict_loop.induct)
  case (1 qms X res)
  then show ?case by simp
next
  case (2 qms X target model rest res)
  from "2.prems" obtain p where p: "lgbm_predict model X = Inr p"
    by (auto split: sum.splits)
  show ?case
  proof (cases "map_of qms target")
    case None
    with "2.prems" p have "predict_loop qms X rest (AList.update target p res) = Inr res'"
      by simp
    from "2.IH"(1) [OF p None this] show ?thesis by (auto simp: dom_update)
  next
    case (Some qs)
    with "2.prems" p obtain q10 p10 q90 p90 where
      q: "map_of qs (1 / 10) = Some q10" "lgbm_predict q10 X = Inr p10"
         "map_of qs (9 / 10) = Some q90" "lgbm_predict q90 X = Inr p90"
      and loop: "predict_loop qms X rest
                   (AList.update (target @ ''_q90'') p90
                      (AList.update (target @ ''_q10'') p10 (AList.update target p res))) = Inr res'"
      by (auto split: sum.splits option.splits)
    from "2.IH"(2) [OF p Some q loop] show ?thesis by (auto simp: dom_update)
  qed
qed

lemma weather_predict_has_point:
  assumes "weather_predict wp X = Inr res" and "k \<in> fst ` set (models wp)"
  shows "\<exists>v. map_of res k = Some v"
proof -
  from assms(1) obtain raw where raw: "predict_loop (quantile_models wp) X (models wp) [] = Inr raw"
    and res: "res = physical_constraints raw"
    by (auto simp: weather_predict_def split: sum.splits)
  from predict_loop_keys [OF raw] assms(2) have "k \<in> fst ` set raw" by auto
  then obtain v where v: "map_of raw k = Some v"
    by (metis domD dom_map_of_conv_image_fst)
  show ?thesis
  proof (cases "k = ''humidity'' \<or> k = ''wind_speed''")
    case True
    with v show ?thesis
      unfolding res by (auto simp: physical_constraints_humidity physical_constraints_wind_speed)
  next
    case False
    with v show ?thesis unfolding res by (simp add: physical_constraints_other)
  qed
qed

lemma rows_of_ex_X: "rows_of ex_X = [[Some 20]]"
  by (simp add: rows_of_def ex_X_def nrows_def)

lemma const_model_predict: "lgbm_predict (const_model v) ex_X = Inr [v]"
  by (simp add: lgbm_predict_def const_model_def rows_of_ex_X) (simp add: nrows_def columns_def ex_X_def)

lemma ex_weather_predict: "weather_predict ex_weather ex_X = Inr ex_weather_results"
  by (simp add: weather_predict_def ex_weather_def const_model_predict physical_constraints_def
      clip_def ex_weather_results_def)

text \<open>
  C7, as the code has it: the physical ranges hold for the point estimates. For every
  predictor state and every feature frame on which \<^verbatim>\<open>predict\<close> returns, the output
  keyed \<^verbatim>\<open>humidity\<close>, present whenever the predictor has a humidity model, has all
  its values in [0, 100], and the output keyed \<^verbatim>\<open>wind_speed\<close>, present whenever the
  predictor has a wind-speed model, has no negative value. The estimators are arbitrary
  functions of the row, so no input is excluded. The interval outputs of the two targets
  are outside this statement: they are not clipped.
\<close>

theorem weather_predict_physical_ranges:
  assumes "weather_predict wp X = Inr res"
  shows "(''humidity'' \<in> fst ` set (models wp) \<longrightarrow> (\<exists>h. map_of res ''humidity'' = Some h)) \<and>
         (''wind_speed'' \<in> fst ` set (models wp) \<longrightarrow> (\<exists>w. map_of res ''wind_speed'' = Some w)) \<and>
         (\<forall>h. map_of res ''humidity'' = Some h \<longrightarrow> (\<forall>v \<in> set h. 0 \<le> v \<and> v \<le> 100)) \<and>
         (\<forall>w. map_of res ''wind_speed'' = Some w \<longrightarrow> (\<forall>v \<in> set w. 0 \<le> v))"
  using weather_predict_ranges_aux [OF assms] weather_predict_has_point [OF assms]
  by blast

theorem weather_predict_physical_ranges_witness:
  "weather_predict ex_weather ex_X = Inr ex_weather_results \<and>
   ''humidity'' \<in> fst ` set (models ex_weather) \<and>
   ''wind_speed'' \<in> fst ` set (models ex_weather) \<and>
   map_of ex_weather_results ''humidity'' = Some [100] \<and>
   map_of ex_weather_results ''wind_speed'' = Some [0] \<and>
   (0 :: real) \<le> 100 \<and> (100 :: real) \<le> 100 \<and> (0 :: real) \<le> 0"
proof -
  have h: "map_of ex_weather_results ''humidity'' = Some [100]"
    and w: "map_of ex_weather_results ''wind_speed'' = Some [0]"
    by (simp_all add: ex_weather_results_def)
  have m: "''humidity'' \<in> fst ` set (models ex_weather)"
    "''wind_speed'' \<in> fst ` set (models ex_weather)"
    by (simp_all add: ex_weather_def)
  note r = weather_predict_physical_ranges [OF ex_weather_predict]
  note rh = r [THEN conjunct2, THEN conjunct2, THEN conjunct1, rule_format, OF h]
  note rw = r [THEN conjunct2, THEN conjunct2, THEN conjunct2, rule_format, OF w]
  have rh': "(0 :: real) \<le> 100 \<and> (100 :: real) \<le> 100" using rh [of 100] by simp
  have rw': "(0 :: real) \<le> 0" using rw [of 0] by simp
  from ex_weather_predict h w m rh' rw' show ?thesis by simp
qed

text \<open>
  C7 as stated fails for the interval outputs of humidity and wind speed. On a
  predictor whose humidity quantile models return -5 and 120 and whose lower wind-speed
  quantile model returns -2, \<^verbatim>\<open>predict\<close> returns a humidity interval from -5 to 120
  around the clipped point estimate 100, and a wind-speed interval that starts at -2
  below the clipped point estimate 0.
\<close>

theorem weather_interval_outputs_outside_physical_ranges:
  "weather_predict ex_weather ex_X = Inr ex_weather_results \<and>
   map_of ex_weather_results ''humidity'' = Some [100] \<and>
   map_of ex_weather_results ''humidity_q10'' = Some [- 5] \<and>
   map_of ex_weather_results ''humidity_q90'' = Some [120] \<and>
   map_of ex_weather_results ''wind_speed'' = Some [0] \<and>
   map_of ex_weather_results ''wind_speed_q10'' = Some [- 2] \<and>
   (- 5 :: real) < 0 \<and> (100 :: real) < 120 \<and> (- 2 :: real) < 0"
  using ex_weather_predict by (simp add: ex_weather_results_def)

text \<open>
  C10. The physical constraints touch the two keys \<^verbatim>\<open>humidity\<close> and
  \<^verbatim>\<open>wind_speed\<close> only: every other key of the result holds what the loop stored. For
  a predictor whose model names are distinct and among the four targets, the keys
  \<^verbatim>\<open><target>_q10\<close> and \<^verbatim>\<open><target>_q90\<close> hold the predictions of the quantile
  models as they are. So there are a predictor and an input with a humidity interval
  bound below 0, one above 100, and a negative wind-speed interval bound.
\<close>

theorem weather_predict_intervals_unclipped:
  "(\<forall>wp X res. weather_predict wp X = Inr res \<longrightarrow>
      (\<exists>raw. predict_loop (quantile_models wp) X (models wp) [] = Inr raw \<and>
         (\<forall>k. k \<noteq> ''humidity'' \<and> k \<noteq> ''wind_speed'' \<longrightarrow> map_of res k = map_of raw k))) \<and>
   (\<forall>wp X res t m qs.
      weather_predict wp X = Inr res \<and> distinct (map fst (models wp)) \<and>
      set (map fst (models wp)) \<subseteq> set targets \<and>
      (t, m) \<in> set (models wp) \<and> map_of (quantile_models wp) t = Some qs \<longrightarrow>
      (\<exists>q10 q90 p10 p90.
         map_of qs (1 / 10) = Some q10 \<and> map_of qs (9 / 10) = Some q90 \<and>
         lgbm_predict q10 X = Inr p10 \<and> lgbm_predict q90 X = Inr p90 \<and>
         map_of res (t @ ''_q10'') = Some p10 \<and> map_of res (t @ ''_q90'') = Some p90)) \<and>
   (\<exists>wp X res lo hi w.
      weather_predict wp X = Inr res \<and> distinct (map fst (models wp)) \<and>
      set (map fst (models wp)) \<subseteq> set targets \<and>
      map_of res ''humidity_q10'' = Some lo \<and> (\<exists>v \<in> set lo. v < 0) \<and>
      map_of res ''humidity_q90'' = Some hi \<and> (\<exists>v \<in> set hi. 100 < v) \<and>
      map_of res ''wind_speed_q10'' = Some w \<and> (\<exists>v \<in> set w. v < 0))"
proof (intro conjI allI impI)
  fix wp X res
  assume "weather_predict wp X = Inr res"
  then obtain raw where raw: "predict_loop (quantile_models wp) X (models wp) [] = Inr raw"
    and res: "res = physical_constraints raw"
    by (auto simp: weather_predict_def split: sum.splits)
  then show "\<exists>raw. predict_loop (quantile_models wp) X (models wp) [] = Inr raw \<and>
         (\<forall>k. k \<noteq> ''humidity'' \<and> k \<noteq> ''wind_speed'' \<longrightarrow> map_of res k = map_of raw k)"
    by (auto simp: physical_constraints_other)
next
  fix wp X res t m qs
  assume a: "weather_predict wp X = Inr res \<and> distinct (map fst (models wp)) \<and>
      set (map fst (models wp)) \<subseteq> set targets \<and>
      (t, m) \<in> set (models wp) \<and> map_of (quantile_models wp) t = Some qs"
  then obtain raw where raw: "predict_loop (quantile_models wp) X (models wp) [] = Inr raw"
    and res: "res = physical_constraints raw"
    by (auto simp: weather_predict_def split: sum.splits)
  from a have "distinct (map fst (models wp))" "set (map fst (models wp)) \<subseteq> set targets"
    "(t, m) \<in> set (models wp)" "map_of (quantile_models wp) t = Some qs"
    by simp_all
  from predict_loop_quantiles [OF raw this] obtain q10 q90 p10 p90 where
    q: "map_of qs (1 / 10) = Some q10" "map_of qs (9 / 10) = Some q90"
       "lgbm_predict q10 X = Inr p10" "lgbm_predict q90 X = Inr p90"
       "map_of raw (t @ ''_q10'') = Some p10" "map_of raw (t @ ''_q90'') = Some p90"
    by blast
  have ne: "t @ ''_q10'' \<noteq> ''humidity''" "t @ ''_q10'' \<noteq> ''wind_speed''"
    "t @ ''_q90'' \<noteq> ''humidity''" "t @ ''_q90'' \<noteq> ''wind_speed''"
    using target_not_suffixed [of "''humidity''" t] target_not_suffixed [of "''wind_speed''" t]
    by (simp_all add: targets_def)
  with q show "\<exists>q10 q90 p10 p90.
         map_of qs (1 / 10) = Some q10 \<and> map_of qs (9 / 10) = Some q90 \<and>
         lgbm_predict q10 X = Inr p10 \<and> lgbm_predict q90 X = Inr p90 \<and>
         map_of res (t @ ''_q10'') = Some p10 \<and> map_of res (t @ ''_q90'') = Some p90"
    unfolding res by (simp add: physical_constraints_other)
next
  have "weather_predict ex_weather ex_X = Inr ex_weather_results \<and>
      distinct (map fst (models ex_weather)) \<and>
      set (map fst (models ex_weather)) \<subseteq> set targets \<and>
      map_of ex_weather_results ''humidity_q10'' = Some [- 5] \<and> (\<exists>v \<in> set [- 5 :: real]. v < 0) \<and>
      map_of ex_weather_results ''humidity_q90'' = Some [120] \<and> (\<exists>v \<in> set [120 :: real]. 100 < v) \<and>
      map_of ex_weather_results ''wind_speed_q10'' = Some [- 2] \<and> (\<exists>v \<in> set [- 2 :: real]. v < 0)"
    by (simp add: ex_weather_predict) (simp add: ex_weather_def ex_weather_results_def targets_def)
  then show "\<exists>wp X res lo hi w.
      weather_predict wp X = Inr res \<and> distinct (map fst (models wp)) \<and>
      set (map fst (models wp)) \<subseteq> set targets \<and>
      map_of res ''humidity_q10'' = Some lo \<and> (\<exists>v \<in> set lo. v < 0) \<and>
      map_of res ''humidity_q90'' = Some hi \<and> (\<exists>v \<in> set hi. 100 < v) \<and>
      map_of res ''wind_speed_q10'' = Some w \<and> (\<exists>v \<in> set w. v < 0)"
    by blast
qed

theorem weather_predict_intervals_unclipped_witness:
  "weather_predict ex_weather ex_X = Inr ex_weather_results \<and>
   distinct (map fst (models ex_weather)) \<and> set (map fst (models ex_weather)) \<subseteq> set targets \<and>
   (''humidity'', const_model 150) \<in> set (models ex_weather) \<and>
   map_of (quantile_models ex_weather) ''humidity'' =
     Some [(1 / 10, const_model (- 5)), (9 / 10, const_model 120)] \<and>
   map_of ex_weather_results ''humidity_q10'' = Some [- 5] \<and>
   map_of ex_weather_results ''humidity_q90'' = Some [120]"
proof -
  have pre: "weather_predict ex_weather ex_X = Inr ex_weather_results \<and>
    distinct (map fst (models ex_weather)) \<and>
    set (map fst (models ex_weather)) \<subseteq> set targets \<and>
    (''humidity'', const_model 150) \<in> set (models ex_weather) \<and>
    map_of (quantile_models ex_weather) ''humidity'' =
       Some [(1 / 10, const_model (- 5)), (9 / 10, const_model 120)]"
    by (intro conjI ex_weather_predict) (simp_all add: ex_weather_def targets_def)
  note u = weather_predict_intervals_unclipped [THEN conjunct2, THEN conjunct1, rule_format, OF pre]
  then obtain q10 q90 p10 p90 where
    q: "map_of [(1 / 10, const_model (- 5)), (9 / 10 :: real, const_model 120)] (1 / 10) = Some q10"
       "map_of [(1 / 10, const_model (- 5)), (9 / 10 :: real, const_model 120)] (9 / 10) = Some q90"
       "lgbm_predict q10 ex_X = Inr p10" "lgbm_predict q90 ex_X = Inr p90"
       "map_of ex_weather_results (''humidity'' @ ''_q10'') = Some p10"
       "map_of ex_weather_results (''humidity'' @ ''_q90'') = Some p90"
    by (elim exE conjE)
  from q(1,2) have "q10 = const_model (- 5)" "q90 = const_model 120" by simp_all
  with q(3,4) have "p10 = [- 5]" "p90 = [120]" by (simp_all add: const_model_predict)
  with q(5,6) have "map_of ex_weather_results ''humidity_q10'' = Some [- 5]"
    "map_of ex_weather_results ''humidity_q90'' = Some [120]" by simp_all
  with pre show ?thesis by simp
qed

section \<open>Properties of PrecipitationPredictor\<close>

lemma sigmoid_range: "0 \<le> sigmoid x \<and> sigmoid x \<le> 1"
proof -
  have "0 < exp (- x)" by simp
  then have "0 < 1 + exp (- x)" by (simp add: add_pos_pos)
  then show ?thesis by (simp add: sigmoid_def divide_le_eq_1)
qed

lemma sigmoid_0: "sigmoid 0 = 1 / 2"
  by (simp add: sigmoid_def)

lemma isotonic_predict_range:
  "length (isotonic_predict c ps) = length ps \<and> (\<forall>p \<in> set (isotonic_predict c ps). 0 \<le> p \<and> p \<le> 1)"
  by (auto simp: isotonic_predict_def)

lemma predict_proba1_range:
  assumes "predict_proba1 m X = Inr ps"
  shows "length ps = nrows X \<and> (\<forall>p \<in> set ps. 0 \<le> p \<and> p \<le> 1)"
proof -
  from assms obtain g raw where "m = Some g" "lgbm_predict g X = Inr raw" "ps = map sigmoid raw"
    by (auto simp: predict_proba1_def estimator_predict_def split: sum.splits option.splits)
  then show ?thesis
    by (auto simp: sigmoid_range lgbm_predict_def rows_of_def split: if_splits)
qed

lemma quantile_key_not_base:
  "quantile_key alpha \<noteq> ''precip_probability''"
  "quantile_key alpha \<noteq> ''precip_expected_mm''"
  "quantile_key alpha \<noteq> ''precip_if_rain_mm''"
  by (simp_all add: quantile_key_def)

lemma quantile_loop_base:
  assumes "quantile_loop X prob qms res = Inr res'" and "\<And>alpha. k \<noteq> quantile_key alpha"
  shows "map_of res' k = map_of res k"
  using assms(1)
proof (induction X prob qms res rule: quantile_loop.induct)
  case (1 X prob res)
  then show ?case by simp
next
  case (2 X prob alpha qmodel rest res)
  from "2.prems" obtain qp where qp: "lgbm_predict qmodel X = Inr qp"
    and loop: "quantile_loop X prob rest
                 (AList.update (quantile_key alpha)
                    (map2 (\<lambda>q p. q * p) (map (\<lambda>v. max v 0) qp) prob) res) = Inr res'"
    by (auto split: sum.splits)
  from "2.IH" [OF qp loop] assms(2) [of alpha] show ?case by (simp add: update_conv')
qed

lemma quantile_loop_entries:
  assumes "quantile_loop X prob qms res = Inr res'" and "map_of res' k = Some band"
  shows "map_of res k = Some band \<or>
         (\<exists>alpha q qp. (alpha, q) \<in> set qms \<and> k = quantile_key alpha \<and> lgbm_predict q X = Inr qp \<and>
            band = map2 (\<lambda>q p. q * p) (map (\<lambda>v. max v 0) qp) prob)"
  using assms
proof (induction X prob qms res rule: quantile_loop.induct)
  case (1 X prob res)
  then show ?case by simp
next
  case (2 X prob alpha qmodel rest res)
  let ?v = "\<lambda>qp. map2 (\<lambda>q p. q * p) (map (\<lambda>v. max v 0) qp) prob"
  from "2.prems"(1) obtain qp where qp: "lgbm_predict qmodel X = Inr qp"
    and loop: "quantile_loop X prob rest (AList.update (quantile_key alpha) (?v qp) res) = Inr res'"
    by (auto split: sum.splits)
  from "2.IH" [OF qp loop "2.prems"(2)]
  consider (here) "map_of (AList.update (quantile_key alpha) (?v qp) res) k = Some band"
    | (later) "\<exists>alpha q qp. (alpha, q) \<in> set rest \<and> k = quantile_key alpha \<and> lgbm_predict q X = Inr qp \<and>
            band = ?v qp"
    by blast
  then show ?case
  proof cases
    case here
    show ?thesis
    proof (cases "k = quantile_key alpha")
      case True
      with here have "band = ?v qp" by (simp add: update_conv')
      with True qp show ?thesis by auto
    next
      case False
      with here show ?thesis by (simp add: update_conv')
    qed
  next
    case later
    then show ?thesis by auto
  qed
qed

lemma quantile_loop_keys:
  assumes "quantile_loop X prob qms res = Inr res'"
  shows "fst ` set res \<union> quantile_key ` fst ` set qms \<subseteq> fst ` set res'"
  using assms
proof (induction X prob qms res rule: quantile_loop.induct)
  case (1 X prob res)
  then show ?case by simp
next
  case (2 X prob alpha qmodel rest res)
  from "2.prems" obtain qp where qp: "lgbm_predict qmodel X = Inr qp"
    and loop: "quantile_loop X prob rest
                 (AList.update (quantile_key alpha)
                    (map2 (\<lambda>q p. q * p) (map (\<lambda>v. max v 0) qp) prob) res) = Inr res'"
    by (auto split: sum.splits)
  from "2.IH" [OF qp loop] show ?case by (auto simp: dom_update)
qed

lemma band_rows:
  assumes "length qp = n" and "length prob = n" and "\<forall>p \<in> set prob. 0 \<le> (p :: real)"
    and "band = map2 (\<lambda>q p. q * p) (map (\<lambda>v. max v 0) qp) prob"
  shows "length band = n \<and> (\<forall>i < n. band ! i = max (qp ! i) 0 * prob ! i \<and> 0 \<le> band ! i)"
proof -
  have len: "length band = n" using assms by simp
  have "band ! i = max (qp ! i) 0 * prob ! i \<and> 0 \<le> band ! i" if "i < n" for i
  proof -
    have eq: "band ! i = max (qp ! i) 0 * prob ! i" using that assms by simp
    have "0 \<le> prob ! i" using that assms by simp
    moreover have "0 \<le> max (qp ! i) 0" by simp
    ultimately show ?thesis using eq by simp
  qed
  with len show ?thesis by blast
qed

lemma precip_predict_unfold:
  assumes "precip_predict pp X = Inr res"
  obtains raw_probs raw_amount where
    "predict_proba1 (classifier pp) X = Inr raw_probs"
    "estimator_predict (regressor pp) X = Inr raw_amount"
    "quantile_loop X
       (case calibrator pp of Some c \<Rightarrow> isotonic_predict c raw_probs | None \<Rightarrow> raw_probs)
       (pp_quantile_models pp)
       [(''precip_probability'',
           (case calibrator pp of Some c \<Rightarrow> isotonic_predict c raw_probs | None \<Rightarrow> raw_probs)),
        (''precip_expected_mm'',
           map2 (\<lambda>p a. p * a)
             (case calibrator pp of Some c \<Rightarrow> isotonic_predict c raw_probs | None \<Rightarrow> raw_probs)
             (map (\<lambda>v. max v 0) raw_amount)),
        (''precip_if_rain_mm'', map (\<lambda>v. max v 0) raw_amount)] = Inr res"
  using assms
  by (auto simp: precip_predict_def Let_def split: sum.splits)

text \<open>
  C2. For every predictor state and every feature frame on which \<^verbatim>\<open>predict\<close>
  returns: the result holds the probability (the calibrator's output when there is a
  calibrator), the amount given rain (the regressor's prediction floored at zero) and the
  expected amount, one value per row, and in every row the expected amount is the
  probability times the amount given rain. Every quantile model has a band in the result;
  every other key of the result is such a band, and in every row it is the quantile
  model's prediction floored at zero, times the probability, hence not negative.
\<close>

theorem precip_predict_composition:
  assumes "precip_predict pp X = Inr res"
  shows "\<exists>prob amount expected.
      map_of res ''precip_probability'' = Some prob \<and>
      map_of res ''precip_if_rain_mm'' = Some amount \<and>
      map_of res ''precip_expected_mm'' = Some expected \<and>
      length prob = nrows X \<and> length amount = nrows X \<and> length expected = nrows X \<and>
      (\<forall>c. calibrator pp = Some c \<longrightarrow>
         (\<exists>raw. predict_proba1 (classifier pp) X = Inr raw \<and> prob = isotonic_predict c raw)) \<and>
      (\<exists>raw_amount. estimator_predict (regressor pp) X = Inr raw_amount \<and>
         amount = map (\<lambda>v. max v 0) raw_amount) \<and>
      (\<forall>i < nrows X. expected ! i = prob ! i * amount ! i) \<and>
      (\<forall>(alpha, qmodel) \<in> set (pp_quantile_models pp).
         \<exists>band. map_of res (quantile_key alpha) = Some band) \<and>
      (\<forall>k band. map_of res k = Some band \<and> k \<noteq> ''precip_probability'' \<and>
           k \<noteq> ''precip_expected_mm'' \<and> k \<noteq> ''precip_if_rain_mm'' \<longrightarrow>
         (\<exists>alpha qmodel qp. (alpha, qmodel) \<in> set (pp_quantile_models pp) \<and>
            k = quantile_key alpha \<and> lgbm_predict qmodel X = Inr qp \<and> length band = nrows X \<and>
            (\<forall>i < nrows X. band ! i = max (qp ! i) 0 * prob ! i \<and> 0 \<le> band ! i)))"
proof -
  from assms obtain raw_probs raw_amount where
    rp: "predict_proba1 (classifier pp) X = Inr raw_probs"
    and ra: "estimator_predict (regressor pp) X = Inr raw_amount"
    and loop: "quantile_loop X
       (case calibrator pp of Some c \<Rightarrow> isotonic_predict c raw_probs | None \<Rightarrow> raw_probs)
       (pp_quantile_models pp)
       [(''precip_probability'',
           (case calibrator pp of Some c \<Rightarrow> isotonic_predict c raw_probs | None \<Rightarrow> raw_probs)),
        (''precip_expected_mm'',
           map2 (\<lambda>p a. p * a)
             (case calibrator pp of Some c \<Rightarrow> isotonic_predict c raw_probs | None \<Rightarrow> raw_probs)
             (map (\<lambda>v. max v 0) raw_amount)),
        (''precip_if_rain_mm'', map (\<lambda>v. max v 0) raw_amount)] = Inr res"
    by (rule precip_predict_unfold)
  define prob where
    "prob = (case calibrator pp of Some c \<Rightarrow> isotonic_predict c raw_probs | None \<Rightarrow> raw_probs)"
  define amount where "amount = map (\<lambda>v. max v 0) raw_amount"
  define expected where "expected = map2 (\<lambda>p a. p * a) prob amount"
  define init where
    "init = [(''precip_probability'', prob), (''precip_expected_mm'', expected),
             (''precip_if_rain_mm'', amount)]"
  from loop have loop': "quantile_loop X prob (pp_quantile_models pp) init = Inr res"
    by (simp add: prob_def amount_def expected_def init_def)
  have raw_range: "length raw_probs = nrows X" "\<forall>p \<in> set raw_probs. 0 \<le> p \<and> p \<le> 1"
    using predict_proba1_range [OF rp] by simp_all
  have prob_len: "length prob = nrows X"
    using raw_range(1) isotonic_predict_range by (simp add: prob_def split: option.splits)
  have prob_nonneg: "\<forall>p \<in> set prob. 0 \<le> p"
    using raw_range(2) isotonic_predict_range by (auto simp: prob_def split: option.splits)
  have amount_len: "length amount = nrows X"
  proof -
    from ra obtain g where "regressor pp = Some g" "lgbm_predict g X = Inr raw_amount"
      by (auto simp: estimator_predict_def split: option.splits)
    then show ?thesis by (simp add: amount_def length_lgbm_predict)
  qed
  have expected_len: "length expected = nrows X"
    by (simp add: expected_def prob_len amount_len)
  have base: "map_of res ''precip_probability'' = Some prob"
    "map_of res ''precip_if_rain_mm'' = Some amount"
    "map_of res ''precip_expected_mm'' = Some expected"
    using quantile_loop_base [OF loop', of "''precip_probability''"]
      quantile_loop_base [OF loop', of "''precip_if_rain_mm''"]
      quantile_loop_base [OF loop', of "''precip_expected_mm''"]
      quantile_key_not_base
    by (simp_all add: init_def) metis+
  have cal: "\<forall>c. calibrator pp = Some c \<longrightarrow>
         (\<exists>raw. predict_proba1 (classifier pp) X = Inr raw \<and> prob = isotonic_predict c raw)"
    using rp by (simp add: prob_def)
  have amt: "\<exists>raw_amount. estimator_predict (regressor pp) X = Inr raw_amount \<and>
         amount = map (\<lambda>v. max v 0) raw_amount"
    using ra by (simp add: amount_def)
  have rows: "\<forall>i < nrows X. expected ! i = prob ! i * amount ! i"
    by (simp add: expected_def prob_len amount_len)
  have all_keys: "\<forall>(alpha, qmodel) \<in> set (pp_quantile_models pp).
         \<exists>band. map_of res (quantile_key alpha) = Some band"
  proof (clarify)
    fix alpha qmodel assume "(alpha, qmodel) \<in> set (pp_quantile_models pp)"
    then have "quantile_key alpha \<in> quantile_key ` fst ` set (pp_quantile_models pp)" by force
    with quantile_loop_keys [OF loop'] have "quantile_key alpha \<in> fst ` set res" by blast
    then show "\<exists>band. map_of res (quantile_key alpha) = Some band"
      by (metis domD dom_map_of_conv_image_fst)
  qed
  have bands: "\<exists>alpha qmodel qp. (alpha, qmodel) \<in> set (pp_quantile_models pp) \<and>
            k = quantile_key alpha \<and> lgbm_predict qmodel X = Inr qp \<and> length band = nrows X \<and>
            (\<forall>i < nrows X. band ! i = max (qp ! i) 0 * prob ! i \<and> 0 \<le> band ! i)"
    if k: "map_of res k = Some band" "k \<noteq> ''precip_probability''"
      "k \<noteq> ''precip_expected_mm''" "k \<noteq> ''precip_if_rain_mm''" for k band
  proof -
    from k(2-4) have "map_of init k = None" by (simp add: init_def)
    with quantile_loop_entries [OF loop' k(1)] obtain alpha q qp where
      e: "(alpha, q) \<in> set (pp_quantile_models pp)" "k = quantile_key alpha"
         "lgbm_predict q X = Inr qp"
         "band = map2 (\<lambda>q p. q * p) (map (\<lambda>v. max v 0) qp) prob"
      by auto
    from band_rows [OF length_lgbm_predict [OF e(3)] prob_len prob_nonneg e(4)] e(1-3)
    show ?thesis by blast
  qed
  show ?thesis
    apply (rule exI [of _ prob], rule exI [of _ amount], rule exI [of _ expected])
    apply (intro conjI base prob_len amount_len expected_len cal amt rows all_keys)
    using bands by blast
qed

lemma quantile_key_10_90:
  "quantile_key (1 / 10) = ''precip_q10_mm''" "quantile_key (9 / 10) = ''precip_q90_mm''"
  by (simp_all add: quantile_key_def py_int_def format_02d_def digit_char_def)

lemma ex_precip_predict: "precip_predict ex_precip ex_X = Inr ex_precip_results"
  by (simp add: precip_predict_def ex_precip_def predict_proba1_def estimator_predict_def
      const_model_predict sigmoid_0 isotonic_predict_def quantile_key_10_90 ex_precip_results_def)

theorem precip_predict_composition_witness:
  "precip_predict ex_precip ex_X = Inr ex_precip_results \<and>
   map_of ex_precip_results ''precip_probability'' = Some [1 / 2] \<and>
   map_of ex_precip_results ''precip_if_rain_mm'' = Some [4] \<and>
   map_of ex_precip_results ''precip_expected_mm'' = Some [2] \<and>
   [2 :: real] ! 0 = [1 / 2] ! 0 * [4] ! 0 \<and>
   (1 / 10, const_model (- 1)) \<in> set (pp_quantile_models ex_precip) \<and>
   map_of ex_precip_results (quantile_key (1 / 10)) = Some [0] \<and>
   [0 :: real] ! 0 = max ([- 1] ! 0) 0 * [1 / 2] ! 0"
proof -
  from precip_predict_composition [OF ex_precip_predict]
  obtain prob amount expected where
    m: "map_of ex_precip_results ''precip_probability'' = Some prob"
       "map_of ex_precip_results ''precip_if_rain_mm'' = Some amount"
       "map_of ex_precip_results ''precip_expected_mm'' = Some expected"
    and rows: "\<forall>i < nrows ex_X. expected ! i = prob ! i * amount ! i"
    by (elim exE conjE)
  from m have v: "prob = [1 / 2]" "amount = [4]" "expected = [2]"
    by (simp_all add: ex_precip_results_def)
  have "0 < nrows ex_X" by (simp add: nrows_def ex_X_def)
  with rows v have r: "[2 :: real] ! 0 = [1 / 2] ! 0 * [4] ! 0" by blast
  have q: "(1 / 10, const_model (- 1)) \<in> set (pp_quantile_models ex_precip)"
    "map_of ex_precip_results (quantile_key (1 / 10)) = Some [0]"
    by (simp_all add: ex_precip_def ex_precip_results_def quantile_key_10_90)
  from m v r q ex_precip_predict show ?thesis by simp
qed

lemma precip_predict_unfitted:
  assumes "regressor pp = None"
  shows "(\<exists>e. precip_predict pp X = Inl e) \<and>
         (\<forall>raw. predict_proba1 (classifier pp) X = Inr raw \<longrightarrow> precip_predict pp X = Inl NotFittedError)"
  using assms
  by (auto simp: precip_predict_def estimator_predict_def Let_def split: sum.splits)

lemma lgbm_fit_feature_name:
  assumes "lgbm_fit tk obj early_stopping X y ev = Inr g"
  shows "feature_name g = columns X"
  using assms by (auto simp: lgbm_fit_def split: if_splits option.splits)

lemma precip_stage2_state:
  assumes "precip_stage2 tk pp X_train y_train X_val y_val = Inr pp'"
  shows "classifier pp' = classifier pp \<and> calibrator pp' = calibrator pp \<and>
         (\<not> 100 < mask_sum (map is_rain y_train) \<longrightarrow> pp' = pp) \<and>
         (100 < mask_sum (map is_rain y_train) \<longrightarrow>
            (\<exists>reg qm.
               lgbm_fit tk Tweedie True
                 (mask_rows (map is_rain y_train) X_train)
                 (mask_list (map is_rain y_train) y_train)
                 (if mask_sum (map is_rain y_val) > 10
                  then Some (mask_rows (map is_rain y_val) X_val,
                             mask_list (map is_rain y_val) y_val)
                  else None) = Inr reg \<and>
               fit_quantiles tk
                 (mask_rows (map is_rain y_train) X_train)
                 (mask_list (map is_rain y_train) y_train)
                 (pp_quantile_models pp) precip_alphas = Inr qm \<and>
               pp' = pp\<lparr>regressor := Some reg, pp_quantile_models := qm\<rparr>))"
  using assms
  by (auto simp: precip_stage2_def Let_def split: if_splits sum.splits)

lemma precip_train_state:
  assumes "precip_train tk pp X_train y_train X_val y_val = Inr (pp', scores, out)"
  shows "\<exists>clf cal.
           lgbm_fit tk Binary True X_train (map rain_label y_train)
             (Some (X_val, map rain_label y_val)) = Inr clf \<and>
           precip_stage2 tk (pp\<lparr>classifier := Some clf, calibrator := Some cal\<rparr>)
             X_train y_train X_val y_val = Inr pp'"
  using assms
  by (auto simp: precip_train_def Let_def split: sum.splits)

lemma precip_train_skipped:
  assumes "precip_train tk precip_init X_train y_train X_val y_val = Inr (pp, scores, out)"
    and "\<not> 100 < mask_sum (map is_rain y_train)"
  shows "regressor pp = None \<and> pp_quantile_models pp = [] \<and>
         (\<exists>clf. classifier pp = Some clf \<and> feature_name clf = columns X_train)"
proof -
  from precip_train_state [OF assms(1)] obtain clf cal where
    clf: "lgbm_fit tk Binary True X_train (map rain_label y_train)
            (Some (X_val, map rain_label y_val)) = Inr clf"
    and st: "precip_stage2 tk (precip_init\<lparr>classifier := Some clf, calibrator := Some cal\<rparr>)
               X_train y_train X_val y_val = Inr pp"
    by (elim exE conjE)
  from precip_stage2_state [OF st] assms(2)
  have "pp = precip_init\<lparr>classifier := Some clf, calibrator := Some cal\<rparr>" by simp
  with lgbm_fit_feature_name [OF clf] show ?thesis by (simp add: precip_init_def)
qed

lemma predict_proba1_fitted:
  assumes "length (columns X) = length (feature_name g)" and "0 < nrows X"
  shows "\<exists>raw. predict_proba1 (Some g) X = Inr raw"
  using assms by (simp add: predict_proba1_def estimator_predict_def lgbm_predict_def)

lemma predict_proba1_no_rows:
  assumes "nrows X = 0"
  shows "predict_proba1 (Some g) X = Inl ValueError"
  using assms by (simp add: predict_proba1_def estimator_predict_def lgbm_predict_def)

text \<open>
  C9. \<^verbatim>\<open>predict\<close> calls the regressor whatever the state: a prediction that returns
  has a fitted regressor; with a never-fitted regressor it raises, with NotFittedError
  once the classifier has produced its probabilities. Training a fresh predictor under a
  rain mask that fails the guard of stage 2 leaves the regressor unfitted, and the trained
  predictor then raises on every frame of the training width: NotFittedError, from the
  regressor, when the frame has a row, and ValueError, from the classifier, when it has
  none.
\<close>

theorem precip_predict_needs_regressor:
  "(\<forall>pp X res. precip_predict pp X = Inr res \<longrightarrow> regressor pp \<noteq> None) \<and>
   (\<forall>pp X. regressor pp = None \<longrightarrow>
      (\<exists>e. precip_predict pp X = Inl e) \<and>
      (\<forall>raw. predict_proba1 (classifier pp) X = Inr raw \<longrightarrow>
         precip_predict pp X = Inl NotFittedError)) \<and>
   (\<forall>tk X_train y_train X_val y_val pp scores out X.
      precip_train tk precip_init X_train y_train X_val y_val = Inr (pp, scores, out) \<and>
      \<not> 100 < mask_sum (map is_rain y_train) \<longrightarrow>
      regressor pp = None \<and>
      (length (columns X) = length (columns X_train) \<longrightarrow>
         precip_predict pp X = Inl (if nrows X = 0 then ValueError else NotFittedError)))"
proof (intro conjI allI impI)
  fix pp X res
  assume "precip_predict pp X = Inr res"
  then show "regressor pp \<noteq> None"
    using precip_predict_unfitted [of pp X] by auto
next
  fix pp :: precipitation_predictor and X
  assume "regressor pp = None"
  from precip_predict_unfitted [OF this, of X]
  show "\<exists>e. precip_predict pp X = Inl e" by simp
next
  fix pp :: precipitation_predictor and X raw
  assume "regressor pp = None" "predict_proba1 (classifier pp) X = Inr raw"
  with precip_predict_unfitted [of pp X]
  show "precip_predict pp X = Inl NotFittedError" by simp
next
  fix tk X_train y_train X_val y_val pp scores out and X :: frame
  assume a: "precip_train tk precip_init X_train y_train X_val y_val = Inr (pp, scores, out) \<and>
      \<not> 100 < mask_sum (map is_rain y_train)"
  from precip_train_skipped [OF a [THEN conjunct1] a [THEN conjunct2]]
  show "regressor pp = None" by simp
next
  fix tk X_train y_train X_val y_val pp scores out and X :: frame
  assume a: "precip_train tk precip_init X_train y_train X_val y_val = Inr (pp, scores, out) \<and>
      \<not> 100 < mask_sum (map is_rain y_train)"
    and len: "length (columns X) = length (columns X_train)"
  from precip_train_skipped [OF a [THEN conjunct1] a [THEN conjunct2]]
  obtain clf where none: "regressor pp = None" and clf: "classifier pp = Some clf"
    and fn: "feature_name clf = columns X_train"
    by (elim exE conjE)
  show "precip_predict pp X = Inl (if nrows X = 0 then ValueError else NotFittedError)"
  proof (cases "nrows X = 0")
    case True
    with predict_proba1_no_rows [OF True, of clf] clf show ?thesis
      by (simp add: precip_predict_def)
  next
    case False
    with len fn have "\<exists>raw. predict_proba1 (classifier pp) X = Inr raw"
      unfolding clf by (intro predict_proba1_fitted) simp_all
    with precip_predict_unfitted [OF none, of X] False show ?thesis by auto
  qed
qed

lemma rain_labels_ex:
  "map rain_label ex_y101 = replicate 100 (Some 1) @ [Some 0]"
  "map rain_label ex_y_val = [Some 1, Some 0]"
  by (simp_all add: ex_y101_def ex_y_val_def rain_label_def is_rain_def PRECIP_THRESHOLD_MM_def)

lemma mask_sum_ex_y101: "mask_sum (map is_rain ex_y101) = 100"
  by (simp add: mask_sum_def ex_y101_def is_rain_def PRECIP_THRESHOLD_MM_def)

lemma mask_sum_ex_y_val: "mask_sum (map is_rain ex_y_val) = 1"
  by (simp add: mask_sum_def ex_y_val_def is_rain_def PRECIP_THRESHOLD_MM_def)

lemma ex_classifier_fit:
  "lgbm_fit ex_toolkit Binary True ex_X101 (map rain_label ex_y101)
     (Some (ex_X_val, map rain_label ex_y_val)) = Inr (const_model 0)"
  by (simp add: lgbm_fit_def eval_set_refused_def rain_labels_ex ex_toolkit_def const_model_def
      nrows_def columns_def ex_X_val_def ex_X101_def)

lemma ex_classifier_proba:
  "predict_proba1 (Some (const_model 0)) ex_X_val = Inr [1 / 2, 1 / 2]"
  by (simp add: predict_proba1_def estimator_predict_def lgbm_predict_def const_model_def
      rows_of_def nrows_def columns_def ex_X_val_def sigmoid_0 upt_conv_Cons)

lemma ex_train_skipped:
  "precip_train ex_toolkit precip_init ex_X101 ex_y101 ex_X_val ex_y_val =
     Inr (ex_skipped, [(''brier'', 0), (''auc'', 0)], [PrecipClassification 0 0])"
proof -
  have iso: "isotonic_fit ex_toolkit ps ys = Inr \<lparr>iso_fn = (\<lambda>p. p)\<rparr>" for ps ys
    by (simp add: isotonic_fit_def ex_toolkit_def)
  have st2: "precip_stage2 ex_toolkit pp ex_X101 ex_y101 ex_X_val ex_y_val = Inr pp" for pp
    by (simp add: precip_stage2_def mask_sum_ex_y101)
  have sc: "score (brier_score_loss ex_toolkit ys ps) = Inr 0"
    "score (roc_auc_score ex_toolkit ys ps) = Inr 0" for ys ps
    by (simp_all add: score_def ex_toolkit_def)
  show ?thesis
    by (simp add: precip_train_def Let_def ex_classifier_fit ex_classifier_proba iso st2 sc
        precip_init_def ex_skipped_def)
qed

lemma ex_skipped_predict: "precip_predict ex_skipped ex_X = Inl NotFittedError"
  by (simp add: precip_predict_def ex_skipped_def predict_proba1_def estimator_predict_def
      const_model_predict)

theorem precip_predict_needs_regressor_witness:
  "precip_train ex_toolkit precip_init ex_X101 ex_y101 ex_X_val ex_y_val =
     Inr (ex_skipped, [(''brier'', 0), (''auc'', 0)], [PrecipClassification 0 0]) \<and>
   \<not> 100 < mask_sum (map is_rain ex_y101) \<and>
   regressor ex_skipped = None \<and>
   length (columns ex_X) = length (columns ex_X101) \<and>
   nrows ex_X = 1 \<and>
   precip_predict ex_skipped ex_X = Inl NotFittedError"
proof -
  have pre: "precip_train ex_toolkit precip_init ex_X101 ex_y101 ex_X_val ex_y_val =
     Inr (ex_skipped, [(''brier'', 0), (''auc'', 0)], [PrecipClassification 0 0]) \<and>
     \<not> 100 < mask_sum (map is_rain ex_y101)"
    by (simp add: ex_train_skipped mask_sum_ex_y101)
  have len: "length (columns ex_X) = length (columns ex_X101)"
    by (simp add: columns_def ex_X_def ex_X101_def)
  have n: "nrows ex_X = 1" by (simp add: nrows_def ex_X_def)
  note u = precip_predict_needs_regressor [THEN conjunct2, THEN conjunct2, rule_format, OF pre]
  from u have "regressor ex_skipped = None" by (rule conjunct1)
  moreover from u [THEN conjunct2, THEN mp, OF len] n
  have "precip_predict ex_skipped ex_X = Inl NotFittedError" by simp
  ultimately show ?thesis using pre len n by simp
qed

text \<open>
  C5 at the boundary. The training labels hold exactly 100 rows of 1 mm of observed rain
  (each meets the threshold of 0.1 mm) and one dry row; the validation labels hold one
  rain row and one dry row, so the classifier of stage 1 sees both classes on either
  side. The guard \<^verbatim>\<open>rain_mask_train.sum() > 100\<close> is false at 100: whatever the
  toolkit's fits return, a training run that returns leaves the regressor unfitted and
  holds no quantile model. With a toolkit whose fits succeed the run does return, and
  the trained predictor cannot predict.
\<close>

theorem regression_stage_skipped_at_100_rain_rows:
  "mask_sum (map is_rain ex_y101) = 100 \<and>
   map rain_label ex_y101 = replicate 100 (Some 1) @ [Some 0] \<and>
   map rain_label ex_y_val = [Some 1, Some 0] \<and>
   (\<forall>tk. case precip_train tk precip_init ex_X101 ex_y101 ex_X_val ex_y_val of
           Inl e \<Rightarrow> True
         | Inr r \<Rightarrow> regressor (fst r) = None \<and> pp_quantile_models (fst r) = []) \<and>
   precip_train ex_toolkit precip_init ex_X101 ex_y101 ex_X_val ex_y_val =
     Inr (ex_skipped, [(''brier'', 0), (''auc'', 0)], [PrecipClassification 0 0]) \<and>
   regressor ex_skipped = None \<and> pp_quantile_models ex_skipped = [] \<and>
   precip_predict ex_skipped ex_X = Inl NotFittedError"
proof -
  have all: "case precip_train tk precip_init ex_X101 ex_y101 ex_X_val ex_y_val of
           Inl e \<Rightarrow> True
         | Inr r \<Rightarrow> regressor (fst r) = None \<and> pp_quantile_models (fst r) = []" for tk
  proof (cases "precip_train tk precip_init ex_X101 ex_y101 ex_X_val ex_y_val")
    case (Inl e)
    then show ?thesis by simp
  next
    case (Inr r)
    obtain pp scores out where r: "r = (pp, scores, out)" by (cases r)
    from precip_train_skipped [OF Inr [unfolded r]] mask_sum_ex_y101
    have "regressor pp = None \<and> pp_quantile_models pp = []" by simp
    with Inr r show ?thesis by simp
  qed
  from all rain_labels_ex mask_sum_ex_y101 ex_train_skipped ex_skipped_predict
  show ?thesis by (simp add: ex_skipped_def)
qed
section \<open>Properties of the training run\<close>

lemma split_idx_eq: "split_idx n = 4 * n div 5"
proof -
  have "real n * (8 / 10) = real (4 * n) / real 5" by simp
  then have "\<lfloor>real n * (8 / 10)\<rfloor> = int (4 * n div 5)"
    by (simp only: floor_divide_of_nat_eq)
  moreover have "0 \<le> real n * (8 / 10)" by simp
  ultimately show ?thesis by (simp add: split_idx_def py_int_def)
qed

lemma split_idx_bounds: "5 * split_idx n \<le> 4 * n \<and> 4 * n < 5 * (split_idx n + 1) \<and> split_idx n \<le> n"
  unfolding split_idx_eq by presburger






lemma select_cols_no_exit: "select_cols df names = Inl e \<Longrightarrow> e \<noteq> SystemExit n"
  by (auto simp: select_cols_def split: list.splits)

lemma get_col_no_exit: "get_col df c = Inl e \<Longrightarrow> e \<noteq> SystemExit n"
  by (auto simp: get_col_def split: option.splits)

lemma get_series_no_exit: "get_series df c = Inl e \<Longrightarrow> e \<noteq> SystemExit n"
  by (auto simp: get_series_def dest: get_col_no_exit split: sum.splits)

lemma lgbm_predict_no_exit: "lgbm_predict m X = Inl e \<Longrightarrow> e \<noteq> SystemExit n"
  by (auto simp: lgbm_predict_def split: if_splits)

lemma predict_proba1_no_exit: "predict_proba1 m X = Inl e \<Longrightarrow> e \<noteq> SystemExit n"
  by (auto simp: predict_proba1_def estimator_predict_def dest: lgbm_predict_no_exit
      split: sum.splits option.splits)

lemma dropna_thresh_no_exit: "dropna_thresh names k df = Inl e \<Longrightarrow> e \<noteq> SystemExit n"
  by (auto simp: dropna_thresh_def split: list.splits)

lemma lgbm_fit_no_exit:
  "lgbm_fit tk obj early_stopping X y ev = Inl e \<Longrightarrow> e \<noteq> SystemExit n"
  by (auto simp: lgbm_fit_def split: if_splits option.splits)

lemma fit_quantiles_no_exit:
  "fit_quantiles tk X y qm alphas = Inl e \<Longrightarrow> e \<noteq> SystemExit n"
proof (induction alphas arbitrary: qm)
  case Nil
  then show ?case by simp
next
  case (Cons alpha rest)
  then show ?case
    by (auto dest: lgbm_fit_no_exit split: sum.splits)
qed

lemma train_target_no_exit:
  "train_target tk X_train y_train X_val y_val st target = Inl e \<Longrightarrow> e \<noteq> SystemExit n"
  by (auto simp: train_target_def Let_def simp del: fit_quantiles.simps
      dest: get_series_no_exit lgbm_predict_no_exit lgbm_fit_no_exit fit_quantiles_no_exit
      split: prod.splits option.splits if_splits sum.splits)

lemma train_targets_no_exit:
  "train_targets tk X_train y_train X_val y_val st ts = Inl e \<Longrightarrow> e \<noteq> SystemExit n"
proof (induction ts arbitrary: st)
  case Nil
  then show ?case by simp
next
  case (Cons t ts)
  then show ?case
    by (auto dest: train_target_no_exit split: sum.splits)
qed

lemma train_weather_stage_no_exit:
  "train_weather_stage tk cs train_df val_df = Inl e \<Longrightarrow> e \<noteq> SystemExit n"
  by (auto simp: train_weather_stage_def weather_train_def Let_def
      dest: select_cols_no_exit train_targets_no_exit split: sum.splits prod.splits)

lemma precip_stage2_no_exit:
  "precip_stage2 tk pp X_train y_train X_val y_val = Inl e \<Longrightarrow> e \<noteq> SystemExit n"
  by (auto simp: precip_stage2_def Let_def dest: lgbm_fit_no_exit fit_quantiles_no_exit
      split: if_splits sum.splits)

lemma precip_train_no_exit:
  "precip_train tk pp X_train y_train X_val y_val = Inl e \<Longrightarrow> e \<noteq> SystemExit n"
  by (auto simp: precip_train_def Let_def isotonic_fit_def score_def
      dest: predict_proba1_no_exit lgbm_fit_no_exit precip_stage2_no_exit
      split: sum.splits option.splits)

lemma train_precip_stage_no_exit:
  "train_precip_stage tk X_train X_val train_df val_df = Inl e \<Longrightarrow> e \<noteq> SystemExit n"
  by (auto simp: train_precip_stage_def Let_def
      dest: get_series_no_exit precip_train_no_exit split: sum.splits prod.splits)

lemma predict_loop_no_exit:
  "predict_loop qms X ms res = Inl e \<Longrightarrow> e \<noteq> SystemExit n"
proof (induction qms X ms res rule: predict_loop.induct)
  case (1 qms X res)
  then show ?case by simp
next
  case (2 qms X target model rest res)
  then show ?case
    by (auto dest: lgbm_predict_no_exit split: sum.splits option.splits)
qed

lemma weather_predict_no_exit: "weather_predict wp X = Inl e \<Longrightarrow> e \<noteq> SystemExit n"
  by (auto simp: weather_predict_def dest: predict_loop_no_exit split: sum.splits)

lemma weather_load_no_exit: "weather_load p fs = Inl e \<Longrightarrow> e \<noteq> SystemExit n"
  by (auto simp: weather_load_def split: option.splits artifact.splits)

lemma lead_loop_no_exit: "lead_loop preds val_df leads out = Inl e \<Longrightarrow> e \<noteq> SystemExit n"
proof (induction preds val_df leads out rule: lead_loop.induct)
  case (1 preds val_df out)
  then show ?case by simp
next
  case (2 preds val_df lead rest out)
  then show ?case
    by (auto simp: Let_def dest: get_col_no_exit split: sum.splits option.splits if_splits)
qed

lemma lead_summary_no_exit: "lead_summary fs X_val val_df = Inl e \<Longrightarrow> e \<noteq> SystemExit n"
  by (auto simp: lead_summary_def simp del: lead_loop.simps
      dest: weather_load_no_exit weather_predict_no_exit lead_loop_no_exit
      split: sum.splits if_splits)

lemma fit_and_persist_no_exit:
  "status (fit_and_persist tk cs train_df val_df fs out) \<noteq> Some (SystemExit n)"
  by (auto simp: fit_and_persist_def Let_def
      dest: train_weather_stage_no_exit train_precip_stage_no_exit lead_summary_no_exit
      split: sum.splits prod.splits)

text \<open>
  C3. With fewer than 500 paired rows \<^verbatim>\<open>main\<close> prints the row count and exits with
  status 1, whatever the toolkit and the feature pipeline are (neither is called), and
  leaves every file as it was. No other path of \<^verbatim>\<open>main\<close> ends with that exit.
\<close>

theorem train_main_aborts_below_500:
  "(nrows paired < 500 \<longrightarrow>
      train_main tk pl paired fs =
        \<lparr>status = Some (SystemExit 1), files_out = fs, printed = [OnlyPairedRows (nrows paired)]\<rparr>) \<and>
   (status (train_main tk pl paired fs) = Some (SystemExit 1) \<longrightarrow> nrows paired < 500)"
proof (intro conjI impI)
  assume "nrows paired < 500"
  then show "train_main tk pl paired fs =
        \<lparr>status = Some (SystemExit 1), files_out = fs, printed = [OnlyPairedRows (nrows paired)]\<rparr>"
    by (simp add: train_main_def)
next
  assume ex: "status (train_main tk pl paired fs) = Some (SystemExit 1)"
  show "nrows paired < 500"
  proof (rule ccontr)
    assume "\<not> nrows paired < 500"
    with ex show False
      by (auto simp: train_main_def Let_def fit_and_persist_no_exit
          dest: dropna_thresh_no_exit split: sum.splits prod.splits)
  qed
qed

theorem train_main_aborts_below_500_witness:
  "nrows ex_five < 500 \<and>
   train_main ex_toolkit ex_pipeline ex_five ex_files =
     \<lparr>status = Some (SystemExit 1), files_out = ex_files, printed = [OnlyPairedRows 5]\<rparr> \<and>
   files_out (train_main ex_toolkit ex_pipeline ex_five ex_files) MODEL_PATH =
     Some (WeatherArtifact [(''temperature'', const_model 21)] []) \<and>
   files_out (train_main ex_toolkit ex_pipeline ex_five ex_files) PRECIP_MODEL_PATH = None"
proof -
  have n: "nrows ex_five < 500" "nrows ex_five = 5" by (simp_all add: nrows_def ex_five_def)
  note u = train_main_aborts_below_500 [of ex_five ex_toolkit ex_pipeline ex_files,
      THEN conjunct1, rule_format, OF n(1)]
  have f: "ex_files MODEL_PATH = Some (WeatherArtifact [(''temperature'', const_model 21)] [])"
    "ex_files PRECIP_MODEL_PATH = None"
    by (simp_all add: ex_files_def MODEL_PATH_def PRECIP_MODEL_PATH_def)
  from u n f show ?thesis by simp
qed

section \<open>Properties of the prediction run\<close>

lemma mem_columns_iff: "c \<in> set (columns df) \<longleftrightarrow> map_of (cols df) c \<noteq> None"
  by (simp add: columns_def map_of_eq_None_iff)

lemma fill_missing:
  "index (foldl (\<lambda>d c. set_col_scalar d c 0) df ms) = index df \<and>
   map_of (cols (foldl (\<lambda>d c. set_col_scalar d c 0) df ms)) c =
     (if c \<in> set ms then Some (replicate (nrows df) (Some 0)) else map_of (cols df) c)"
proof (induction ms arbitrary: df)
  case Nil
  then show ?case by simp
next
  case (Cons m ms)
  have i: "index (set_col_scalar df m 0) = index df"
    and n: "nrows (set_col_scalar df m 0) = nrows df"
    and c: "map_of (cols (set_col_scalar df m 0)) c =
            (if c = m then Some (replicate (nrows df) (Some 0)) else map_of (cols df) c)"
    by (simp_all add: set_col_scalar_def nrows_def update_conv')
  from Cons.IH [of "set_col_scalar df m 0"] i n c show ?case by auto
qed

lemma filled_has_columns:
  "set (columns (foldl (\<lambda>d c. set_col_scalar d c 0) df ms)) = set (columns df) \<union> set ms"
  using fill_missing [of df ms] by (auto simp: mem_columns_iff split: if_splits)

lemma align_features_result:
  "align_features trained df =
     (Inr \<lparr>index = index df,
           cols = map (\<lambda>c. (c, if c \<in> set (columns df) then the (map_of (cols df) c)
                                else replicate (nrows df) (Some 0))) trained\<rparr>,
      foldl (\<lambda>d c. set_col_scalar d c 0) df (filter (\<lambda>c. c \<notin> set (columns df)) trained),
      if set trained \<subseteq> set (columns df) then []
      else [MissingFeatures (length (filter (\<lambda>c. c \<notin> set (columns df)) trained))
              (take 5 (filter (\<lambda>c. c \<notin> set (columns df)) trained))])"
proof -
  let ?missing = "filter (\<lambda>c. c \<notin> set (columns df)) trained"
  let ?df' = "foldl (\<lambda>d c. set_col_scalar d c 0) df ?missing"
  have e: "?missing = [] \<longleftrightarrow> set trained \<subseteq> set (columns df)"
    by (auto simp: filter_empty_conv)
  have df': "(if ?missing \<noteq> [] then ?df' else df) = ?df'" by simp
  have all: "filter (\<lambda>c. c \<notin> set (columns ?df')) trained = []"
    by (auto simp: filter_empty_conv filled_has_columns)
  have cell: "the (map_of (cols ?df') c) =
      (if c \<in> set (columns df) then the (map_of (cols df) c) else replicate (nrows df) (Some 0))"
    if "c \<in> set trained" for c
    using fill_missing [of df ?missing c] that by auto
  have sel: "select_cols ?df' trained =
     Inr \<lparr>index = index df,
          cols = map (\<lambda>c. (c, if c \<in> set (columns df) then the (map_of (cols df) c)
                               else replicate (nrows df) (Some 0))) trained\<rparr>"
    using fill_missing [of df ?missing] cell by (simp add: select_cols_def all cong: map_cong)
  show ?thesis
    unfolding align_features_def Let_def df' sel using e by simp
qed

lemma align_features_filled:
  assumes "align_features trained df = (Xr, df', out)"
  shows "align_features trained df' = (Xr, df', [])"
proof -
  let ?missing = "filter (\<lambda>c. c \<notin> set (columns df)) trained"
  from assms have df': "df' = foldl (\<lambda>d c. set_col_scalar d c 0) df ?missing"
    and Xr: "Xr = Inr \<lparr>index = index df,
           cols = map (\<lambda>c. (c, if c \<in> set (columns df) then the (map_of (cols df) c)
                                else replicate (nrows df) (Some 0))) trained\<rparr>"
    by (simp_all add: align_features_result)
  have sub: "set trained \<subseteq> set (columns df')"
    unfolding df' filled_has_columns by auto
  then have none: "filter (\<lambda>c. c \<notin> set (columns df')) trained = []"
    by (auto simp: filter_empty_conv)
  have idx: "index df' = index df" unfolding df' using fill_missing [of df ?missing] by simp
  have cell: "the (map_of (cols df') c) =
      (if c \<in> set (columns df) then the (map_of (cols df) c) else replicate (nrows df) (Some 0))"
    if "c \<in> set trained" for c
    unfolding df' using fill_missing [of df ?missing c] that by auto
  have "map (\<lambda>c. (c, if c \<in> set (columns df') then the (map_of (cols df') c)
                      else replicate (nrows df') (Some 0))) trained =
        map (\<lambda>c. (c, if c \<in> set (columns df) then the (map_of (cols df) c)
                      else replicate (nrows df) (Some 0))) trained"
    using sub cell by (intro map_cong refl) auto
  then show ?thesis
    unfolding align_features_result [of trained df'] Xr none using sub idx by simp
qed

lemma lgbm_predict_rows:
  assumes "length (columns X) = length (feature_name g)" and "0 < nrows X"
  shows "lgbm_predict g X = Inr (map (raw_predict g) (rows_of X))"
  using assms by (simp add: lgbm_predict_def)

lemma predict_loop_succeeds:
  assumes "0 < nrows X"
    and "list_all
       (\<lambda>(t, g). length (feature_name g) = length (columns X) \<and>
          (case map_of qms t of
             None \<Rightarrow> True
           | Some qs \<Rightarrow>
               (case map_of qs (1 / 10) of
                  None \<Rightarrow> False
                | Some lo \<Rightarrow>
                    (case map_of qs (9 / 10) of
                       None \<Rightarrow> False
                     | Some hi \<Rightarrow>
                         length (feature_name lo) = length (columns X) \<and>
                         length (feature_name hi) = length (columns X))))) ms"
  shows "\<exists>res'. predict_loop qms X ms res = Inr res'"
  using assms(2)
proof (induction ms arbitrary: res)
  case Nil
  then show ?case by simp
next
  case (Cons a ms)
  obtain target model where a: "a = (target, model)" by (cases a)
  from Cons.prems a have w: "length (columns X) = length (feature_name model)"
    and rest: "list_all
       (\<lambda>(t, g). length (feature_name g) = length (columns X) \<and>
          (case map_of qms t of
             None \<Rightarrow> True
           | Some qs \<Rightarrow>
               (case map_of qs (1 / 10) of
                  None \<Rightarrow> False
                | Some lo \<Rightarrow>
                    (case map_of qs (9 / 10) of
                       None \<Rightarrow> False
                     | Some hi \<Rightarrow>
                         length (feature_name lo) = length (columns X) \<and>
                         length (feature_name hi) = length (columns X))))) ms"
    by simp_all
  note p = lgbm_predict_rows [OF w assms(1)]
  show ?case
  proof (cases "map_of qms target")
    case None
    with Cons.IH [OF rest] p a show ?thesis by simp
  next
    case (Some qs)
    with Cons.prems a obtain lo hi where
      q: "map_of qs (1 / 10) = Some lo" "map_of qs (9 / 10) = Some hi"
         "length (columns X) = length (feature_name lo)"
         "length (columns X) = length (feature_name hi)"
      by (auto split: option.splits)
    note plo = lgbm_predict_rows [OF q(3) assms(1)]
    note phi = lgbm_predict_rows [OF q(4) assms(1)]
    from Cons.IH [OF rest] p a Some q(1,2) plo phi show ?thesis by simp
  qed
qed

lemma predict_loop_point:
  assumes "predict_loop qms X ms res = Inr res'"
    and "distinct (map fst ms)" and "t \<in> set targets"
    and "(t, m) \<in> set ms"
  shows "\<exists>p. lgbm_predict m X = Inr p \<and> map_of res' t = Some p"
  using assms
proof (induction qms X ms res rule: predict_loop.induct)
  case (1 qms X res)
  then show ?case by simp
next
  case (2 qms X target model rest res)
  from "2.prems"(1) obtain p where p: "lgbm_predict model X = Inr p"
    by (auto split: sum.splits)
  have drest: "distinct (map fst rest)" and fresh: "target \<notin> fst ` set rest"
    using "2.prems"(2) by auto
  show ?case
  proof (cases "(t, m) \<in> set rest")
    case True
    show ?thesis
    proof (cases "map_of qms target")
      case None
      with "2.prems"(1) p have "predict_loop qms X rest (AList.update target p res) = Inr res'"
        by simp
      from "2.IH"(1) [OF p None this drest "2.prems"(3) True] show ?thesis .
    next
      case (Some qs')
      with "2.prems"(1) p obtain q10 p10 q90 p90 where
        q: "map_of qs' (1 / 10) = Some q10" "lgbm_predict q10 X = Inr p10"
           "map_of qs' (9 / 10) = Some q90" "lgbm_predict q90 X = Inr p90"
        and loop: "predict_loop qms X rest
                     (AList.update (target @ ''_q90'') p90
                        (AList.update (target @ ''_q10'') p10 (AList.update target p res))) = Inr res'"
        by (auto split: sum.splits option.splits)
      from "2.IH"(2) [OF p Some q loop drest "2.prems"(3) True] show ?thesis .
    qed
  next
    case False
    with "2.prems"(4) have eq: "t = target" "m = model" by auto
    have untouched: "target \<noteq> t' \<and> target \<noteq> t' @ ''_q10'' \<and> target \<noteq> t' @ ''_q90''"
      if "(t', m') \<in> set rest" for t' m'
    proof -
      from "2.prems"(3) eq have "target \<in> set targets" by simp
      from target_not_suffixed [OF this, of t'] that fresh show ?thesis by force
    qed
    have self: "target \<noteq> target @ ''_q10''" "target \<noteq> target @ ''_q90''" by simp_all
    show ?thesis
    proof (cases "map_of qms target")
      case None
      with "2.prems"(1) p have loop: "predict_loop qms X rest (AList.update target p res) = Inr res'"
        by simp
      have "map_of res' target = map_of (AList.update target p res) target"
        by (rule predict_loop_untouched [OF loop]) (use untouched in blast)
      with p eq show ?thesis by (simp add: update_conv')
    next
      case (Some qs')
      with "2.prems"(1) p obtain q10 p10 q90 p90 where
        loop: "predict_loop qms X rest
                     (AList.update (target @ ''_q90'') p90
                        (AList.update (target @ ''_q10'') p10 (AList.update target p res))) = Inr res'"
        by (auto split: sum.splits option.splits)
      have "map_of res' target =
            map_of (AList.update (target @ ''_q90'') p90
                        (AList.update (target @ ''_q10'') p10 (AList.update target p res))) target"
        by (rule predict_loop_untouched [OF loop]) (use untouched in blast)
      with p eq self show ?thesis by (simp add: update_conv')
    qed
  qed
qed

lemma predict_loop_absent:
  assumes "predict_loop qms X ms res = Inr res'"
    and "set (map fst ms) \<subseteq> set targets" and "map_of qms t0 = None"
  shows "map_of res' (t0 @ ''_q10'') = map_of res (t0 @ ''_q10'')"
  using assms
proof (induction qms X ms res rule: predict_loop.induct)
  case (1 qms X res)
  then show ?case by simp
next
  case (2 qms X target model rest res)
  from "2.prems"(1) obtain p where p: "lgbm_predict model X = Inr p"
    by (auto split: sum.splits)
  have trest: "set (map fst rest) \<subseteq> set targets" and tt: "target \<in> set targets"
    using "2.prems"(2) by auto
  from target_not_suffixed [OF tt, of t0] have k: "t0 @ ''_q10'' \<noteq> target" by auto
  show ?case
  proof (cases "map_of qms target")
    case None
    with "2.prems"(1) p have "predict_loop qms X rest (AList.update target p res) = Inr res'"
      by simp
    from "2.IH"(1) [OF p None this trest "2.prems"(3)] k show ?thesis by (simp add: update_conv')
  next
    case (Some qs)
    with "2.prems"(3) have ne: "target \<noteq> t0" by auto
    from Some "2.prems"(1) p obtain q10 p10 q90 p90 where
      q: "map_of qs (1 / 10) = Some q10" "lgbm_predict q10 X = Inr p10"
         "map_of qs (9 / 10) = Some q90" "lgbm_predict q90 X = Inr p90"
      and loop: "predict_loop qms X rest
                   (AList.update (target @ ''_q90'') p90
                      (AList.update (target @ ''_q10'') p10 (AList.update target p res))) = Inr res'"
      by (auto split: sum.splits option.splits)
    from "2.IH"(2) [OF p Some q loop trest "2.prems"(3)] k ne show ?thesis
      by (simp add: update_conv')
  qed
qed

lemma complete_bundles_weather:
  assumes "complete_bundles n wp pp"
  shows "distinct (map fst (models wp))" "set (map fst (models wp)) \<subseteq> set targets"
    "''humidity'' \<in> fst ` set (models wp)" "''wind_speed'' \<in> fst ` set (models wp)"
    "list_all
       (\<lambda>(t, g). length (feature_name g) = n \<and>
          (case map_of (quantile_models wp) t of
             None \<Rightarrow> True
           | Some qs \<Rightarrow>
               (case map_of qs (1 / 10) of
                  None \<Rightarrow> False
                | Some lo \<Rightarrow>
                    (case map_of qs (9 / 10) of
                       None \<Rightarrow> False
                     | Some hi \<Rightarrow>
                         length (feature_name lo) = n \<and> length (feature_name hi) = n))))
       (models wp)"
  using assms by (simp_all add: complete_bundles_def)

lemma complete_bundles_precip:
  assumes "complete_bundles n wp pp"
  shows "\<exists>c. classifier pp = Some c \<and> length (feature_name c) = n"
    "\<exists>r. regressor pp = Some r \<and> length (feature_name r) = n"
    "list_all (\<lambda>(alpha, g). length (feature_name g) = n) (pp_quantile_models pp)"
    "''precip_q10_mm'' \<in> quantile_key ` fst ` set (pp_quantile_models pp) \<Longrightarrow>
     ''precip_q90_mm'' \<in> quantile_key ` fst ` set (pp_quantile_models pp)"
proof -
  from assms show "\<exists>c. classifier pp = Some c \<and> length (feature_name c) = n"
    by (auto simp: complete_bundles_def split: option.splits)
  from assms show "\<exists>r. regressor pp = Some r \<and> length (feature_name r) = n"
    by (auto simp: complete_bundles_def split: option.splits)
  from assms show "list_all (\<lambda>(alpha, g). length (feature_name g) = n) (pp_quantile_models pp)"
    by (simp add: complete_bundles_def)
  have eq: "set (map (\<lambda>(alpha, g). quantile_key alpha) (pp_quantile_models pp)) =
      quantile_key ` fst ` set (pp_quantile_models pp)"
    by force
  assume "''precip_q10_mm'' \<in> quantile_key ` fst ` set (pp_quantile_models pp)"
  with assms show "''precip_q90_mm'' \<in> quantile_key ` fst ` set (pp_quantile_models pp)"
    unfolding complete_bundles_def eq by (simp split: if_splits)
qed

lemma weather_predict_complete:
  assumes cb: "complete_bundles n wp pp" and n: "length (columns X) = n" and rows: "0 < nrows X"
    and tm: "map_of (models wp) ''temperature'' = Some tm"
  shows "\<exists>weather hum wind.
           weather_predict wp X = Inr weather \<and>
           map_of weather ''temperature'' = Some (map (raw_predict tm) (rows_of X)) \<and>
           map_of weather ''humidity'' = Some hum \<and>
           map_of weather ''wind_speed'' = Some wind \<and>
           (map_of weather ''temperature_q10'' = None \<or> map_of weather ''temperature_q90'' \<noteq> None)"
proof -
  note w = complete_bundles_weather [OF cb]
  from predict_loop_succeeds [OF rows, of "quantile_models wp" "models wp" "[]"] w(5) n
  obtain raw where raw: "predict_loop (quantile_models wp) X (models wp) [] = Inr raw" by auto
  then have wp: "weather_predict wp X = Inr (physical_constraints raw)"
    by (simp add: weather_predict_def)
  from tm have mem: "(''temperature'', tm) \<in> set (models wp)" by (rule map_of_SomeD)
  have tt: "''temperature'' \<in> set targets" by (simp add: targets_def)
  from predict_loop_point [OF raw w(1) tt mem] obtain p where
    p: "lgbm_predict tm X = Inr p" "map_of raw ''temperature'' = Some p" by blast
  from w(5) mem have "length (feature_name tm) = n" by (auto simp: list_all_iff)
  with n have "length (columns X) = length (feature_name tm)" by simp
  from lgbm_predict_rows [OF this rows] p
  have t: "map_of (physical_constraints raw) ''temperature'' = Some (map (raw_predict tm) (rows_of X))"
    by (simp add: physical_constraints_other)
  from weather_predict_has_point [OF wp w(3)] obtain hum where
    h: "map_of (physical_constraints raw) ''humidity'' = Some hum" ..
  from weather_predict_has_point [OF wp w(4)] obtain wind where
    ws: "map_of (physical_constraints raw) ''wind_speed'' = Some wind" ..
  have q: "map_of (physical_constraints raw) ''temperature_q10'' = None \<or>
      map_of (physical_constraints raw) ''temperature_q90'' \<noteq> None"
  proof (cases "map_of (quantile_models wp) ''temperature''")
    case None
    from predict_loop_absent [OF raw w(2) None]
    have "map_of raw ''temperature_q10'' = None" by simp
    then show ?thesis by (simp add: physical_constraints_other)
  next
    case (Some qs)
    from predict_loop_quantiles [OF raw w(1) w(2) mem Some]
    obtain p90 where "map_of raw (''temperature'' @ ''_q90'') = Some p90" by blast
    then show ?thesis by (simp add: physical_constraints_other)
  qed
  from wp t h ws q show ?thesis by blast
qed

lemma quantile_loop_succeeds:
  assumes "0 < nrows X"
    and "list_all (\<lambda>(alpha, g). length (feature_name g) = length (columns X)) qms"
  shows "\<exists>res'. quantile_loop X prob qms res = Inr res'"
  using assms(2)
proof (induction qms arbitrary: res)
  case Nil
  then show ?case by simp
next
  case (Cons a qms)
  obtain alpha g where a: "a = (alpha, g)" by (cases a)
  from Cons.prems a have w: "length (columns X) = length (feature_name g)"
    and rest: "list_all (\<lambda>(alpha, g). length (feature_name g) = length (columns X)) qms"
    by simp_all
  from Cons.IH [OF rest] lgbm_predict_rows [OF w assms(1)] a show ?case by simp
qed

lemma precip_predict_complete:
  assumes cb: "complete_bundles n wp pp" and n: "length (columns X) = n" and rows: "0 < nrows X"
  shows "\<exists>precip prob expected.
           precip_predict pp X = Inr precip \<and>
           map_of precip ''precip_probability'' = Some prob \<and>
           map_of precip ''precip_expected_mm'' = Some expected \<and>
           (map_of precip ''precip_q10_mm'' = None \<or> map_of precip ''precip_q90_mm'' \<noteq> None)"
proof -
  note c = complete_bundles_precip [OF cb]
  from c(1) n obtain clf where clf: "classifier pp = Some clf"
    "length (columns X) = length (feature_name clf)" by auto
  from c(2) n obtain reg where reg: "regressor pp = Some reg"
    "length (columns X) = length (feature_name reg)" by auto
  from lgbm_predict_rows [OF clf(2) rows] obtain rp where rp: "lgbm_predict clf X = Inr rp" ..
  from lgbm_predict_rows [OF reg(2) rows] obtain ra where ra: "lgbm_predict reg X = Inr ra" ..
  let ?raw = "map sigmoid rp"
  let ?prob = "case calibrator pp of Some c \<Rightarrow> isotonic_predict c ?raw | None \<Rightarrow> ?raw"
  let ?amount = "map (\<lambda>v. max v 0) ra"
  let ?res0 = "[(''precip_probability'', ?prob),
                (''precip_expected_mm'', map2 (\<lambda>p a. p * a) ?prob ?amount),
                (''precip_if_rain_mm'', ?amount)]"
  from c(3) n have "list_all (\<lambda>(alpha, g). length (feature_name g) = length (columns X))
      (pp_quantile_models pp)" by simp
  from quantile_loop_succeeds [OF rows this, of ?prob ?res0]
  obtain precip where loop: "quantile_loop X ?prob (pp_quantile_models pp) ?res0 = Inr precip" ..
  have pp: "precip_predict pp X = Inr precip"
    using loop clf(1) reg(1) rp ra
    by (simp add: precip_predict_def predict_proba1_def estimator_predict_def Let_def)
  have b1: "map_of precip ''precip_probability'' = Some ?prob"
    using quantile_loop_base [OF loop, of "''precip_probability''"] quantile_key_not_base(1)
    by (simp add: eq_commute)
  have b2: "map_of precip ''precip_expected_mm'' = Some (map2 (\<lambda>p a. p * a) ?prob ?amount)"
    using quantile_loop_base [OF loop, of "''precip_expected_mm''"] quantile_key_not_base(2)
    by (simp add: eq_commute)
  have q: "map_of precip ''precip_q10_mm'' = None \<or> map_of precip ''precip_q90_mm'' \<noteq> None"
  proof (cases "map_of precip ''precip_q10_mm''")
    case None
    then show ?thesis by simp
  next
    case (Some band)
    from quantile_loop_entries [OF loop Some]
    have "''precip_q10_mm'' \<in> quantile_key ` fst ` set (pp_quantile_models pp)" by force
    from c(4) [OF this] quantile_loop_keys [OF loop]
    have "''precip_q90_mm'' \<in> fst ` set precip" by blast
    then show ?thesis by (metis domD dom_map_of_conv_image_fst option.distinct(1))
  qed
  from pp b1 b2 q show ?thesis by blast
qed

lemma collect_map:
  assumes "\<forall>i \<in> set js. \<exists>r. f i = Inr r \<and> P i r"
  shows "\<exists>rows. collect (map f js) = Inr rows \<and> length rows = length js \<and>
           (\<forall>j < length js. P (js ! j) (rows ! j))"
  using assms
proof (induction js)
  case Nil
  then show ?case by simp
next
  case (Cons a js)
  from Cons.prems obtain r where r: "f a = Inr r" "P a r" by auto
  from Cons.prems have "\<forall>i \<in> set js. \<exists>r. f i = Inr r \<and> P i r" by simp
  from Cons.IH [OF this] obtain rows where
    rows: "collect (map f js) = Inr rows" "length rows = length js"
      "\<forall>j < length js. P (js ! j) (rows ! j)" by blast
  have c: "collect (map f (a # js)) = Inr (r # rows)" using r(1) rows(1) by simp
  have "P ((a # js) ! j) ((r # rows) ! j)" if "j < length (a # js)" for j
    using that r(2) rows(3) by (cases j) simp_all
  with c rows(2) show ?case by auto
qed

lemma optional_range_ok:
  assumes "map_of res klo = None \<or> map_of res khi \<noteq> None"
  shows "\<exists>v. optional_range rnd d res klo khi i = Inr v"
  using assms by (auto simp: optional_range_def split: option.splits)

lemma forecast_row_ok:
  assumes "map_of (cols df) ''lead_hours'' = Some lh" and "lh ! i = Some l"
    and "map_of weather ''temperature'' = Some temp"
    and "map_of weather ''humidity'' = Some hum"
    and "map_of weather ''wind_speed'' = Some wind"
    and "map_of precip ''precip_probability'' = Some prob"
    and "map_of precip ''precip_expected_mm'' = Some expected"
    and "map_of weather ''temperature_q10'' = None \<or> map_of weather ''temperature_q90'' \<noteq> None"
    and "map_of precip ''precip_q10_mm'' = None \<or> map_of precip ''precip_q90_mm'' \<noteq> None"
  shows "\<exists>r. forecast_row rnd df weather precip i = Inr r \<and>
           temperature_c r = rnd 1 (temp ! i) \<and> fh_lead_hours r = py_int l"
proof -
  from optional_range_ok [OF assms(8)] obtain trange where
    t: "optional_range rnd 1 weather ''temperature_q10'' ''temperature_q90'' i = Inr trange" ..
  from optional_range_ok [OF assms(9)] obtain prange where
    p: "optional_range rnd 2 precip ''precip_q10_mm'' ''precip_q90_mm'' i = Inr prange" ..
  from assms(1-7) t p show ?thesis
    by (simp add: forecast_row_def get_col_def lookup_def)
qed

lemma aligned_row:
  assumes "i < nrows df"
  shows "rows_of \<lparr>index = index df,
           cols = map (\<lambda>c. (c, if c \<in> set (columns df) then the (map_of (cols df) c)
                                else replicate (nrows df) (Some 0))) trained\<rparr> ! i =
         map (\<lambda>c. if c \<in> set (columns df) then the (map_of (cols df) c) ! i else Some 0) trained"
  using assms by (simp add: rows_of_def nrows_def comp_def)

lemma predict_main_complete:
  assumes wl: "weather_load MODEL_PATH fs = Inr wp"
    and pl: "precip_load PRECIP_MODEL_PATH fs = Inr pp"
    and tm: "map_of (models wp) ''temperature'' = Some tm"
    and cb: "complete_bundles (length (feature_name tm)) wp pp"
    and tr: "table_ready (build_feature_set pl fetched)"
  shows "\<exists>rows.
          predict_main rnd pl fs fetched =
            (Inr rows,
             (if set (feature_name tm) \<subseteq> set (columns (build_feature_set pl fetched)) then []
              else [MissingFeatures
                      (length (filter (\<lambda>c. c \<notin> set (columns (build_feature_set pl fetched)))
                                 (feature_name tm)))
                      (take 5 (filter (\<lambda>c. c \<notin> set (columns (build_feature_set pl fetched)))
                                 (feature_name tm)))]) @
             [WroteHours (nrows (build_feature_set pl fetched))]) \<and>
          length rows = nrows (build_feature_set pl fetched) \<and>
          (\<forall>i < nrows (build_feature_set pl fetched).
             temperature_c (rows ! i) =
               rnd 1 (raw_predict tm
                        (map (\<lambda>c. if c \<in> set (columns (build_feature_set pl fetched))
                                   then the (map_of (cols (build_feature_set pl fetched)) c) ! i
                                   else Some 0)
                             (feature_name tm))))"
proof -
  let ?df = "build_feature_set pl fetched"
  let ?missing = "filter (\<lambda>c. c \<notin> set (columns ?df)) (feature_name tm)"
  let ?X = "\<lparr>index = index ?df,
           cols = map (\<lambda>c. (c, if c \<in> set (columns ?df) then the (map_of (cols ?df) c)
                                else replicate (nrows ?df) (Some 0))) (feature_name tm)\<rparr>"
  let ?df' = "foldl (\<lambda>d c. set_col_scalar d c 0) ?df ?missing"
  let ?out = "if set (feature_name tm) \<subseteq> set (columns ?df) then []
      else [MissingFeatures (length ?missing) (take 5 ?missing)]"
  have a: "align_features (feature_name tm) ?df = (Inr ?X, ?df', ?out)"
    by (rule align_features_result)
  have cx: "length (columns ?X) = length (feature_name tm)" by (simp add: columns_def)
  have nx: "nrows ?X = nrows ?df" by (simp add: nrows_def)
  from tr have rows: "0 < nrows ?df" by (simp add: table_ready_def)
  with nx have rx: "0 < nrows ?X" by simp
  from tr obtain lh where lh: "map_of (cols ?df) ''lead_hours'' = Some lh"
    and lhs: "list_all (\<lambda>i. lh ! i \<noteq> None) [0 ..< nrows ?df]"
    by (auto simp: table_ready_def split: option.splits)
  from lh have mem: "''lead_hours'' \<in> set (columns ?df)" by (simp add: mem_columns_iff)
  have idx: "index ?df' = index ?df"
    using fill_missing [of ?df ?missing "''lead_hours''"] by (rule conjunct1)
  have "map_of (cols ?df') ''lead_hours'' =
      (if ''lead_hours'' \<in> set ?missing then Some (replicate (nrows ?df) (Some 0))
       else map_of (cols ?df) ''lead_hours'')"
    using fill_missing [of ?df ?missing "''lead_hours''"] by (rule conjunct2)
  with mem lh have lh': "map_of (cols ?df') ''lead_hours'' = Some lh" by simp
  from idx have n': "nrows ?df' = nrows ?df" by (simp add: nrows_def)
  from weather_predict_complete [OF cb cx rx tm] obtain weather hum wind where
    w: "weather_predict wp ?X = Inr weather"
       "map_of weather ''temperature'' = Some (map (raw_predict tm) (rows_of ?X))"
       "map_of weather ''humidity'' = Some hum"
       "map_of weather ''wind_speed'' = Some wind"
       "map_of weather ''temperature_q10'' = None \<or> map_of weather ''temperature_q90'' \<noteq> None"
    by blast
  from precip_predict_complete [OF cb cx rx] obtain precip prob expected where
    p: "precip_predict pp ?X = Inr precip"
       "map_of precip ''precip_probability'' = Some prob"
       "map_of precip ''precip_expected_mm'' = Some expected"
       "map_of precip ''precip_q10_mm'' = None \<or> map_of precip ''precip_q90_mm'' \<noteq> None"
    by blast
  let ?temp = "map (raw_predict tm) (rows_of ?X)"
  have each: "\<forall>i \<in> set [0 ..< nrows ?df].
      \<exists>r. forecast_row rnd ?df' weather precip i = Inr r \<and> temperature_c r = rnd 1 (?temp ! i)"
  proof
    fix i assume i: "i \<in> set [0 ..< nrows ?df]"
    with lhs have "lh ! i \<noteq> None" by (simp add: list_all_iff)
    then obtain l where l: "lh ! i = Some l" by auto
    from forecast_row_ok [OF lh' l w(2) w(3) w(4) p(2) p(3) w(5) p(4), of rnd]
    show "\<exists>r. forecast_row rnd ?df' weather precip i = Inr r \<and> temperature_c r = rnd 1 (?temp ! i)"
      by blast
  qed
  from collect_map [OF each] obtain rs where
    rs: "collect (map (forecast_row rnd ?df' weather precip) [0 ..< nrows ?df]) = Inr rs"
      "length rs = nrows ?df"
      "\<forall>j < nrows ?df. temperature_c (rs ! j) = rnd 1 (?temp ! ([0 ..< nrows ?df] ! j))"
    by auto
  have fr: "forecast_rows rnd ?df' weather precip = Inr rs"
    using rs(1) by (simp add: forecast_rows_def n')
  have sp: "serve_predictions rnd wp pp ?df' ?X ?out = (Inr rs, ?out @ [WroteHours (nrows ?df)])"
    using w(1) p(1) fr rs(2) by (simp add: serve_predictions_def)
  have pm: "predict_main rnd pl fs fetched = (Inr rs, ?out @ [WroteHours (nrows ?df)])"
    using wl pl tm a sp by (simp add: predict_main_def Let_def)
  have lenr: "length (rows_of ?X) = nrows ?df" by (simp add: rows_of_def nrows_def)
  have tc: "temperature_c (rs ! i) =
      rnd 1 (raw_predict tm
               (map (\<lambda>c. if c \<in> set (columns ?df) then the (map_of (cols ?df) c) ! i else Some 0)
                    (feature_name tm)))" if "i < nrows ?df" for i
  proof -
    from rs(3) that have "temperature_c (rs ! i) = rnd 1 (?temp ! i)" by simp
    also have "?temp ! i = raw_predict tm (rows_of ?X ! i)" using that lenr by simp
    also have "rows_of ?X ! i =
        map (\<lambda>c. if c \<in> set (columns ?df) then the (map_of (cols ?df) c) ! i else Some 0)
            (feature_name tm)"
      by (rule aligned_row [OF that])
    finally show ?thesis .
  qed
  from pm rs(2) tc show ?thesis by blast
qed

text \<open>
  C4, as the code has it. The run aligns the table to one list of names, the one of the
  weather bundle's temperature model. For every list of trained feature names and every
  serve-time table the alignment returns a frame (it never raises): its columns are the
  trained names in their order, so a column of the table that is not a trained name is
  left out; a trained name that the table has keeps the table's values, and one that the
  table lacks is a column of zeros; the count and the first five of the lacking names
  are printed exactly when there is one. Aligning the table in which the lacking columns
  are already zero gives the same frame and prints nothing. In \<^verbatim>\<open>main\<close>, when the
  loaded bundles are complete for the number of features of the temperature model and
  the table is ready, the run returns one record per row of the table whatever names the
  table lacks: it prints the report of the lacking names and the number of hours
  written, and the temperature of each record is the temperature model's value on the
  row of the aligned frame, where a lacking feature is 0. The bundles that a training
  run leaves are complete when the humidity and wind-speed targets and the regression
  stage were fitted (shown with the properties of the bundles).
\<close>

theorem missing_features_zero_filled:
  "(\<forall>trained df. \<exists>X df' out.
       align_features trained df = (Inr X, df', out) \<and>
       columns X = trained \<and> index X = index df \<and>
       cols X = map (\<lambda>c. (c, if c \<in> set (columns df) then the (map_of (cols df) c)
                               else replicate (nrows df) (Some 0))) trained \<and>
       out = (if set trained \<subseteq> set (columns df) then []
              else [MissingFeatures (length (filter (\<lambda>c. c \<notin> set (columns df)) trained))
                      (take 5 (filter (\<lambda>c. c \<notin> set (columns df)) trained))]) \<and>
       align_features trained df' = (Inr X, df', [])) \<and>
   (\<forall>rnd pl fs fetched wp pp tm.
       weather_load MODEL_PATH fs = Inr wp \<and> precip_load PRECIP_MODEL_PATH fs = Inr pp \<and>
       map_of (models wp) ''temperature'' = Some tm \<and>
       complete_bundles (length (feature_name tm)) wp pp \<and>
       table_ready (build_feature_set pl fetched) \<longrightarrow>
       (\<exists>rows.
          predict_main rnd pl fs fetched =
            (Inr rows,
             (if set (feature_name tm) \<subseteq> set (columns (build_feature_set pl fetched)) then []
              else [MissingFeatures
                      (length (filter (\<lambda>c. c \<notin> set (columns (build_feature_set pl fetched)))
                                 (feature_name tm)))
                      (take 5 (filter (\<lambda>c. c \<notin> set (columns (build_feature_set pl fetched)))
                                 (feature_name tm)))]) @
             [WroteHours (nrows (build_feature_set pl fetched))]) \<and>
          length rows = nrows (build_feature_set pl fetched) \<and>
          (\<forall>i < nrows (build_feature_set pl fetched).
             temperature_c (rows ! i) =
               rnd 1 (raw_predict tm
                        (map (\<lambda>c. if c \<in> set (columns (build_feature_set pl fetched))
                                   then the (map_of (cols (build_feature_set pl fetched)) c) ! i
                                   else Some 0)
                             (feature_name tm))))))"
proof (intro conjI allI impI)
  fix trained and df :: frame
  let ?X = "\<lparr>index = index df,
           cols = map (\<lambda>c. (c, if c \<in> set (columns df) then the (map_of (cols df) c)
                                else replicate (nrows df) (Some 0))) trained\<rparr>"
  let ?df' = "foldl (\<lambda>d c. set_col_scalar d c 0) df (filter (\<lambda>c. c \<notin> set (columns df)) trained)"
  let ?out = "if set trained \<subseteq> set (columns df) then []
      else [MissingFeatures (length (filter (\<lambda>c. c \<notin> set (columns df)) trained))
              (take 5 (filter (\<lambda>c. c \<notin> set (columns df)) trained))]"
  have a: "align_features trained df = (Inr ?X, ?df', ?out)" by (rule align_features_result)
  have b: "columns ?X = trained" by (simp add: columns_def comp_def)
  have c: "align_features trained ?df' = (Inr ?X, ?df', [])" by (rule align_features_filled [OF a])
  show "\<exists>X df' out.
       align_features trained df = (Inr X, df', out) \<and>
       columns X = trained \<and> index X = index df \<and>
       cols X = map (\<lambda>c. (c, if c \<in> set (columns df) then the (map_of (cols df) c)
                               else replicate (nrows df) (Some 0))) trained \<and>
       out = (if set trained \<subseteq> set (columns df) then []
              else [MissingFeatures (length (filter (\<lambda>c. c \<notin> set (columns df)) trained))
                      (take 5 (filter (\<lambda>c. c \<notin> set (columns df)) trained))]) \<and>
       align_features trained df' = (Inr X, df', [])"
    apply (rule exI [of _ ?X], rule exI [of _ ?df'], rule exI [of _ ?out])
    using a b c by simp
next
  fix rnd and pl :: pipeline and fs fetched and wp :: weather_predictor
    and pp :: precipitation_predictor and tm :: lgbm
  assume h: "weather_load MODEL_PATH fs = Inr wp \<and> precip_load PRECIP_MODEL_PATH fs = Inr pp \<and>
       map_of (models wp) ''temperature'' = Some tm \<and>
       complete_bundles (length (feature_name tm)) wp pp \<and>
       table_ready (build_feature_set pl fetched)"
  show "\<exists>rows.
          predict_main rnd pl fs fetched =
            (Inr rows,
             (if set (feature_name tm) \<subseteq> set (columns (build_feature_set pl fetched)) then []
              else [MissingFeatures
                      (length (filter (\<lambda>c. c \<notin> set (columns (build_feature_set pl fetched)))
                                 (feature_name tm)))
                      (take 5 (filter (\<lambda>c. c \<notin> set (columns (build_feature_set pl fetched)))
                                 (feature_name tm)))]) @
             [WroteHours (nrows (build_feature_set pl fetched))]) \<and>
          length rows = nrows (build_feature_set pl fetched) \<and>
          (\<forall>i < nrows (build_feature_set pl fetched).
             temperature_c (rows ! i) =
               rnd 1 (raw_predict tm
                        (map (\<lambda>c. if c \<in> set (columns (build_feature_set pl fetched))
                                   then the (map_of (cols (build_feature_set pl fetched)) c) ! i
                                   else Some 0)
                             (feature_name tm))))"
    by (rule predict_main_complete
        [OF h [THEN conjunct1] h [THEN conjunct2, THEN conjunct1]
            h [THEN conjunct2, THEN conjunct2, THEN conjunct1]
            h [THEN conjunct2, THEN conjunct2, THEN conjunct2, THEN conjunct1]
            h [THEN conjunct2, THEN conjunct2, THEN conjunct2, THEN conjunct2]])
qed

lemma ex_serve_load:
  "weather_load MODEL_PATH ex_serve_files = Inr ex_serve_weather"
  "precip_load PRECIP_MODEL_PATH ex_serve_files = Inr ex_serve_precip"
  by (simp_all add: ex_serve_files_def weather_load_def precip_load_def weather_save_def
      precip_save_def MODEL_PATH_def PRECIP_MODEL_PATH_def ex_serve_weather_def ex_serve_precip_def)

lemma ex_align:
  "fst (align_features [''A'', ''B'', ''C''] ex_serve_table) = Inr ex_aligned"
  "snd (snd (align_features [''A'', ''B'', ''C''] ex_serve_table)) = [MissingFeatures 1 [''C'']]"
  by (simp_all add: align_features_result ex_serve_table_def ex_aligned_def columns_def nrows_def)

lemma ex_abc_predict: "lgbm_predict ex_abc_model ex_aligned = Inr [4, 6]"
  by (simp add: lgbm_predict_def ex_abc_model_def ex_aligned_def columns_def rows_of_def nrows_def
      upt_conv_Cons del: upt_Suc)

lemma ex_serve_weather_predict:
  "weather_predict ex_serve_weather ex_aligned =
     Inr [(''temperature'', [4, 6]), (''humidity'', [4, 6]), (''wind_speed'', [4, 6])]"
  by (simp add: weather_predict_def ex_serve_weather_def ex_abc_predict physical_constraints_def
      clip_def)

lemma ex_serve_precip_predict:
  "precip_predict ex_serve_precip ex_aligned =
     Inr [(''precip_probability'', [1 / 2, 1 / 2]), (''precip_expected_mm'', [2, 3]),
          (''precip_if_rain_mm'', [4, 6])]"
  by (simp add: precip_predict_def ex_serve_precip_def predict_proba1_def estimator_predict_def
      ex_abc_predict isotonic_predict_def)

lemma ex_filled:
  "fst (snd (align_features [''A'', ''B'', ''C''] ex_serve_table)) =
     \<lparr>index = [0, 1],
      cols = [(''A'', [Some 1, Some 2]), (''lead_hours'', [Some 0, Some 1]),
              (''B'', [Some 3, Some 4]), (''C'', [Some 0, Some 0])]\<rparr>"
  by (simp add: align_features_result ex_serve_table_def columns_def nrows_def set_col_scalar_def)

lemma ex_serve_rows_eval:
  "forecast_rows (\<lambda>d x. x)
     \<lparr>index = [0, 1],
      cols = [(''A'', [Some 1, Some 2]), (''lead_hours'', [Some 0, Some 1]),
              (''B'', [Some 3, Some 4]), (''C'', [Some 0, Some 0])]\<rparr>
     [(''temperature'', [4, 6]), (''humidity'', [4, 6]), (''wind_speed'', [4, 6])]
     [(''precip_probability'', [1 / 2, 1 / 2]), (''precip_expected_mm'', [2, 3]),
      (''precip_if_rain_mm'', [4, 6])] = Inr ex_serve_rows"
  by (simp add: forecast_rows_def forecast_row_def nrows_def get_col_def lookup_def
      optional_range_def py_int_def ex_serve_rows_def upt_conv_Cons del: upt_Suc)

lemma ex_serve_complete:
  "complete_bundles (length (feature_name ex_abc_model)) ex_serve_weather ex_serve_precip"
  by (simp add: complete_bundles_def ex_serve_weather_def ex_serve_precip_def ex_abc_model_def
      targets_def)

lemma ex_serve_table_ready: "table_ready (build_feature_set ex_pipeline ex_serve_table)"
  by (simp add: table_ready_def ex_pipeline_def ex_serve_table_def nrows_def upt_conv_Cons
      del: upt_Suc)

lemma ex_align_all:
  "align_features [''A'', ''B'', ''C''] ex_serve_table =
     (Inr ex_aligned,
      \<lparr>index = [0, 1],
       cols = [(''A'', [Some 1, Some 2]), (''lead_hours'', [Some 0, Some 1]),
               (''B'', [Some 3, Some 4]), (''C'', [Some 0, Some 0])]\<rparr>,
      [MissingFeatures 1 [''C'']])"
  using ex_align ex_filled by (cases "align_features [''A'', ''B'', ''C''] ex_serve_table") simp

lemma ex_predict_main:
  "predict_main (\<lambda>d x. x) ex_pipeline ex_serve_files ex_serve_table =
     (Inr ex_serve_rows, [MissingFeatures 1 [''C''], WroteHours 2])"
proof -
  have tm: "map_of (models ex_serve_weather) ''temperature'' = Some ex_abc_model"
    by (simp add: ex_serve_weather_def)
  have fn: "feature_name ex_abc_model = [''A'', ''B'', ''C'']"
    and pl: "build_feature_set ex_pipeline ex_serve_table = ex_serve_table"
    by (simp_all add: ex_abc_model_def ex_pipeline_def)
  have len: "length ex_serve_rows = 2" by (simp add: ex_serve_rows_def)
  show ?thesis
    by (simp add: predict_main_def ex_serve_load tm fn pl ex_align_all serve_predictions_def
        ex_serve_weather_predict ex_serve_precip_predict ex_serve_rows_eval len)
qed

theorem missing_features_zero_filled_witness:
  "weather_load MODEL_PATH ex_serve_files = Inr ex_serve_weather \<and>
   precip_load PRECIP_MODEL_PATH ex_serve_files = Inr ex_serve_precip \<and>
   map_of (models ex_serve_weather) ''temperature'' = Some ex_abc_model \<and>
   complete_bundles (length (feature_name ex_abc_model)) ex_serve_weather ex_serve_precip \<and>
   table_ready (build_feature_set ex_pipeline ex_serve_table) \<and>
   ''C'' \<in> set (feature_name ex_abc_model) \<and> ''C'' \<notin> set (columns ex_serve_table) \<and>
   predict_main (\<lambda>d x. x) ex_pipeline ex_serve_files ex_serve_table =
     (Inr ex_serve_rows, [MissingFeatures 1 [''C''], WroteHours 2]) \<and>
   length ex_serve_rows = 2 \<and>
   temperature_c (ex_serve_rows ! 0) = 1 + 3 + 0 \<and>
   temperature_c (ex_serve_rows ! 1) = 2 + 4 + 0"
proof -
  have tm: "map_of (models ex_serve_weather) ''temperature'' = Some ex_abc_model"
    by (simp add: ex_serve_weather_def)
  have pre: "weather_load MODEL_PATH ex_serve_files = Inr ex_serve_weather \<and>
     precip_load PRECIP_MODEL_PATH ex_serve_files = Inr ex_serve_precip \<and>
     map_of (models ex_serve_weather) ''temperature'' = Some ex_abc_model \<and>
     complete_bundles (length (feature_name ex_abc_model)) ex_serve_weather ex_serve_precip \<and>
     table_ready (build_feature_set ex_pipeline ex_serve_table)"
    by (intro conjI ex_serve_load tm ex_serve_complete ex_serve_table_ready)
  have fn: "feature_name ex_abc_model = [''A'', ''B'', ''C'']"
    and pl: "build_feature_set ex_pipeline ex_serve_table = ex_serve_table"
    and n: "nrows ex_serve_table = 2"
    and cs: "columns ex_serve_table = [''A'', ''lead_hours'', ''B'']"
    by (simp_all add: ex_abc_model_def ex_pipeline_def nrows_def columns_def ex_serve_table_def)
  note u = missing_features_zero_filled [THEN conjunct2, rule_format,
      where fs = ex_serve_files and wp = ex_serve_weather and pp = ex_serve_precip
        and tm = ex_abc_model and rnd = "\<lambda>d x. x" and pl = ex_pipeline
        and fetched = ex_serve_table, OF pre]
  then obtain rows where
    m: "predict_main (\<lambda>d x. x) ex_pipeline ex_serve_files ex_serve_table =
          (Inr rows,
           (if set (feature_name ex_abc_model) \<subseteq>
                 set (columns (build_feature_set ex_pipeline ex_serve_table)) then []
            else [MissingFeatures
                    (length (filter (\<lambda>c. c \<notin> set (columns (build_feature_set ex_pipeline ex_serve_table)))
                               (feature_name ex_abc_model)))
                    (take 5 (filter (\<lambda>c. c \<notin> set (columns (build_feature_set ex_pipeline ex_serve_table)))
                               (feature_name ex_abc_model)))]) @
           [WroteHours (nrows (build_feature_set ex_pipeline ex_serve_table))])"
    and l: "length rows = nrows (build_feature_set ex_pipeline ex_serve_table)"
    and t: "\<forall>i < nrows (build_feature_set ex_pipeline ex_serve_table).
             temperature_c (rows ! i) =
               raw_predict ex_abc_model
                 (map (\<lambda>c. if c \<in> set (columns (build_feature_set ex_pipeline ex_serve_table))
                            then the (map_of (cols (build_feature_set ex_pipeline ex_serve_table)) c) ! i
                            else Some 0)
                      (feature_name ex_abc_model))"
    by (elim exE conjE)
  from m have msg: "predict_main (\<lambda>d x. x) ex_pipeline ex_serve_files ex_serve_table =
      (Inr rows, [MissingFeatures 1 [''C''], WroteHours 2])"
    unfolding fn pl n cs by simp
  from l have l2: "length rows = 2" unfolding pl n .
  from t [rule_format, of 0] have t0: "temperature_c (rows ! 0) = 1 + 3 + 0"
    unfolding fn pl n cs by (simp add: ex_abc_model_def ex_serve_table_def)
  from t [rule_format, of 1] have t1: "temperature_c (rows ! 1) = 2 + 4 + 0"
    unfolding fn pl n cs by (simp add: ex_abc_model_def ex_serve_table_def)
  from msg ex_predict_main have rows: "rows = ex_serve_rows" by simp
  have c: "''C'' \<in> set (feature_name ex_abc_model)" "''C'' \<notin> set (columns ex_serve_table)"
    unfolding fn cs by simp_all
  show ?thesis
    using pre c msg l2 t0 t1 unfolding rows by (intro conjI) simp_all
qed

lemma ex_mixed_load:
  "weather_load MODEL_PATH ex_mixed_files = Inr ex_ab_weather"
  "precip_load PRECIP_MODEL_PATH ex_mixed_files = Inr ex_serve_precip"
  "weather_load MODEL_PATH ex_temperature_only_files = Inr ex_temperature_only"
  "precip_load PRECIP_MODEL_PATH ex_temperature_only_files = Inr ex_serve_precip"
  by (simp_all add: ex_mixed_files_def ex_temperature_only_files_def weather_load_def
      precip_load_def weather_save_def precip_save_def MODEL_PATH_def PRECIP_MODEL_PATH_def
      ex_ab_weather_def ex_temperature_only_def ex_serve_precip_def)

lemma ex_mixed_run:
  "predict_main (\<lambda>d x. x) ex_pipeline ex_mixed_files ex_serve_table = (Inl ValueError, [])"
proof -
  have tm: "map_of (models ex_ab_weather) ''temperature'' = Some ex_ab_model"
    by (simp add: ex_ab_weather_def)
  have fn: "feature_name ex_ab_model = [''A'', ''B'']"
    and pl: "build_feature_set ex_pipeline ex_serve_table = ex_serve_table"
    by (simp_all add: ex_ab_model_def ex_pipeline_def)
  let ?X = "\<lparr>index = [0, 1], cols = [(''A'', [Some 1, Some 2]), (''B'', [Some 3, Some 4])]\<rparr>"
  have al: "align_features [''A'', ''B''] ex_serve_table = (Inr ?X, ex_serve_table, [])"
    by (simp add: align_features_def select_cols_def columns_def ex_serve_table_def)
  have ab: "lgbm_predict ex_ab_model ?X = Inr [4, 6]"
    by (simp add: lgbm_predict_def ex_ab_model_def columns_def rows_of_def nrows_def
        upt_conv_Cons del: upt_Suc)
  have w: "weather_predict ex_ab_weather ?X =
      Inr [(''temperature'', [4, 6]), (''humidity'', [4, 6]), (''wind_speed'', [4, 6])]"
    by (simp add: weather_predict_def ex_ab_weather_def ab physical_constraints_def clip_def)
  have p: "precip_predict ex_serve_precip ?X = Inl ValueError"
    by (simp add: precip_predict_def ex_serve_precip_def predict_proba1_def estimator_predict_def
        lgbm_predict_def ex_abc_model_def columns_def)
  show ?thesis
    by (simp add: predict_main_def ex_mixed_load tm fn pl al serve_predictions_def w p)
qed

lemma ex_temperature_only_run:
  "predict_main (\<lambda>d x. x) ex_pipeline ex_temperature_only_files ex_serve_table =
     (Inl (KeyError ''humidity''), [MissingFeatures 1 [''C'']])"
proof -
  have tm: "map_of (models ex_temperature_only) ''temperature'' = Some ex_abc_model"
    by (simp add: ex_temperature_only_def)
  have fn: "feature_name ex_abc_model = [''A'', ''B'', ''C'']"
    and pl: "build_feature_set ex_pipeline ex_serve_table = ex_serve_table"
    by (simp_all add: ex_abc_model_def ex_pipeline_def)
  have w: "weather_predict ex_temperature_only ex_aligned = Inr [(''temperature'', [4, 6])]"
    by (simp add: weather_predict_def ex_temperature_only_def ex_abc_predict
        physical_constraints_def)
  have r: "forecast_rows (\<lambda>d x. x)
     \<lparr>index = [0, 1],
      cols = [(''A'', [Some 1, Some 2]), (''lead_hours'', [Some 0, Some 1]),
              (''B'', [Some 3, Some 4]), (''C'', [Some 0, Some 0])]\<rparr>
     [(''temperature'', [4, 6])]
     [(''precip_probability'', [1 / 2, 1 / 2]), (''precip_expected_mm'', [2, 3]),
      (''precip_if_rain_mm'', [4, 6])] = Inl (KeyError ''humidity'')"
    by (simp add: forecast_rows_def forecast_row_def nrows_def get_col_def lookup_def
        upt_conv_Cons del: upt_Suc)
  show ?thesis
    by (simp add: predict_main_def ex_mixed_load tm fn pl ex_align_all serve_predictions_def
        w ex_serve_precip_predict r)
qed

lemma ex_empty_run:
  "predict_main (\<lambda>d x. x) ex_pipeline ex_serve_files ex_empty_table =
     (Inl ValueError, [MissingFeatures 1 [''C'']])"
proof -
  have tm: "map_of (models ex_serve_weather) ''temperature'' = Some ex_abc_model"
    by (simp add: ex_serve_weather_def)
  have fn: "feature_name ex_abc_model = [''A'', ''B'', ''C'']"
    and pl: "build_feature_set ex_pipeline ex_empty_table = ex_empty_table"
    by (simp_all add: ex_abc_model_def ex_pipeline_def)
  let ?X = "\<lparr>index = [], cols = [(''A'', []), (''B'', []), (''C'', [])]\<rparr>"
  have al: "\<exists>df'. align_features [''A'', ''B'', ''C''] ex_empty_table =
      (Inr ?X, df', [MissingFeatures 1 [''C'']])"
    by (simp add: align_features_result ex_empty_table_def columns_def nrows_def)
  then obtain df' where al': "align_features [''A'', ''B'', ''C''] ex_empty_table =
      (Inr ?X, df', [MissingFeatures 1 [''C'']])" ..
  have w: "weather_predict ex_serve_weather ?X = Inl ValueError"
    by (simp add: weather_predict_def ex_serve_weather_def lgbm_predict_def nrows_def)
  show ?thesis
    by (simp add: predict_main_def ex_serve_load tm fn pl al' serve_predictions_def w)
qed

text \<open>
  C4 as stated fails for a feature that only another estimator was fitted on, for a
  bundle without a humidity model, and for a table without rows. With a weather bundle
  fitted on A and B and a precipitation bundle fitted on A, B and C, on a table that
  holds A and B, the run neither fills nor reports C and the precipitation classifier
  raises ValueError. With a weather bundle that holds a temperature model only, the run
  fills and reports C and then raises KeyError when it reads the humidity prediction.
  With both bundles fitted on A, B and C and a table that has the columns A and B and no
  row, the run fills and reports C and the first estimator raises ValueError.
\<close>

theorem prediction_fails_on_feature_of_other_estimator:
  "weather_load MODEL_PATH ex_mixed_files = Inr ex_ab_weather \<and>
   precip_load PRECIP_MODEL_PATH ex_mixed_files = Inr ex_serve_precip \<and>
   map_of (models ex_ab_weather) ''temperature'' = Some ex_ab_model \<and>
   feature_name ex_ab_model = [''A'', ''B''] \<and>
   classifier ex_serve_precip = Some ex_abc_model \<and>
   feature_name ex_abc_model = [''A'', ''B'', ''C''] \<and>
   columns ex_serve_table = [''A'', ''lead_hours'', ''B''] \<and>
   predict_main (\<lambda>d x. x) ex_pipeline ex_mixed_files ex_serve_table = (Inl ValueError, []) \<and>
   weather_load MODEL_PATH ex_temperature_only_files = Inr ex_temperature_only \<and>
   precip_load PRECIP_MODEL_PATH ex_temperature_only_files = Inr ex_serve_precip \<and>
   models ex_temperature_only = [(''temperature'', ex_abc_model)] \<and>
   predict_main (\<lambda>d x. x) ex_pipeline ex_temperature_only_files ex_serve_table =
     (Inl (KeyError ''humidity''), [MissingFeatures 1 [''C'']]) \<and>
   weather_load MODEL_PATH ex_serve_files = Inr ex_serve_weather \<and>
   precip_load PRECIP_MODEL_PATH ex_serve_files = Inr ex_serve_precip \<and>
   complete_bundles (length (feature_name ex_abc_model)) ex_serve_weather ex_serve_precip \<and>
   nrows ex_empty_table = 0 \<and>
   predict_main (\<lambda>d x. x) ex_pipeline ex_serve_files ex_empty_table =
     (Inl ValueError, [MissingFeatures 1 [''C'']])"
  by (simp add: ex_mixed_load ex_mixed_run ex_temperature_only_run ex_serve_load
      ex_serve_complete ex_empty_run)
     (simp add: ex_ab_weather_def ex_ab_model_def ex_serve_precip_def ex_abc_model_def
      columns_def nrows_def ex_serve_table_def ex_empty_table_def ex_temperature_only_def)
section \<open>Properties of the persisted bundles\<close>

lemma set_update_subset: "set (AList.update k v al) \<subseteq> insert (k, v) (set al)"
  by (induction al) auto

lemma columns_take_rows: "columns (take_rows ps df) = columns df"
  by (simp add: take_rows_def columns_def case_prod_unfold comp_def)

lemma columns_loc_rows: "columns (loc_rows ls df) = columns df"
  by (simp add: loc_rows_def columns_take_rows)

lemma columns_mask_rows: "columns (mask_rows bs df) = columns df"
  by (simp add: mask_rows_def columns_take_rows)

lemma fit_quantiles_feature_names:
  assumes "fit_quantiles tk X y qm alphas = Inr qm'"
    and "\<forall>(a, g) \<in> set qm. feature_name g = columns X"
  shows "\<forall>(a, g) \<in> set qm'. feature_name g = columns X"
  using assms
proof (induction alphas arbitrary: qm)
  case Nil
  then show ?case by simp
next
  case (Cons alpha rest)
  from Cons.prems(1) obtain qmodel where
    f: "lgbm_fit tk (Quantile alpha) False X y None = Inr qmodel"
    and r: "fit_quantiles tk X y (AList.update alpha qmodel qm) rest = Inr qm'"
    by (auto split: sum.splits)
  have "\<forall>(a, g) \<in> set (AList.update alpha qmodel qm). feature_name g = columns X"
    using set_update_subset [of alpha qmodel qm] Cons.prems(2) lgbm_fit_feature_name [OF f]
    by auto
  from Cons.IH [OF r this] show ?case .
qed

lemma select_cols_columns: "select_cols df names = Inr X \<Longrightarrow> columns X = names"
  by (auto simp: select_cols_def columns_def comp_def split: list.splits)

lemma train_target_fitted_on:
  assumes "train_target tk X_train y_train X_val y_val (wp, sc, out) target = Inr (wp', sc', out')"
    and "fitted_on (columns X_train) wp"
  shows "fitted_on (columns X_train) wp'"
proof -
  consider (same) "wp' = wp"
    | (fit) common yt ev model qs where
        "lgbm_fit tk Regression True (loc_rows common X_train) yt ev = Inr model"
        "fit_quantiles tk (loc_rows common X_train) yt [] [1 / 10, 9 / 10] = Inr qs"
        "wp' = wp\<lparr>models := AList.update target model (models wp),
                  quantile_models := AList.update target qs (quantile_models wp)\<rparr>"
    using assms(1)
    by (auto simp: train_target_def Let_def split: option.splits if_splits sum.splits)
  then show ?thesis
  proof cases
    case same
    with assms(2) show ?thesis by simp
  next
    case fit
    have fm: "feature_name model = columns X_train"
      using lgbm_fit_feature_name [OF fit(1)] by (simp add: columns_loc_rows)
    have fq: "\<forall>(a, g) \<in> set qs. feature_name g = columns X_train"
      using fit_quantiles_feature_names [OF fit(2)] by (simp add: columns_loc_rows)
    have m: "feature_name g = columns X_train" if "(t, g) \<in> set (models wp')" for t g
    proof -
      from that fit(3) set_update_subset
      have "(t, g) = (target, model) \<or> (t, g) \<in> set (models wp)" by fastforce
      then show ?thesis
        using assms(2) fm by (auto simp: fitted_on_def)
    qed
    have q: "feature_name g = columns X_train"
      if "(t, qs') \<in> set (quantile_models wp')" "(a, g) \<in> set qs'" for t qs' a g
    proof -
      from that(1) fit(3) set_update_subset
      have "(t, qs') = (target, qs) \<or> (t, qs') \<in> set (quantile_models wp)" by fastforce
      then show ?thesis
        using assms(2) that(2) fq
        by (auto simp: fitted_on_def)
    qed
    from m q show ?thesis unfolding fitted_on_def by blast
  qed
qed

lemma train_targets_fitted_on:
  assumes "train_targets tk X_train y_train X_val y_val st ts = Inr st'"
    and "fitted_on (columns X_train) (fst st)"
  shows "fitted_on (columns X_train) (fst st')"
  using assms
proof (induction ts arbitrary: st)
  case Nil
  then show ?case by simp
next
  case (Cons t ts)
  from Cons.prems(1) obtain st1 where
    s1: "train_target tk X_train y_train X_val y_val st t = Inr st1"
    and s2: "train_targets tk X_train y_train X_val y_val st1 ts = Inr st'"
    by (auto split: sum.splits)
  obtain wp sc out where st: "st = (wp, sc, out)" by (cases st)
  obtain wp1 sc1 out1 where st1: "st1 = (wp1, sc1, out1)" by (cases st1)
  from train_target_fitted_on [OF s1 [unfolded st st1]] Cons.prems(2) st
  have "fitted_on (columns X_train) (fst st1)" by (simp add: st1)
  from Cons.IH [OF s2 this] show ?case .
qed

lemma weather_train_fitted_on:
  assumes "weather_train tk weather_init X_train y_train X_val y_val = Inr (wp, sc, out)"
  shows "fitted_on (columns X_train) wp"
proof -
  have "fitted_on (columns X_train) (fst (weather_init, [], []))"
    by (simp add: fitted_on_def weather_init_def)
  from train_targets_fitted_on [OF assms [unfolded weather_train_def] this] show ?thesis by simp
qed

lemma stored_weather_lists:
  "(\<forall>l \<in> set (stored_feature_lists (WeatherArtifact (models wp) (quantile_models wp))). l = cs)
     \<longleftrightarrow> fitted_on cs wp"
  by (auto simp: stored_feature_lists_def fitted_on_def) fastforce+

lemma precip_train_fitted_on:
  assumes "precip_train tk precip_init X_train y_train X_val y_val = Inr (pp, sc, out)"
  shows "(\<exists>c. classifier pp = Some c \<and> feature_name c = columns X_train) \<and>
         (\<forall>r. regressor pp = Some r \<longrightarrow> feature_name r = columns X_train) \<and>
         (\<forall>(a, g) \<in> set (pp_quantile_models pp). feature_name g = columns X_train)"
proof (cases "100 < mask_sum (map is_rain y_train)")
  case False
  from precip_train_skipped [OF assms False] show ?thesis by auto
next
  case True
  from precip_train_state [OF assms] obtain clf cal where
    clf: "lgbm_fit tk Binary True X_train (map rain_label y_train)
            (Some (X_val, map rain_label y_val)) = Inr clf"
    and st: "precip_stage2 tk (precip_init\<lparr>classifier := Some clf, calibrator := Some cal\<rparr>)
               X_train y_train X_val y_val = Inr pp"
    by (elim exE conjE)
  from precip_stage2_state [OF st] True obtain reg qm where
    reg: "lgbm_fit tk Tweedie True
                 (mask_rows (map is_rain y_train) X_train)
                 (mask_list (map is_rain y_train) y_train)
                 (if mask_sum (map is_rain y_val) > 10
                  then Some (mask_rows (map is_rain y_val) X_val,
                             mask_list (map is_rain y_val) y_val)
                  else None) = Inr reg"
    and qm: "fit_quantiles tk
                 (mask_rows (map is_rain y_train) X_train)
                 (mask_list (map is_rain y_train) y_train)
                 (pp_quantile_models (precip_init\<lparr>classifier := Some clf, calibrator := Some cal\<rparr>))
                 precip_alphas = Inr qm"
    and pp: "pp = precip_init\<lparr>classifier := Some clf, calibrator := Some cal,
                              regressor := Some reg, pp_quantile_models := qm\<rparr>"
    by auto
  have "\<forall>(a, g) \<in> set qm. feature_name g = columns X_train"
    using fit_quantiles_feature_names [OF qm] by (simp add: precip_init_def columns_mask_rows)
  with lgbm_fit_feature_name [OF clf] lgbm_fit_feature_name [OF reg] pp
  show ?thesis by (simp add: columns_mask_rows)
qed

lemma stored_precip_lists:
  assumes "\<exists>c. classifier pp = Some c \<and> feature_name c = cs"
    and "\<forall>r. regressor pp = Some r \<longrightarrow> feature_name r = cs"
    and "\<forall>(a, g) \<in> set (pp_quantile_models pp). feature_name g = cs"
  shows "stored_feature_lists
           (PrecipArtifact (classifier pp) (regressor pp) (calibrator pp) (pp_quantile_models pp)) \<noteq> [] \<and>
         (\<forall>l \<in> set (stored_feature_lists
              (PrecipArtifact (classifier pp) (regressor pp) (calibrator pp) (pp_quantile_models pp))).
            l = cs)"
  using assms by (auto simp: stored_feature_lists_def split: option.splits)

lemma save_load_weather:
  "weather_load path (weather_save wp path fs) = Inr wp"
  "weather_save wp path fs path = Some (WeatherArtifact (models wp) (quantile_models wp))"
  by (simp_all add: weather_load_def weather_save_def)

lemma save_load_precip:
  "precip_load path (precip_save pp path fs) = Inr pp"
  "precip_save pp path fs path =
     Some (PrecipArtifact (classifier pp) (regressor pp) (calibrator pp) (pp_quantile_models pp))"
  by (simp_all add: precip_load_def precip_save_def)

lemma predict_main_reads_temperature_model:
  assumes "weather_load MODEL_PATH fs = Inr wp" and "precip_load PRECIP_MODEL_PATH fs = Inr pp"
  shows "(map_of (models wp) ''temperature'' = None \<longrightarrow>
            predict_main rnd pl fs fetched = (Inl (KeyError ''temperature''), [])) \<and>
         (\<forall>tm. map_of (models wp) ''temperature'' = Some tm \<longrightarrow>
            (\<exists>X df' out. predict_main rnd pl fs fetched = serve_predictions rnd wp pp df' X out \<and>
               columns X = feature_name tm))"
proof (intro conjI allI impI)
  assume "map_of (models wp) ''temperature'' = None"
  with assms show "predict_main rnd pl fs fetched = (Inl (KeyError ''temperature''), [])"
    by (simp add: predict_main_def Let_def)
next
  fix tm :: lgbm
  assume tm: "map_of (models wp) ''temperature'' = Some tm"
  let ?df = "build_feature_set pl fetched"
  let ?X = "\<lparr>index = index ?df,
           cols = map (\<lambda>c. (c, if c \<in> set (columns ?df) then the (map_of (cols ?df) c)
                                else replicate (nrows ?df) (Some 0))) (feature_name tm)\<rparr>"
  obtain df' out where a: "align_features (feature_name tm) ?df = (Inr ?X, df', out)"
    using align_features_result [of "feature_name tm" ?df] by simp
  have b: "columns ?X = feature_name tm" by (simp add: columns_def comp_def)
  have m: "predict_main rnd pl fs fetched = serve_predictions rnd wp pp df' ?X out"
    using assms tm a by (simp add: predict_main_def Let_def)
  show "\<exists>X df' out. predict_main rnd pl fs fetched = serve_predictions rnd wp pp df' X out \<and>
               columns X = feature_name tm"
    apply (rule exI [of _ ?X], rule exI [of _ df'], rule exI [of _ out])
    using m b by simp
qed

text \<open>
  C8, as the code has it. The dumped dicts have no entry for a list of feature names: the
  names are inside the fitted estimators, and a file read back gives the predictor that
  was saved. After \<^verbatim>\<open>train\<close> on a fresh predictor, every estimator of the weather
  bundle carries the columns of the training frame in their order, and so does every
  estimator of the precipitation bundle, which always has one (its classifier); a frame
  selected by a list of names has those names as its columns. At serve time
  \<^verbatim>\<open>main\<close> reads the list of the weather bundle's temperature model and gives the
  frame aligned to it to both predictors; without a temperature model it raises KeyError.
\<close>

theorem bundles_carry_fit_time_feature_names:
  "(\<forall>df names X. select_cols df names = Inr X \<longrightarrow> columns X = names) \<and>
   (\<forall>tk X_train y_train X_val y_val wp sc out path fs.
      weather_train tk weather_init X_train y_train X_val y_val = Inr (wp, sc, out) \<longrightarrow>
      weather_save wp path fs path = Some (WeatherArtifact (models wp) (quantile_models wp)) \<and>
      weather_load path (weather_save wp path fs) = Inr wp \<and>
      (\<forall>l \<in> set (stored_feature_lists (WeatherArtifact (models wp) (quantile_models wp))).
         l = columns X_train)) \<and>
   (\<forall>tk X_train y_train X_val y_val pp sc out path fs.
      precip_train tk precip_init X_train y_train X_val y_val = Inr (pp, sc, out) \<longrightarrow>
      precip_save pp path fs path =
        Some (PrecipArtifact (classifier pp) (regressor pp) (calibrator pp) (pp_quantile_models pp)) \<and>
      precip_load path (precip_save pp path fs) = Inr pp \<and>
      stored_feature_lists
        (PrecipArtifact (classifier pp) (regressor pp) (calibrator pp) (pp_quantile_models pp)) \<noteq> [] \<and>
      (\<forall>l \<in> set (stored_feature_lists
           (PrecipArtifact (classifier pp) (regressor pp) (calibrator pp) (pp_quantile_models pp))).
         l = columns X_train)) \<and>
   (\<forall>rnd pl fs fetched wp pp.
      weather_load MODEL_PATH fs = Inr wp \<and> precip_load PRECIP_MODEL_PATH fs = Inr pp \<longrightarrow>
      (map_of (models wp) ''temperature'' = None \<longrightarrow>
         predict_main rnd pl fs fetched = (Inl (KeyError ''temperature''), [])) \<and>
      (\<forall>tm. map_of (models wp) ''temperature'' = Some tm \<longrightarrow>
         (\<exists>X df' out. predict_main rnd pl fs fetched = serve_predictions rnd wp pp df' X out \<and>
            columns X = feature_name tm)))"
proof -
  have p1: "\<forall>df names X. select_cols df names = Inr X \<longrightarrow> columns X = names"
    using select_cols_columns by blast
  have p2: "weather_save wp path fs path = Some (WeatherArtifact (models wp) (quantile_models wp)) \<and>
      weather_load path (weather_save wp path fs) = Inr wp \<and>
      (\<forall>l \<in> set (stored_feature_lists (WeatherArtifact (models wp) (quantile_models wp))).
         l = columns X_train)"
    if "weather_train tk weather_init X_train y_train X_val y_val = Inr (wp, sc, out)"
    for tk X_train y_train X_val y_val wp sc out path and fs :: files
    using weather_train_fitted_on [OF that] save_load_weather [where path = path and wp = wp and fs = fs]
    by (simp add: stored_weather_lists)
  have p3: "precip_save pp path fs path =
        Some (PrecipArtifact (classifier pp) (regressor pp) (calibrator pp) (pp_quantile_models pp)) \<and>
      precip_load path (precip_save pp path fs) = Inr pp \<and>
      stored_feature_lists
        (PrecipArtifact (classifier pp) (regressor pp) (calibrator pp) (pp_quantile_models pp)) \<noteq> [] \<and>
      (\<forall>l \<in> set (stored_feature_lists
           (PrecipArtifact (classifier pp) (regressor pp) (calibrator pp) (pp_quantile_models pp))).
         l = columns X_train)"
    if t: "precip_train tk precip_init X_train y_train X_val y_val = Inr (pp, sc, out)"
    for tk X_train y_train X_val y_val pp sc out path and fs :: files
  proof -
    note f = precip_train_fitted_on [OF t]
    from stored_precip_lists [OF f [THEN conjunct1] f [THEN conjunct2, THEN conjunct1]
        f [THEN conjunct2, THEN conjunct2]] save_load_precip [where path = path and pp = pp and fs = fs]
    show ?thesis by simp
  qed
  have p4: "(map_of (models wp) ''temperature'' = None \<longrightarrow>
         predict_main rnd pl fs fetched = (Inl (KeyError ''temperature''), [])) \<and>
      (\<forall>tm. map_of (models wp) ''temperature'' = Some tm \<longrightarrow>
         (\<exists>X df' out. predict_main rnd pl fs fetched = serve_predictions rnd wp pp df' X out \<and>
            columns X = feature_name tm))"
    if "weather_load MODEL_PATH fs = Inr wp \<and> precip_load PRECIP_MODEL_PATH fs = Inr pp"
    for rnd pl fs fetched wp pp
    using predict_main_reads_temperature_model [where fs = fs and wp = wp and pp = pp and rnd = rnd and pl = pl and fetched = fetched] that by simp
  show ?thesis
    apply (intro conjI)
       apply (rule p1)
      apply (intro allI impI, erule p2)
     apply (intro allI impI, erule p3)
    apply (intro allI impI, erule p4)
    done
qed

lemma get_series_in_columns: "get_series df c = Inr s \<Longrightarrow> c \<in> set (columns df)"
  by (auto simp: get_series_def get_col_def mem_columns_iff split: sum.splits option.splits)

lemma fit_quantiles_succeeds:
  assumes "\<And>obj es X y ev. \<exists>f. fit_trees tk obj es X y ev = Some f"
  shows "\<exists>qm'. fit_quantiles tk X y qm alphas = Inr qm'"
proof (induction alphas arbitrary: qm)
  case Nil
  then show ?case by simp
next
  case (Cons alpha rest)
  from assms [of "Quantile alpha" False X y None] obtain f where
    "fit_trees tk (Quantile alpha) False X y None = Some f" ..
  then have "lgbm_fit tk (Quantile alpha) False X y None =
      Inr \<lparr>feature_name = columns X, raw_predict = f\<rparr>"
    by (simp add: lgbm_fit_def eval_set_refused_def)
  with Cons.IH show ?case by simp
qed

lemma train_target_fits:
  assumes oc: "map_of target_to_obs_col target = Some oc"
    and yt: "get_series y_train oc = Inr yt0"
    and big: "\<not> length (intersection (map fst (dropna yt0)) (index X_train)) < 100"
    and yv: "get_series y_val oc = Inr yv0"
    and w: "length (columns X_val) = length (columns X_train)"
    and rows: "0 < nrows (loc_rows (intersection (map fst (dropna yv0)) (index X_val)) X_val)"
    and tk: "\<And>obj es X y ev. \<exists>f. fit_trees tk obj es X y ev = Some f"
  shows "\<exists>wp' sc' out'.
           train_target tk X_train y_train X_val y_val (wp, sc, out) target = Inr (wp', sc', out') \<and>
           (\<exists>g. map_of (models wp') target = Some g \<and> feature_name g = columns X_train)"
proof -
  have mem: "oc \<in> set (columns y_train)" by (rule get_series_in_columns [OF yt])
  let ?common = "intersection (map fst (dropna yt0)) (index X_train)"
  let ?vc = "intersection (map fst (dropna yv0)) (index X_val)"
  let ?ev = "Some (loc_rows ?vc X_val, series_loc ?vc (dropna yv0))"
  from tk [of Regression True "loc_rows ?common X_train" "series_loc ?common (dropna yt0)" ?ev]
  obtain f where "fit_trees tk Regression True (loc_rows ?common X_train)
      (series_loc ?common (dropna yt0)) ?ev = Some f" ..
  with rows have fit: "lgbm_fit tk Regression True (loc_rows ?common X_train)
      (series_loc ?common (dropna yt0)) ?ev =
      Inr \<lparr>feature_name = columns X_train, raw_predict = f\<rparr>"
    by (simp add: lgbm_fit_def eval_set_refused_def columns_loc_rows)
  let ?model = "\<lparr>feature_name = columns X_train, raw_predict = f\<rparr>"
  from rows w obtain preds where p: "lgbm_predict ?model (loc_rows ?vc X_val) = Inr preds"
    by (auto simp: lgbm_predict_def columns_loc_rows)
  from fit_quantiles_succeeds [OF tk] obtain qs where
    q: "fit_quantiles tk (loc_rows ?common X_train) (series_loc ?common (dropna yt0)) []
          [1 / 10, 9 / 10] = Inr qs" by blast
  show ?thesis
    using oc yt big yv mem fit p q
    by (simp add: train_target_def Let_def update_conv' del: fit_quantiles.simps)
qed

lemma train_target_absent:
  assumes "map_of target_to_obs_col target = Some oc" and "oc \<notin> set (columns y_train)"
  shows "train_target tk X_train y_train X_val y_val st target = Inr st"
  using assms by (cases st) (simp add: train_target_def)

lemma dropna_zip_Some: "dropna (zip xs (replicate n (Some v))) = zip xs (replicate n (Some v))"
  by (auto simp: dropna_def filter_id_conv dest!: set_zip_rightD)

lemma intersection_distinct_self: "distinct xs \<Longrightarrow> intersection xs xs = xs"
  by (simp add: intersection_def unique_def distinct_remdups_id)

lemma ex_hours: "length (map int [0 ..< 100]) = 100" "distinct (map int [0 ..< 100])"
proof -
  show "length (map int [0 ..< 100]) = 100" by (simp only: length_map length_upt)
  have "inj_on int (set [0 ..< 100])" by (rule inj_on_subset [OF inj_of_nat subset_UNIV])
  then show "distinct (map int [0 ..< 100])"
    by (simp only: distinct_map distinct_upt simp_thms)
qed

lemma ex_common_100:
  "intersection (map fst (dropna (zip (map int [0 ..< 100]) (replicate 100 (Some 19)))))
     (map int [0 ..< 100]) = map int [0 ..< 100]"
proof -
  have "map fst (zip (map int [0 ..< 100]) (replicate 100 (Some (19 :: real)))) = map int [0 ..< 100]"
    by (rule map_fst_zip) (simp only: ex_hours length_replicate)
  then show ?thesis
    by (simp only: dropna_zip_Some intersection_distinct_self [OF ex_hours(2)])
qed

lemma ex_weather_train_100:
  "\<exists>wp sc out.
     weather_train ex_toolkit weather_init ex_X100 ex_obs100 ex_X ex_obs = Inr (wp, sc, out) \<and>
     (\<exists>g. map_of (models wp) ''temperature'' = Some g \<and> feature_name g = columns ex_X100)"
proof -
  have oc: "map_of target_to_obs_col ''temperature'' = Some ''obs_temp''"
    by (simp add: target_to_obs_col_def)
  have yt: "get_series ex_obs100 ''obs_temp'' =
      Inr (zip (map int [0 ..< 100]) (replicate 100 (Some 19)))"
    unfolding get_series_def get_col_def ex_obs100_def by simp
  have idx: "index ex_X100 = map int [0 ..< 100]" unfolding ex_X100_def by simp
  have big: "\<not> length (intersection
        (map fst (dropna (zip (map int [0 ..< 100]) (replicate 100 (Some 19))))) (index ex_X100)) < 100"
    unfolding idx ex_common_100 ex_hours(1) by simp
  have yv: "get_series ex_obs ''obs_temp'' = Inr [(0, Some 19)]"
    by (simp add: get_series_def get_col_def ex_obs_def)
  have w: "length (columns ex_X) = length (columns ex_X100)"
    by (simp add: columns_def ex_X_def ex_X100_def)
  have rows: "0 < nrows (loc_rows (intersection (map fst (dropna [(0, Some 19)])) (index ex_X)) ex_X)"
    by (simp add: nrows_def loc_rows_def take_rows_def label_positions_def dropna_def
        intersection_def unique_def ex_X_def)
  have tk: "\<exists>f. fit_trees ex_toolkit obj es X y ev = Some f" for obj es X y ev
    by (simp add: ex_toolkit_def)
  from train_target_fits [OF oc yt big yv w rows tk, of weather_init "[]" "[]"]
  obtain wp1 sc1 out1 g where
    s1: "train_target ex_toolkit ex_X100 ex_obs100 ex_X ex_obs (weather_init, [], []) ''temperature''
           = Inr (wp1, sc1, out1)"
    and g: "map_of (models wp1) ''temperature'' = Some g" "feature_name g = columns ex_X100"
    by blast
  have cols: "columns ex_obs100 = [''obs_temp'']" by (simp add: columns_def ex_obs100_def)
  have s2: "train_target ex_toolkit ex_X100 ex_obs100 ex_X ex_obs (wp1, sc1, out1) ''humidity''
           = Inr (wp1, sc1, out1)"
    by (rule train_target_absent [where oc = "''obs_humidity''"])
       (simp_all add: target_to_obs_col_def cols)
  have s3: "train_target ex_toolkit ex_X100 ex_obs100 ex_X ex_obs (wp1, sc1, out1) ''wind_speed''
           = Inr (wp1, sc1, out1)"
    by (rule train_target_absent [where oc = "''obs_wind_speed''"])
       (simp_all add: target_to_obs_col_def cols)
  have s4: "train_target ex_toolkit ex_X100 ex_obs100 ex_X ex_obs (wp1, sc1, out1) ''wind_direction''
           = Inr (wp1, sc1, out1)"
    by (rule train_target_absent [where oc = "''obs_wind_dir''"])
       (simp_all add: target_to_obs_col_def cols)
  have "weather_train ex_toolkit weather_init ex_X100 ex_obs100 ex_X ex_obs = Inr (wp1, sc1, out1)"
    by (simp add: weather_train_def targets_def s1 s2 s3 s4)
  with g show ?thesis by blast
qed

lemma ex_weather_train_skips:
  "weather_train ex_toolkit weather_init ex_X ex_obs ex_X ex_obs =
     Inr (weather_init, [],
          [SkippingTarget ''temperature'' 1, SkippingTarget ''humidity'' 1,
           SkippingTarget ''wind_speed'' 1, SkippingTarget ''wind_direction'' 1])"
  by (simp add: weather_train_def targets_def train_target_def target_to_obs_col_def
      get_series_def get_col_def dropna_def intersection_def unique_def Let_def
      ex_obs_def ex_X_def columns_def)

text \<open>
  C8 as stated fails for the weather bundle: a training call whose feature frame has the
  column \<^verbatim>\<open>fcst_temp\<close> and whose four targets are all skipped (one labelled row
  each) persists a bundle that holds no list of feature names, and the prediction run on
  that bundle has no list to align to.
\<close>

theorem weather_bundle_without_feature_names:
  "weather_train ex_toolkit weather_init ex_X ex_obs ex_X ex_obs =
     Inr (weather_init, [],
          [SkippingTarget ''temperature'' 1, SkippingTarget ''humidity'' 1,
           SkippingTarget ''wind_speed'' 1, SkippingTarget ''wind_direction'' 1]) \<and>
   columns ex_X = [''fcst_temp''] \<and>
   weather_save weather_init MODEL_PATH ex_empty_files MODEL_PATH = Some (WeatherArtifact [] []) \<and>
   stored_feature_lists (WeatherArtifact [] []) = [] \<and>
   predict_main (\<lambda>d x. x) ex_pipeline
     (precip_save ex_serve_precip PRECIP_MODEL_PATH
        (weather_save weather_init MODEL_PATH ex_empty_files))
     ex_serve_table = (Inl (KeyError ''temperature''), [])"
proof -
  have c: "columns ex_X = [''fcst_temp'']" by (simp add: columns_def ex_X_def)
  have s: "weather_save weather_init MODEL_PATH ex_empty_files MODEL_PATH =
      Some (WeatherArtifact [] [])"
    by (simp add: weather_save_def weather_init_def)
  have l: "stored_feature_lists (WeatherArtifact [] []) = []"
    by (simp add: stored_feature_lists_def)
  have p: "predict_main (\<lambda>d x. x) ex_pipeline
     (precip_save ex_serve_precip PRECIP_MODEL_PATH
        (weather_save weather_init MODEL_PATH ex_empty_files))
     ex_serve_table = (Inl (KeyError ''temperature''), [])"
    by (simp add: predict_main_def weather_load_def precip_load_def weather_save_def
        precip_save_def MODEL_PATH_def PRECIP_MODEL_PATH_def weather_init_def Let_def)
  from ex_weather_train_skips c s l p show ?thesis by simp
qed

theorem bundles_carry_fit_time_feature_names_witness:
  "(\<exists>wp sc out.
      weather_train ex_toolkit weather_init ex_X100 ex_obs100 ex_X ex_obs = Inr (wp, sc, out) \<and>
      map_of (models wp) ''temperature'' \<noteq> None \<and>
      weather_load MODEL_PATH (weather_save wp MODEL_PATH ex_empty_files) = Inr wp \<and>
      set (stored_feature_lists (WeatherArtifact (models wp) (quantile_models wp))) =
        {[''fcst_temp'']}) \<and>
   precip_train ex_toolkit precip_init ex_X101 ex_y101 ex_X_val ex_y_val =
     Inr (ex_skipped, [(''brier'', 0), (''auc'', 0)], [PrecipClassification 0 0]) \<and>
   set (stored_feature_lists
          (PrecipArtifact (classifier ex_skipped) (regressor ex_skipped) (calibrator ex_skipped)
             (pp_quantile_models ex_skipped))) = {[''fcst_temp'']} \<and>
   weather_load MODEL_PATH ex_serve_files = Inr ex_serve_weather \<and>
   precip_load PRECIP_MODEL_PATH ex_serve_files = Inr ex_serve_precip \<and>
   map_of (models ex_serve_weather) ''temperature'' = Some ex_abc_model \<and>
   (\<exists>X df' out.
      predict_main (\<lambda>d x. x) ex_pipeline ex_serve_files ex_serve_table =
        serve_predictions (\<lambda>d x. x) ex_serve_weather ex_serve_precip df' X out \<and>
      columns X = [''A'', ''B'', ''C''])"
proof -
  note u = bundles_carry_fit_time_feature_names
  note u2 = u [THEN conjunct2, THEN conjunct1, rule_format]
  note u4 = u [THEN conjunct2, THEN conjunct2, THEN conjunct2, rule_format]
  have cx: "columns ex_X100 = [''fcst_temp'']"
    by (simp add: columns_def ex_X100_def)
  have w: "\<exists>wp sc out.
      weather_train ex_toolkit weather_init ex_X100 ex_obs100 ex_X ex_obs = Inr (wp, sc, out) \<and>
      map_of (models wp) ''temperature'' \<noteq> None \<and>
      weather_load MODEL_PATH (weather_save wp MODEL_PATH ex_empty_files) = Inr wp \<and>
      set (stored_feature_lists (WeatherArtifact (models wp) (quantile_models wp))) =
        {[''fcst_temp'']}"
  proof -
    from ex_weather_train_100 obtain wp sc out g where
      t: "weather_train ex_toolkit weather_init ex_X100 ex_obs100 ex_X ex_obs = Inr (wp, sc, out)"
      and g: "map_of (models wp) ''temperature'' = Some g"
      by (elim exE conjE)
    let ?L = "stored_feature_lists (WeatherArtifact (models wp) (quantile_models wp))"
    note a = u2 [OF t, where path = MODEL_PATH and fs = ex_empty_files]
    have ld: "weather_load MODEL_PATH (weather_save wp MODEL_PATH ex_empty_files) = Inr wp"
      by (rule a [THEN conjunct2, THEN conjunct1])
    have all: "\<forall>l \<in> set ?L. l = columns ex_X100"
      by (rule a [THEN conjunct2, THEN conjunct2])
    from g have "(''temperature'', g) \<in> set (models wp)" by (rule map_of_SomeD)
    then have "feature_name g \<in> (\<lambda>(t, g). feature_name g) ` set (models wp)"
      by (rule rev_image_eqI) simp
    then have mem: "feature_name g \<in> set ?L"
      by (simp add: stored_feature_lists_def)
    with all have fg: "feature_name g = columns ex_X100" by (rule bspec)
    have sub: "set ?L \<subseteq> {[''fcst_temp'']}"
    proof
      fix l assume "l \<in> set ?L"
      with all have "l = columns ex_X100" by (rule bspec)
      then show "l \<in> {[''fcst_temp'']}" by (simp only: cx singletonI)
    qed
    have "[''fcst_temp''] \<in> set ?L" using mem unfolding fg cx .
    with sub have eq: "set ?L = {[''fcst_temp'']}" by (rule_tac equalityI) simp_all
    have ne: "map_of (models wp) ''temperature'' \<noteq> None" by (simp only: g) simp
    show ?thesis
      by (rule exI [of _ wp], rule exI [of _ sc], rule exI [of _ out])
         (intro conjI t ne ld eq)
  qed
  have pl: "set (stored_feature_lists
          (PrecipArtifact (classifier ex_skipped) (regressor ex_skipped) (calibrator ex_skipped)
             (pp_quantile_models ex_skipped))) = {[''fcst_temp'']}"
    by (simp add: stored_feature_lists_def ex_skipped_def const_model_def)
  have tm: "map_of (models ex_serve_weather) ''temperature'' = Some ex_abc_model"
    by (simp add: ex_serve_weather_def)
  have pre: "weather_load MODEL_PATH ex_serve_files = Inr ex_serve_weather \<and>
     precip_load PRECIP_MODEL_PATH ex_serve_files = Inr ex_serve_precip"
    by (intro conjI ex_serve_load)
  note c = u4 [OF pre, where rnd = "\<lambda>d x. x" and pl = ex_pipeline and fetched = ex_serve_table]
  have fn: "feature_name ex_abc_model = [''A'', ''B'', ''C'']" by (simp add: ex_abc_model_def)
  have s: "\<exists>X df' out.
      predict_main (\<lambda>d x. x) ex_pipeline ex_serve_files ex_serve_table =
        serve_predictions (\<lambda>d x. x) ex_serve_weather ex_serve_precip df' X out \<and>
      columns X = [''A'', ''B'', ''C'']"
    using c [THEN conjunct2, rule_format, OF tm] unfolding fn .
  show ?thesis
    by (intro conjI w ex_train_skipped pl ex_serve_load tm s)
qed

subsection \<open>The bundles that training leaves\<close>

text \<open>
  The bundles of a training run meet what the prediction run relies on: when
  \<^verbatim>\<open>WeatherPredictor.train\<close> returns from a fresh predictor with a humidity and a
  wind-speed model, and \<^verbatim>\<open>PrecipitationPredictor.train\<close> returns from a fresh
  predictor on frames of the same columns with more than 100 rain rows, the two
  predictors are complete for the number of training columns.
\<close>

lemma fit_quantiles_keys:
  assumes "fit_quantiles tk X y qm alphas = Inr qm'"
  shows "fst ` set qm' = fst ` set qm \<union> set alphas"
  using assms
proof (induction alphas arbitrary: qm)
  case Nil
  then show ?case by simp
next
  case (Cons alpha rest)
  from Cons.prems obtain qmodel where
    r: "fit_quantiles tk X y (AList.update alpha qmodel qm) rest = Inr qm'"
    by (auto split: sum.splits)
  from Cons.IH [OF r] show ?case by (auto simp: dom_update)
qed

lemma fit_quantiles_has:
  assumes "fit_quantiles tk X y qm alphas = Inr qm'" and "alpha \<in> set alphas"
  shows "map_of qm' alpha \<noteq> None"
proof -
  from fit_quantiles_keys [OF assms(1)] assms(2) have "alpha \<in> fst ` set qm'" by simp
  then show ?thesis by (simp add: map_of_eq_None_iff)
qed

lemma train_target_quantile_pairs:
  assumes "train_target tk X_train y_train X_val y_val (wp, sc, out) target = Inr (wp', sc', out')"
    and "target \<in> set targets" and "quantile_pairs wp"
  shows "quantile_pairs wp'"
proof -
  consider (same) "wp' = wp"
    | (fit) common yt model qs where
        "fit_quantiles tk (loc_rows common X_train) yt [] [1 / 10, 9 / 10] = Inr qs"
        "wp' = wp\<lparr>models := AList.update target model (models wp),
                  quantile_models := AList.update target qs (quantile_models wp)\<rparr>"
    using assms(1)
    by (auto simp: train_target_def Let_def simp del: fit_quantiles.simps
        split: option.splits if_splits sum.splits)
  then show ?thesis
  proof cases
    case same
    with assms(3) show ?thesis by simp
  next
    case fit
    have d: "distinct (map fst (models wp'))"
      using assms(3) fit(2) by (simp add: quantile_pairs_def distinct_update)
    have s: "set (map fst (models wp')) \<subseteq> set targets"
      using assms(2,3) fit(2) by (auto simp: quantile_pairs_def dom_update)
    have k: "map_of qs (1 / 10) \<noteq> None \<and> map_of qs (9 / 10) \<noteq> None"
      using fit_quantiles_has [OF fit(1), of "1 / 10"] fit_quantiles_has [OF fit(1), of "9 / 10"]
      by simp
    have q: "map_of qs' (1 / 10) \<noteq> None \<and> map_of qs' (9 / 10) \<noteq> None"
      if "(t, qs') \<in> set (quantile_models wp')" for t qs'
    proof -
      from that fit(2) set_update_subset
      have "(t, qs') = (target, qs) \<or> (t, qs') \<in> set (quantile_models wp)" by fastforce
      then show ?thesis using k assms(3) by (auto simp: quantile_pairs_def)
    qed
    from d s q show ?thesis unfolding quantile_pairs_def by blast
  qed
qed

lemma train_targets_quantile_pairs:
  assumes "train_targets tk X_train y_train X_val y_val st ts = Inr st'"
    and "set ts \<subseteq> set targets" and "quantile_pairs (fst st)"
  shows "quantile_pairs (fst st')"
  using assms
proof (induction ts arbitrary: st)
  case Nil
  then show ?case by simp
next
  case (Cons t ts)
  from Cons.prems(1) obtain st1 where
    s1: "train_target tk X_train y_train X_val y_val st t = Inr st1"
    and s2: "train_targets tk X_train y_train X_val y_val st1 ts = Inr st'"
    by (auto split: sum.splits)
  obtain wp sc out where st: "st = (wp, sc, out)" by (cases st)
  obtain wp1 sc1 out1 where st1: "st1 = (wp1, sc1, out1)" by (cases st1)
  from Cons.prems(2) have t: "t \<in> set targets" and ts: "set ts \<subseteq> set targets" by simp_all
  from train_target_quantile_pairs [OF s1 [unfolded st st1] t] Cons.prems(3) st
  have "quantile_pairs (fst st1)" by (simp add: st1)
  from Cons.IH [OF s2 ts this] show ?case .
qed

lemma weather_train_quantile_pairs:
  assumes "weather_train tk weather_init X_train y_train X_val y_val = Inr (wp, sc, out)"
  shows "quantile_pairs wp"
proof -
  have "quantile_pairs (fst (weather_init, [], []))"
    by (simp add: quantile_pairs_def weather_init_def)
  from train_targets_quantile_pairs [OF assms [unfolded weather_train_def] subset_refl this]
  show ?thesis by simp
qed

lemma precip_train_fitted:
  assumes "precip_train tk precip_init X_train y_train X_val y_val = Inr (pp, sc, out)"
    and "100 < mask_sum (map is_rain y_train)"
  shows "regressor pp \<noteq> None \<and> fst ` set (pp_quantile_models pp) = set precip_alphas"
proof -
  from precip_train_state [OF assms(1)] obtain clf cal where
    st: "precip_stage2 tk (precip_init\<lparr>classifier := Some clf, calibrator := Some cal\<rparr>)
               X_train y_train X_val y_val = Inr pp"
    by (elim exE conjE)
  from precip_stage2_state [OF st] assms(2) obtain reg qm where
    qm: "fit_quantiles tk
                 (mask_rows (map is_rain y_train) X_train)
                 (mask_list (map is_rain y_train) y_train)
                 (pp_quantile_models (precip_init\<lparr>classifier := Some clf, calibrator := Some cal\<rparr>))
                 precip_alphas = Inr qm"
    and pp: "pp = precip_init\<lparr>classifier := Some clf, calibrator := Some cal,
                              regressor := Some reg, pp_quantile_models := qm\<rparr>"
    by auto
  from fit_quantiles_keys [OF qm] pp show ?thesis by (simp add: precip_init_def)
qed

lemma trained_bundles_complete:
  assumes w: "weather_train tk weather_init X_train y_train X_val y_val = Inr (wp, sc, out)"
    and h: "''humidity'' \<in> fst ` set (models wp)" and ws: "''wind_speed'' \<in> fst ` set (models wp)"
    and p: "precip_train tk precip_init X_train' y_train' X_val' y_val' = Inr (pp, sc', out')"
    and big: "100 < mask_sum (map is_rain y_train')"
    and cols: "columns X_train' = columns X_train"
  shows "complete_bundles (length (columns X_train)) wp pp"
proof -
  let ?n = "length (columns X_train)"
  note qp = weather_train_quantile_pairs [OF w]
  note fo = weather_train_fitted_on [OF w]
  have m: "length (feature_name g) = ?n \<and>
      (case map_of (quantile_models wp) t of
         None \<Rightarrow> True
       | Some qs \<Rightarrow>
           (case map_of qs (1 / 10) of
              None \<Rightarrow> False
            | Some lo \<Rightarrow>
                (case map_of qs (9 / 10) of
                   None \<Rightarrow> False
                 | Some hi \<Rightarrow> length (feature_name lo) = ?n \<and> length (feature_name hi) = ?n)))"
    if tg: "(t, g) \<in> set (models wp)" for t g
  proof -
    from fo tg have g: "length (feature_name g) = ?n" by (auto simp: fitted_on_def)
    show ?thesis
    proof (cases "map_of (quantile_models wp) t")
      case None
      with g show ?thesis by simp
    next
      case (Some qs)
      then have mem: "(t, qs) \<in> set (quantile_models wp)" by (rule map_of_SomeD)
      with qp obtain lo hi where lh: "map_of qs (1 / 10) = Some lo" "map_of qs (9 / 10) = Some hi"
        by (auto simp: quantile_pairs_def)
      from lh have "(1 / 10, lo) \<in> set qs" "(9 / 10, hi) \<in> set qs"
        by (auto dest: map_of_SomeD)
      with fo mem have "feature_name lo = columns X_train" "feature_name hi = columns X_train"
        by (auto simp: fitted_on_def)
      with g Some lh show ?thesis by simp
    qed
  qed
  then have la: "list_all
       (\<lambda>(t, g). length (feature_name g) = ?n \<and>
          (case map_of (quantile_models wp) t of
             None \<Rightarrow> True
           | Some qs \<Rightarrow>
               (case map_of qs (1 / 10) of
                  None \<Rightarrow> False
                | Some lo \<Rightarrow>
                    (case map_of qs (9 / 10) of
                       None \<Rightarrow> False
                     | Some hi \<Rightarrow>
                         length (feature_name lo) = ?n \<and> length (feature_name hi) = ?n))))
       (models wp)"
    by (auto simp: list_all_iff)
  note pf = precip_train_fitted_on [OF p]
  note pq = precip_train_fitted [OF p big]
  from pf cols obtain c where c: "classifier pp = Some c" "length (feature_name c) = ?n" by auto
  from pq obtain r where r: "regressor pp = Some r" by auto
  with pf cols have rl: "length (feature_name r) = ?n" by auto
  from pf cols have ql: "list_all (\<lambda>(alpha, g). length (feature_name g) = ?n) (pp_quantile_models pp)"
    by (auto simp: list_all_iff)
  from pq have al: "set (map fst (pp_quantile_models pp)) \<subseteq> set precip_alphas" by simp
  from pq have "9 / 10 \<in> fst ` set (pp_quantile_models pp)" by (simp add: precip_alphas_def)
  then obtain g90 where "(9 / 10, g90) \<in> set (pp_quantile_models pp)" by auto
  then have "(\<lambda>(alpha, g). quantile_key alpha) (9 / 10, g90) \<in>
      (\<lambda>(alpha, g). quantile_key alpha) ` set (pp_quantile_models pp)" by (rule imageI)
  then have "quantile_key (9 / 10) \<in> set (map (\<lambda>(alpha, g). quantile_key alpha) (pp_quantile_models pp))"
    by simp
  then have q90: "''precip_q90_mm'' \<in>
      set (map (\<lambda>(alpha, g). quantile_key alpha) (pp_quantile_models pp))"
    by (simp only: quantile_key_10_90)
  from qp have d: "distinct (map fst (models wp))" "set (map fst (models wp)) \<subseteq> set targets"
    by (simp_all add: quantile_pairs_def)
  from h ws have hw: "''humidity'' \<in> set (map fst (models wp))"
    "''wind_speed'' \<in> set (map fst (models wp))" by simp_all
  show ?thesis
    unfolding complete_bundles_def
    using d hw la c r rl ql al q90 by simp
qed
end
